theory Spec2Isabelle
  imports Complex_Main
begin

section \<open>JavaScript values as the analysis code sees them\<close>

text \<open>
  The analysis code of the repository (\<^verbatim>\<open>src/utils/openai.ts\<close> and the copy of it at the end
  of \<^verbatim>\<open>src/App.tsx\<close>) works on the rows of an uploaded sheet: plain objects from column
  names to primitive values (a sheet read with the defaults of the parser holds no \<open>Date\<close>
  object).

  A JavaScript number is a double. \<open>Fin a\<close> is the finite double whose value is the rational
  \<open>a\<close>; the other three are \<open>NaN\<close> and the two infinities. The two zeros are one value
  here: the code cannot tell them apart, since it never divides by a zero that could be
  negative (\<open>max - min\<close> and \<open>value - min\<close> are differences of a larger and a smaller number,
  and \<open>x - x\<close> is \<open>+0\<close>), while \<open>String\<close>, \<open>toFixed\<close>, the keys of an array and the
  membership in a \<open>Set\<close> treat both zeros alike.
\<close>

datatype jsnum = Fin rat | NaN | PosInf | NegInf

subsection \<open>Rounding to a double\<close>

text \<open>
  Every arithmetic operation returns the double nearest to the exact result, the one with
  the even significand when two are as near (IEEE 754, round to nearest, ties to even); a
  result of magnitude \<open>2^1024 - 2^970\<close> or more is an infinity. A double other than zero is
  \<open>m * 2^e\<close> with an integer \<open>m\<close> below \<open>2^53\<close> and \<open>-1074 \<le> e\<close>, where \<open>m\<close> has \<open>53\<close> bits
  unless \<open>e\<close> is \<open>-1074\<close>.

  \<open>bits n\<close> is the number of binary digits of \<open>n\<close>, \<open>pow2 e\<close> is \<open>2^e\<close> for an integer \<open>e\<close>, and
  \<open>ilog2 a\<close> is the integer part of the binary logarithm of a positive rational:
  \<open>2^(ilog2 a) \<le> a < 2^(ilog2 a + 1)\<close>.
\<close>

fun bits :: "nat \<Rightarrow> nat" where
  "bits n = (if n = 0 then 0 else Suc (bits (n div 2)))"

declare bits.simps [simp del]

definition pow2 :: "int \<Rightarrow> rat" where
  "pow2 e = (if 0 \<le> e then 2 ^ nat e else 1 / 2 ^ nat (- e))"

definition ilog2 :: "rat \<Rightarrow> int" where
  "ilog2 a =
     (if 1 \<le> a then int (bits (nat \<lfloor>a\<rfloor>)) - 1
      else - int (bits (nat (if of_int \<lfloor>1 / a\<rfloor> = 1 / a then \<lfloor>1 / a\<rfloor> - 1 else \<lfloor>1 / a\<rfloor>))))"

text \<open>The integer nearest to \<open>y\<close>, the even one of two that are as near.\<close>

definition round_half_even :: "rat \<Rightarrow> int" where
  "round_half_even y =
     (let f = \<lfloor>y\<rfloor>; d = y - of_int f
      in if d < 1 / 2 then f else if 1 / 2 < d then f + 1 else if even f then f else f + 1)"

text \<open>
  \<open>fl x\<close>: the double that the exact result \<open>x\<close> of an operation is rounded to. The decimal
  literal \<open>0.1\<close> of a program or of a sheet likewise stands for the double \<open>fl (1 / 10)\<close>.
\<close>

definition fl :: "rat \<Rightarrow> jsnum" where
  "fl x =
     (if x = 0 then Fin 0
      else let e = max (ilog2 \<bar>x\<bar> - 52) (- 1074);
               m = round_half_even (\<bar>x\<bar> / pow2 e)
           in if 2 ^ 1024 \<le> of_int m * pow2 e then (if x < 0 then NegInf else PosInf)
              else Fin (sgn x * (of_int m * pow2 e)))"

subsection \<open>Values and rows\<close>

text \<open>
  Next to the primitive values, a read of a property can give two objects that every
  plain object inherits: a built-in function, here given by its name, and the object
  \<open>Object.prototype\<close> itself.
\<close>

datatype jsval =
    JUndefined | JNull | JBool bool | JNum jsnum | JStr string
  | JFunction string | JPrototype

text \<open>A row, as the map of its own properties.\<close>

type_synonym row = "string \<rightharpoonup> jsval"

text \<open>
  The members of \<open>Object.prototype\<close>, which a row and every other plain object inherits:
  the accessor \<open>__proto__\<close>, whose getter returns the prototype of the object, the function
  \<open>Object\<close> under the key \<open>constructor\<close>, and ten methods.
\<close>

definition Object_prototype :: "string \<Rightarrow> jsval option" where
  "Object_prototype key =
     (if key = ''__proto__'' then Some JPrototype
      else if key = ''constructor'' then Some (JFunction ''Object'')
      else if key \<in> set [''hasOwnProperty'', ''isPrototypeOf'', ''propertyIsEnumerable'',
                          ''toLocaleString'', ''toString'', ''valueOf'', ''__defineGetter__'',
                          ''__defineSetter__'', ''__lookupGetter__'', ''__lookupSetter__'']
      then Some (JFunction key)
      else None)"

text \<open>
  \<open>item[column]\<close>: the row's own property, else the member of \<open>Object.prototype\<close> of that
  name, else \<open>undefined\<close>.
\<close>

definition get_prop :: "row \<Rightarrow> string \<Rightarrow> jsval" where
  "get_prop item column =
     (case item column of
        Some v \<Rightarrow> v
      | None \<Rightarrow> (case Object_prototype column of Some v \<Rightarrow> v | None \<Rightarrow> JUndefined))"

fun typeof :: "jsval \<Rightarrow> string" where
  "typeof JUndefined = ''undefined''"
| "typeof JNull = ''object''"
| "typeof (JBool b) = ''boolean''"
| "typeof (JNum n) = ''number''"
| "typeof (JStr s) = ''string''"
| "typeof (JFunction f) = ''function''"
| "typeof JPrototype = ''object''"

subsection \<open>Arithmetic on numbers\<close>

fun num_neg :: "jsnum \<Rightarrow> jsnum" where
  "num_neg (Fin a) = Fin (- a)"
| "num_neg NaN = NaN"
| "num_neg PosInf = NegInf"
| "num_neg NegInf = PosInf"

fun num_add :: "jsnum \<Rightarrow> jsnum \<Rightarrow> jsnum" where
  "num_add NaN b = NaN"
| "num_add a NaN = NaN"
| "num_add (Fin a) (Fin b) = fl (a + b)"
| "num_add PosInf NegInf = NaN"
| "num_add NegInf PosInf = NaN"
| "num_add PosInf b = PosInf"
| "num_add NegInf b = NegInf"
| "num_add a PosInf = PosInf"
| "num_add a NegInf = NegInf"

definition num_sub :: "jsnum \<Rightarrow> jsnum \<Rightarrow> jsnum" where
  "num_sub a b = num_add a (num_neg b)"

text \<open>The sign of a number that is not \<open>NaN\<close>: \<open>True\<close> for a negative one.\<close>

fun negative :: "jsnum \<Rightarrow> bool" where
  "negative (Fin a) = (a < 0)"
| "negative NegInf = True"
| "negative b = False"

fun num_mul :: "jsnum \<Rightarrow> jsnum \<Rightarrow> jsnum" where
  "num_mul NaN b = NaN"
| "num_mul a NaN = NaN"
| "num_mul (Fin a) (Fin b) = fl (a * b)"
| "num_mul (Fin a) b = (if a = 0 then NaN else if (a < 0) = negative b then PosInf else NegInf)"
| "num_mul a (Fin b) = (if b = 0 then NaN else if (b < 0) = negative a then PosInf else NegInf)"
| "num_mul a b = (if negative a = negative b then PosInf else NegInf)"

fun num_div :: "jsnum \<Rightarrow> jsnum \<Rightarrow> jsnum" where
  "num_div NaN b = NaN"
| "num_div a NaN = NaN"
| "num_div (Fin a) (Fin b) =
     (if b = 0 then (if a = 0 then NaN else if a < 0 then NegInf else PosInf)
      else fl (a / b))"
| "num_div (Fin a) b = Fin 0"
| "num_div a (Fin b) = (if negative a = (b < 0) then PosInf else NegInf)"
| "num_div a b = NaN"

text \<open>\<open>Math.floor\<close>; the integer part of a double is a double.\<close>

fun Math_floor :: "jsnum \<Rightarrow> jsnum" where
  "Math_floor (Fin a) = Fin (of_int \<lfloor>a\<rfloor>)"
| "Math_floor b = b"

fun min2 :: "jsnum \<Rightarrow> jsnum \<Rightarrow> jsnum" where
  "min2 NaN b = NaN"
| "min2 a NaN = NaN"
| "min2 NegInf b = NegInf"
| "min2 a NegInf = NegInf"
| "min2 PosInf b = b"
| "min2 a PosInf = a"
| "min2 (Fin a) (Fin b) = Fin (min a b)"

fun max2 :: "jsnum \<Rightarrow> jsnum \<Rightarrow> jsnum" where
  "max2 NaN b = NaN"
| "max2 a NaN = NaN"
| "max2 PosInf b = PosInf"
| "max2 a PosInf = PosInf"
| "max2 NegInf b = b"
| "max2 a NegInf = a"
| "max2 (Fin a) (Fin b) = Fin (max a b)"

text \<open>
  \<open>Math.min\<close> and \<open>Math.max\<close> applied to the arguments \<open>xs\<close>: the least and the greatest
  argument, \<open>NaN\<close> when one of them is, and \<open>Infinity\<close>, \<open>-Infinity\<close> for no argument at all.
  Whether a call \<open>Math.min(...values)\<close> can pass its arguments at all is decided where the
  call is made, in \<open>processDataForChart\<close> below.
\<close>

definition Math_min :: "jsnum list \<Rightarrow> jsnum" where
  "Math_min xs = foldr min2 xs PosInf"

definition Math_max :: "jsnum list \<Rightarrow> jsnum" where
  "Math_max xs = foldr max2 xs NegInf"

subsection \<open>Chart points and thrown values\<close>

text \<open>
  A point of a series, \<open>{name, value}\<close> in the source. TypeScript declares the value a
  number, and the code puts counts there; only a table of counts kept in a plain object
  can hold a text in place of a count (see \<open>obj_increment\<close> below). A count is a whole
  number below \<open>2^32\<close>, the bound on the length of an array, so adding one to it is exact.
\<close>

datatype tally = Count nat | Text string

record chartpoint =
  cp_name :: string
  cp_value :: tally

text \<open>
  A value that was thrown: an \<open>Error\<close> with its message (a \<open>TypeError\<close>, a \<open>RangeError\<close> and a
  \<open>SyntaxError\<close> are such), or something that is no \<open>Error\<close>. A computation that may throw
  returns \<open>Inl\<close> of what it threw.
\<close>

datatype thrown = Error string | NotAnError

subsection \<open>What the engine decides\<close>

text \<open>
  The following are parameters of the model, so every theorem holds whatever they are:

  \<^item> \<open>StringToNumber\<close>, the number a string converts to, and \<open>NumberToString\<close>, the text of a
    number that is not an integer of magnitude at most \<open>2^53\<close> (such an integer prints as
    its decimal digits);
  \<^item> \<open>FunctionToString\<close>, the text of a built-in function of a given name, such as
    \<^verbatim>\<open>function toString() { [native code] }\<close>, whose white space differs between engines;
  \<^item> the messages of the errors that the engine itself throws: of the \<open>TypeError\<close> for an
    expression that reads a property of \<open>undefined\<close> or \<open>null\<close>, of the \<open>SyntaxError\<close> of
    \<open>JSON.parse\<close> for a text, and of the \<open>RangeError\<close> for a call with too many arguments;
  \<^item> \<open>argument_limit\<close>, the greatest number of arguments that a call \<open>f(...xs)\<close> can pass
    (engines differ, and none passes arbitrarily many);
  \<^item> \<open>sort_inconsistent\<close>, the order in which \<open>Array.prototype.sort\<close> leaves an array when
    the comparison function is not consistent, which the language leaves to the
    implementation.
\<close>

record js_builtins =
  StringToNumber :: "string \<Rightarrow> jsnum"
  NumberToString :: "rat \<Rightarrow> string"
  FunctionToString :: "string \<Rightarrow> string"
  TypeError_message :: "string \<Rightarrow> string"
  SyntaxError_message :: "string \<Rightarrow> string"
  RangeError_message :: string
  argument_limit :: nat
  sort_inconsistent :: "chartpoint list \<Rightarrow> chartpoint list"

subsection \<open>Conversions\<close>

text \<open>
  \<open>Number(v)\<close>. An object converts by way of its text, and neither the text of a built-in
  function nor \<open>[object Object]\<close> is the text of a number.
\<close>

fun ToNumber :: "'e js_builtins_scheme \<Rightarrow> jsval \<Rightarrow> jsnum" where
  "ToNumber E JUndefined = NaN"
| "ToNumber E JNull = Fin 0"
| "ToNumber E (JBool b) = (if b then Fin 1 else Fin 0)"
| "ToNumber E (JNum n) = n"
| "ToNumber E (JStr s) = StringToNumber E s"
| "ToNumber E (JFunction f) = NaN"
| "ToNumber E JPrototype = NaN"

definition isNaN :: "'e js_builtins_scheme \<Rightarrow> jsval \<Rightarrow> bool" where
  "isNaN E v = (ToNumber E v = NaN)"

definition digit_char :: "nat \<Rightarrow> char" where
  "digit_char d = ''0123456789'' ! d"

fun digits :: "nat \<Rightarrow> string" where
  "digits n = (if n < 10 then [digit_char n] else digits (n div 10) @ [digit_char (n mod 10)])"

declare digits.simps [simp del]

definition is_integer :: "rat \<Rightarrow> bool" where
  "is_integer a = (of_int \<lfloor>a\<rfloor> = a)"

fun num_to_string :: "'e js_builtins_scheme \<Rightarrow> jsnum \<Rightarrow> string" where
  "num_to_string E NaN = ''NaN''"
| "num_to_string E PosInf = ''Infinity''"
| "num_to_string E NegInf = ''-Infinity''"
| "num_to_string E (Fin a) =
     (if is_integer a \<and> \<bar>a\<bar> \<le> 2 ^ 53
      then (if a < 0 then ''-'' else '''') @ digits (nat \<lfloor>\<bar>a\<bar>\<rfloor>)
      else NumberToString E a)"

text \<open>\<open>String(v)\<close>.\<close>

fun String :: "'e js_builtins_scheme \<Rightarrow> jsval \<Rightarrow> string" where
  "String E JUndefined = ''undefined''"
| "String E JNull = ''null''"
| "String E (JBool b) = (if b then ''true'' else ''false'')"
| "String E (JNum n) = num_to_string E n"
| "String E (JStr s) = s"
| "String E (JFunction f) = FunctionToString E f"
| "String E JPrototype = ''[object Object]''"

text \<open>
  \<open>x.toFixed(2)\<close>: the sign, then the integer \<open>n\<close> for which \<open>n / 100\<close> is nearest to the exact
  value of the double \<open>|x|\<close> (the larger of two that are as near), printed with a point
  before its last two digits. A number of magnitude \<open>10^21\<close> or more, and one that is not
  finite, prints as \<open>String\<close> prints it.
\<close>

fun toFixed2 :: "'e js_builtins_scheme \<Rightarrow> jsnum \<Rightarrow> string" where
  "toFixed2 E (Fin a) =
     (if \<bar>a\<bar> \<ge> 10 ^ 21 then num_to_string E (Fin a)
      else let n = nat \<lfloor>\<bar>a\<bar> * 100 + 1 / 2\<rfloor>;
               m = digits n;
               m = (if length m \<le> 2 then replicate (3 - length m) (CHR ''0'') @ m else m)
           in (if a < 0 then ''-'' else '''') @ take (length m - 2) m @ ''.'' @ drop (length m - 2) m)"
| "toFixed2 E b = num_to_string E b"

text \<open>\<open>a ?? b\<close> and \<open>a || b\<close> on values.\<close>

definition nullish :: "jsval \<Rightarrow> jsval \<Rightarrow> jsval" where
  "nullish a b = (if a = JUndefined \<or> a = JNull then b else a)"

fun truthy :: "jsval \<Rightarrow> bool" where
  "truthy JUndefined = False"
| "truthy JNull = False"
| "truthy (JBool b) = b"
| "truthy (JNum n) = (n \<noteq> NaN \<and> n \<noteq> Fin 0)"
| "truthy (JStr s) = (s \<noteq> [])"
| "truthy (JFunction f) = True"
| "truthy JPrototype = True"

definition or_else :: "jsval \<Rightarrow> jsval \<Rightarrow> jsval" where
  "or_else a b = (if truthy a then a else b)"

section \<open>The chart series builder: \<open>processDataForChart\<close>\<close>

subsection \<open>The histogram of a numeric column\<close>

text \<open>
  \<open>uniqueValues\<close>: the set of the column's values that are neither \<open>undefined\<close> nor \<open>null\<close>,
  here without repetition, so that its length is the set's \<open>size\<close>.
\<close>

definition uniqueValues :: "row list \<Rightarrow> string \<Rightarrow> jsval list" where
  "uniqueValues data column =
     remdups (filter (\<lambda>v. v \<noteq> JUndefined \<and> v \<noteq> JNull) (map (\<lambda>item. get_prop item column) data))"

text \<open>\<open>values\<close>: the values of the column that pass \<open>val !== null && !isNaN(val)\<close>.\<close>

definition chart_values :: "'e js_builtins_scheme \<Rightarrow> row list \<Rightarrow> string \<Rightarrow> jsval list" where
  "chart_values E data column =
     filter (\<lambda>val. val \<noteq> JNull \<and> \<not> isNaN E val) (map (\<lambda>item. get_prop item column) data)"

definition chart_min :: "'e js_builtins_scheme \<Rightarrow> row list \<Rightarrow> string \<Rightarrow> jsnum" where
  "chart_min E data column = Math_min (map (ToNumber E) (chart_values E data column))"

definition chart_max :: "'e js_builtins_scheme \<Rightarrow> row list \<Rightarrow> string \<Rightarrow> jsnum" where
  "chart_max E data column = Math_max (map (ToNumber E) (chart_values E data column))"

definition chart_range :: "'e js_builtins_scheme \<Rightarrow> row list \<Rightarrow> string \<Rightarrow> jsnum" where
  "chart_range E data column = num_sub (chart_max E data column) (chart_min E data column)"

text \<open>
  \<open>Math.min(10, uniqueValues.size)\<close>, a whole number of at most ten; it and the positions of
  the bins are kept as natural numbers, and \<open>binCount - 1\<close> and \<open>index + 1\<close> below are exact.
\<close>

definition binCount :: "row list \<Rightarrow> string \<Rightarrow> nat" where
  "binCount data column = min 10 (length (uniqueValues data column))"

definition binSize :: "'e js_builtins_scheme \<Rightarrow> row list \<Rightarrow> string \<Rightarrow> jsnum" where
  "binSize E data column = num_div (chart_range E data column) (Fin (of_nat (binCount data column)))"

text \<open>
  \<open>Math.min(Math.floor((value - min) / binSize), binCount - 1)\<close> for one value of the
  column.
\<close>

definition binIndex :: "'e js_builtins_scheme \<Rightarrow> row list \<Rightarrow> string \<Rightarrow> jsval \<Rightarrow> jsnum" where
  "binIndex E data column v =
     Math_min [Math_floor (num_div (num_sub (ToNumber E v) (chart_min E data column)) (binSize E data column)),
               Fin (of_nat (binCount data column) - 1)]"

text \<open>
  \<open>bins[binIndex]++\<close>. An index that is a position of the array counts there. Any other
  index that is not a position past the end (\<open>NaN\<close>, a negative number, an infinity) names
  a property of the array object and leaves its elements alone. A position past the end
  would grow the array; \<open>binIndex\<close> is never one (lemma \<open>binIndex_not_past_end\<close> below),
  so that case is left as it stands.
\<close>

fun increment :: "nat list \<Rightarrow> jsnum \<Rightarrow> nat list" where
  "increment bins (Fin a) =
     (if is_integer a \<and> 0 \<le> a \<and> nat \<lfloor>a\<rfloor> < length bins
      then bins[nat \<lfloor>a\<rfloor> := bins ! nat \<lfloor>a\<rfloor> + 1] else bins)"
| "increment bins b = bins"

definition fill_bins :: "'e js_builtins_scheme \<Rightarrow> row list \<Rightarrow> string \<Rightarrow> nat list" where
  "fill_bins E data column =
     foldl (\<lambda>bins v. increment bins (binIndex E data column v))
       (replicate (binCount data column) 0) (chart_values E data column)"

definition bin_name :: "'e js_builtins_scheme \<Rightarrow> row list \<Rightarrow> string \<Rightarrow> nat \<Rightarrow> string" where
  "bin_name E data column index =
     toFixed2 E (num_add (chart_min E data column) (num_mul (Fin (of_nat index)) (binSize E data column)))
     @ '' - '' @
     toFixed2 E (num_add (chart_min E data column) (num_mul (Fin (of_nat index + 1)) (binSize E data column)))"

text \<open>The series of the numeric branch, once \<open>min\<close> and \<open>max\<close> have been computed.\<close>

definition numeric_series :: "'e js_builtins_scheme \<Rightarrow> row list \<Rightarrow> string \<Rightarrow> chartpoint list" where
  "numeric_series E data column =
     map (\<lambda>(count, index). \<lparr>cp_name = bin_name E data column index, cp_value = Count count\<rparr>)
       (zip (fill_bins E data column) [0 ..< binCount data column])"

subsection \<open>The ranking of the labels of any other column\<close>

text \<open>
  A plain object used as a table of counts (\<open>acc\<close> in the \<open>reduce\<close>, \<open>valueCounts\<close> in the
  profile), as the list of its own properties in the order they were created. The table
  starts as \<open>{}\<close> and inherits the members of \<open>Object.prototype\<close>.

  \<open>plus_one\<close> is the value of \<open>(acc[key] || 0) + 1\<close>. For a key that names a member of
  \<open>Object.prototype\<close> and no own property, \<open>acc[key]\<close> is a function or an object; it counts
  as true, and adding \<open>1\<close> to it appends \<open>1\<close> to its text. Adding \<open>1\<close> to a text that is already
  stored appends \<open>1\<close> again.
\<close>

type_synonym counts = "(string \<times> tally) list"

definition plus_one :: "'e js_builtins_scheme \<Rightarrow> counts \<Rightarrow> string \<Rightarrow> tally" where
  "plus_one E acc key =
     (case map_of acc key of
        Some (Count n) \<Rightarrow> Count (n + 1)
      | Some (Text s) \<Rightarrow> (if s = [] then Count 1 else Text (s @ ''1''))
      | None \<Rightarrow>
          (case Object_prototype key of
             None \<Rightarrow> Count 1
           | Some v \<Rightarrow> Text (String E v @ ''1'')))"

text \<open>
  \<open>acc[key] = v\<close>: the own property is set, or created after the others. The key
  \<open>__proto__\<close> is the exception: the assignment calls the setter of \<open>Object.prototype\<close>,
  which ignores a value that is no object, so no property is created.
\<close>

fun obj_set :: "counts \<Rightarrow> string \<Rightarrow> tally \<Rightarrow> counts" where
  "obj_set [] key v = (if key = ''__proto__'' then [] else [(key, v)])"
| "obj_set ((k, w) # acc) key v =
     (if k = key then (k, v) # acc else (k, w) # obj_set acc key v)"

text \<open>\<open>acc[key] = (acc[key] || 0) + 1\<close>.\<close>

definition obj_increment :: "'e js_builtins_scheme \<Rightarrow> counts \<Rightarrow> string \<Rightarrow> counts" where
  "obj_increment E acc key = obj_set acc key (plus_one E acc key)"

text \<open>
  \<open>Object.entries\<close> lists the own properties of an object with the array indices first
  (the decimal strings of the integers below \<open>2^32 - 1\<close>, without leading zeros), in
  ascending numeric order, and then the other keys in the order of their creation.
\<close>

definition digit_value :: "char \<Rightarrow> nat" where
  "digit_value c = of_char c - 48"

definition is_digit :: "char \<Rightarrow> bool" where
  "is_digit c = (48 \<le> (of_char c :: nat) \<and> (of_char c :: nat) \<le> 57)"

definition decimal_value :: "string \<Rightarrow> nat" where
  "decimal_value s = foldl (\<lambda>n c. 10 * n + digit_value c) 0 s"

definition array_index :: "string \<Rightarrow> nat option" where
  "array_index s =
     (if s \<noteq> [] \<and> list_all is_digit s \<and> (s = ''0'' \<or> hd s \<noteq> CHR ''0'')
         \<and> decimal_value s < 2 ^ 32 - 1
      then Some (decimal_value s) else None)"

definition index_of_key :: "string \<Rightarrow> nat" where
  "index_of_key s = (case array_index s of None \<Rightarrow> 0 | Some i \<Rightarrow> i)"

definition Object_entries :: "(string \<times> 'v) list \<Rightarrow> (string \<times> 'v) list" where
  "Object_entries obj =
     sort_key (\<lambda>(k, n). index_of_key k) (filter (\<lambda>(k, n). array_index k \<noteq> None) obj)
     @ filter (\<lambda>(k, n). array_index k = None) obj"

text \<open>The label of a row in the categorical branch: \<open>String(curr[column] ?? 'undefined')\<close>.\<close>

definition label :: "'e js_builtins_scheme \<Rightarrow> string \<Rightarrow> row \<Rightarrow> string" where
  "label E column item = String E (nullish (get_prop item column) (JStr ''undefined''))"

definition groupedData :: "'e js_builtins_scheme \<Rightarrow> row list \<Rightarrow> string \<Rightarrow> counts" where
  "groupedData E data column = foldl (\<lambda>acc item. obj_increment E acc (label E column item)) [] data"

text \<open>
  \<open>.sort((a, b) => b.value - a.value)\<close>. The sort of an array is stable. When every value
  is a count, the comparison orders the points by descending value. A text converts to
  \<open>NaN\<close>, so a point with a text compares as equal to every other point: if all the
  counts among the values are equal, every two points compare as equal and the array
  stays as it is; otherwise the comparison is not consistent and the order is the
  engine's.
\<close>

fun is_count :: "tally \<Rightarrow> bool" where
  "is_count (Count n) = True"
| "is_count (Text s) = False"

fun count_of :: "tally \<Rightarrow> nat" where
  "count_of (Count n) = n"
| "count_of (Text s) = 0"

definition sort_by_value :: "'e js_builtins_scheme \<Rightarrow> chartpoint list \<Rightarrow> chartpoint list" where
  "sort_by_value E points =
     (if list_all (\<lambda>p. is_count (cp_value p)) points
      then sort_key (\<lambda>p. - int (count_of (cp_value p))) points
      else if length (remdups (filter is_count (map cp_value points))) \<le> 1 then points
      else sort_inconsistent E points)"

definition categorical_series :: "'e js_builtins_scheme \<Rightarrow> row list \<Rightarrow> string \<Rightarrow> chartpoint list" where
  "categorical_series E data column =
     take 10 (sort_by_value E
       (map (\<lambda>(name, value). \<lparr>cp_name = name, cp_value = value\<rparr>)
          (Object_entries (groupedData E data column))))"

subsection \<open>The function\<close>

text \<open>
  The source has no \<open>throw\<close>, but the two calls \<open>Math.min(...values)\<close> and
  \<open>Math.max(...values)\<close> of the numeric branch pass every kept value as an argument, and
  the engine throws a \<open>RangeError\<close> when these are more than it can pass. Both calls pass
  the same arguments, so the first of them decides.
\<close>

definition processDataForChart ::
  "'e js_builtins_scheme \<Rightarrow> row list \<Rightarrow> string \<Rightarrow> thrown + chartpoint list" where
  "processDataForChart E data column =
     (if length data = 0 \<or> column = [] then Inr []
      else if typeof (get_prop (data ! 0) column) = ''number''
      then (if length (chart_values E data column) \<le> argument_limit E
            then Inr (numeric_series E data column)
            else Inl (Error (RangeError_message E)))
      else Inr (categorical_series E data column))"

subsection \<open>The chart data built in \<^verbatim>\<open>openai.ts\<close>\<close>

text \<open>
  The chart data that \<open>analyzeDataWithAI\<close> of \<^verbatim>\<open>openai.ts\<close> builds itself when the parsed reply
  wants a chart and has none: a \<open>Map\<close> from \<open>String(row[selectedColumn] || 'Unknown')\<close> to the
  number of rows, listed in the order of insertion. A \<open>Map\<close> has no inherited keys:
  \<open>m.set(key, (m.get(key) || 0) + 1)\<close> adds one to the entry or creates it with \<open>1\<close>.
\<close>

fun map_increment :: "(string \<times> nat) list \<Rightarrow> string \<Rightarrow> (string \<times> nat) list" where
  "map_increment [] key = [(key, 1)]"
| "map_increment ((k, n) # m) key =
     (if k = key then (k, n + 1) # m else (k, n) # map_increment m key)"

definition aggregatedData :: "'e js_builtins_scheme \<Rightarrow> row list \<Rightarrow> string \<Rightarrow> (string \<times> nat) list" where
  "aggregatedData E data selectedColumn =
     foldl (\<lambda>m row. map_increment m (String E (or_else (get_prop row selectedColumn) (JStr ''Unknown''))))
       [] data"

definition backfill_chartData :: "'e js_builtins_scheme \<Rightarrow> row list \<Rightarrow> string \<Rightarrow> chartpoint list" where
  "backfill_chartData E data selectedColumn =
     map (\<lambda>(name, value). \<lparr>cp_name = name, cp_value = Count value\<rparr>) (aggregatedData E data selectedColumn)"

section \<open>Strings\<close>

text \<open>
  A string is the list of its code units. The model covers the strings whose code units
  are below 256 (Latin-1): there \<open>trim\<close> removes the seven white space characters and
  \<open>toLowerCase\<close> maps \<open>A\<close> to \<open>Z\<close> and the accented capitals to their small letters.
\<close>

definition is_whitespace :: "char \<Rightarrow> bool" where
  "is_whitespace c = (of_char c \<in> {9, 10, 11, 12, 13, 32, 160 :: nat})"

definition trim :: "string \<Rightarrow> string" where
  "trim s = rev (dropWhile is_whitespace (rev (dropWhile is_whitespace s)))"

definition lower_char :: "char \<Rightarrow> char" where
  "lower_char c =
     (if (65 \<le> (of_char c :: nat) \<and> (of_char c :: nat) \<le> 90)
         \<or> (192 \<le> (of_char c :: nat) \<and> (of_char c :: nat) \<le> 222 \<and> (of_char c :: nat) \<noteq> 215)
      then char_of ((of_char c :: nat) + 32) else c)"

definition toLowerCase :: "string \<Rightarrow> string" where
  "toLowerCase s = map lower_char s"

text \<open>\<open>s.split(c)\<close> for a separator of one character.\<close>

fun str_split :: "string \<Rightarrow> char \<Rightarrow> string list" where
  "str_split [] c = [[]]"
| "str_split (x # xs) c =
     (if x = c then [] # str_split xs c
      else (case str_split xs c of [] \<Rightarrow> [[x]] | l # ls \<Rightarrow> (x # l) # ls))"

fun starts_with :: "string \<Rightarrow> string \<Rightarrow> bool" where
  "starts_with s [] = True"
| "starts_with [] (p # ps) = False"
| "starts_with (x # xs) (p # ps) = (x = p \<and> starts_with xs ps)"

text \<open>\<open>s.includes(p)\<close>.\<close>

fun str_includes :: "string \<Rightarrow> string \<Rightarrow> bool" where
  "str_includes [] p = (p = [])"
| "str_includes (x # xs) p = (starts_with (x # xs) p \<or> str_includes xs p)"

text \<open>The first occurrence of \<open>p\<close> in \<open>s\<close>: what stands before it and what follows it.\<close>

fun find_first :: "string \<Rightarrow> string \<Rightarrow> (string \<times> string) option" where
  "find_first [] p = (if p = [] then Some ([], []) else None)"
| "find_first (x # xs) p =
     (if starts_with (x # xs) p then Some ([], drop (length p) (x # xs))
      else (case find_first xs p of None \<Rightarrow> None | Some (before, after) \<Rightarrow> Some (x # before, after)))"

text \<open>
  \<open>s.match(/\{[\s\S]*\}/)\<close>: from the first opening brace to the last closing brace after
  it. The braces between them need not balance.
\<close>

definition match_braces :: "string \<Rightarrow> string option" where
  "match_braces s =
     (let t = dropWhile (\<lambda>c. c \<noteq> CHR ''{'') s;
          u = rev (dropWhile (\<lambda>c. c \<noteq> CHR ''}'') (rev t))
      in if u = [] then None else Some u)"

section \<open>Parsed replies\<close>

text \<open>A parsed JSON value; an object is the list of its members, each key once.\<close>

datatype json =
    JsNull | JsBool bool | JsNumber jsnum | JsString string
  | JsArray "json list" | JsObject "(string \<times> json) list"

text \<open>
  \<open>JSON.parse\<close> is a further parameter of the model: \<open>None\<close> stands for the \<open>SyntaxError\<close> it
  throws, whose message is \<open>SyntaxError_message\<close> of the text. \<open>axios_is_axios_error\<close> is what \<open>axios.isAxiosError\<close> answers for the module
  \<open>axios\<close> itself, which \<^verbatim>\<open>openai.ts\<close> tests in place of the error it caught.
\<close>

record js_env = js_builtins +
  JSON_parse :: "string \<Rightarrow> json option"
  axios_is_axios_error :: bool

text \<open>
  \<open>v.key\<close> for a value that is not \<open>null\<close>, with \<open>None\<close> for \<open>undefined\<close>. The code reads the
  members \<open>response\<close>, \<open>answer\<close>, \<open>sqlQuery\<close>, \<open>visualization\<close>, \<open>needsChart\<close>, \<open>chartData\<close> and
  \<open>chartDataColumn\<close>, which only an object can have.
\<close>

fun get_member :: "json \<Rightarrow> string \<Rightarrow> json option" where
  "get_member (JsObject kvs) key = map_of kvs key"
| "get_member v key = None"

text \<open>Whether \<open>v\<close> counts as true in a condition, for a member that may be \<open>undefined\<close>.\<close>

fun truthy_json :: "json option \<Rightarrow> bool" where
  "truthy_json None = False"
| "truthy_json (Some JsNull) = False"
| "truthy_json (Some (JsBool b)) = b"
| "truthy_json (Some (JsNumber n)) = (n \<noteq> NaN \<and> n \<noteq> Fin 0)"
| "truthy_json (Some (JsString s)) = (s \<noteq> [])"
| "truthy_json (Some v) = True"

text \<open>\<open>xs.join(sep)\<close> of strings.\<close>

fun str_join :: "string list \<Rightarrow> string \<Rightarrow> string" where
  "str_join [] sep = []"
| "str_join [x] sep = x"
| "str_join (x # y # ys) sep = x @ sep @ str_join (y # ys) sep"

text \<open>
  \<open>String(v)\<close> for a parsed value: an array prints its elements joined by commas, with
  nothing for \<open>null\<close>, and an object prints as \<open>[object Object]\<close>.
\<close>

fun json_to_string :: "'e js_builtins_scheme \<Rightarrow> json \<Rightarrow> string" where
  "json_to_string E JsNull = ''null''"
| "json_to_string E (JsBool b) = (if b then ''true'' else ''false'')"
| "json_to_string E (JsNumber n) = num_to_string E n"
| "json_to_string E (JsString s) = s"
| "json_to_string E (JsArray vs) =
     str_join (map (\<lambda>v. if v = JsNull then [] else json_to_string E v) vs) '',''"
| "json_to_string E (JsObject kvs) = ''[object Object]''"

section \<open>The query handler of the page: \<open>handleQuerySubmit\<close>\<close>

datatype role = User | Assistant

record message =
  role :: role
  content :: json

text \<open>
  The result of an analysis, \<open>AnalysisResult\<close> and \<open>QueryResult\<close> in the source. TypeScript
  declares \<open>answer\<close> and \<open>sqlQuery\<close> as strings and \<open>chartType\<close> as a string or \<open>null\<close>, and so
  they are in an \<open>AnalysisResult\<close>; the handler of the page fills them from the parsed
  reply without a check, so in its \<open>QueryResult\<close> they hold any parsed value. The optional
  fields \<open>executionTime\<close> and \<open>confidence\<close> of a \<open>QueryResult\<close>, which the code neither reads
  nor sets, are left out.
\<close>

record ('s, 'c) result =
  answer :: 's
  sqlQuery :: 's
  needsChart :: bool
  chartType :: 'c
  chartDataColumn :: "string option"
  chartData :: "chartpoint list option"

type_synonym AnalysisResult = "(string, string option) result"

type_synonym QueryResult = "(json, json) result"

record column =
  col_name :: string
  col_type :: string

record DataSchema =
  tableName :: string
  columns :: "column list"

text \<open>
  The state of the page that the handler reads and sets; \<open>query_st\<close>, \<open>schema_st\<close> and
  \<open>data_st\<close> are the state variables \<open>query\<close>, \<open>schema\<close> and \<open>data\<close> of the component.
\<close>

record page =
  query_st :: string
  schema_st :: "DataSchema option"
  data_st :: "row list"
  queryResult :: "QueryResult option"
  isAnalyzing :: bool
  conversation :: "message list"

text \<open>
  What the world answers to the two requests of one submission: the text of the reply of
  the text generation service to \<open>fetch\<close>, and the result of \<open>analyzeData\<close> of
  \<^verbatim>\<open>./utils/api\<close>, a module that is not among the sources. Either may throw. The handler
  returns, next to the new state, the requests it made.
\<close>

record world =
  fetch_text :: "thrown + string"
  analyzeData :: "thrown + QueryResult"

datatype request = Fetch "row list" string | AnalyzeData string | Post "row list" string

definition greetings :: "string list" where
  "greetings = [''hi'', ''hello'', ''hey'', ''greetings'']"

definition greeting_text :: string where
  "greeting_text = ''Hello! I'' @ [CHR 0x27] @ ''m your data analysis assistant. You can ask me questions about your data, and I'' @ [CHR 0x27] @ ''ll help you analyze it. For example, try asking about specific columns, averages, trends, or distributions in your data.''"

definition no_json_reply :: json where
  "no_json_reply = JsObject
     [(''answer'', JsString (''I apologize, but I couldn'' @ [CHR 0x27] @ ''t analyze the text properly. Could you please rephrase your question?'')),
      (''sqlQuery'', JsString []),
      (''visualization'', JsNull)]"

definition parse_error_reply :: json where
  "parse_error_reply = JsObject
     [(''answer'', JsString ''I apologize, but I encountered an error processing the response. Could you please try again?''),
      (''sqlQuery'', JsString []),
      (''visualization'', JsNull)]"

text \<open>
  The lines of the reply that are not blank, each parsed, and of these the values with a
  true \<open>response\<close>. A line that does not parse throws, and so does reading \<open>response\<close> from
  \<open>null\<close>.
\<close>

fun parse_lines :: "'e js_env_scheme \<Rightarrow> string list \<Rightarrow> thrown + json list" where
  "parse_lines E [] = Inr []"
| "parse_lines E (line # lines) =
     (case JSON_parse E line of
        None \<Rightarrow> Inl (Error (SyntaxError_message E line))
      | Some v \<Rightarrow> (case parse_lines E lines of Inl e \<Rightarrow> Inl e | Inr vs \<Rightarrow> Inr (v # vs)))"

definition jsonResponses :: "'e js_env_scheme \<Rightarrow> string \<Rightarrow> thrown + json list" where
  "jsonResponses E responseText =
     (case parse_lines E (filter (\<lambda>line. trim line \<noteq> []) (str_split responseText CHR 0x0A)) of
        Inl e \<Rightarrow> Inl e
      | Inr vs \<Rightarrow>
          if JsNull \<in> set vs then Inl (Error (TypeError_message E ''json.response''))
          else Inr (filter (\<lambda>json. truthy_json (get_member json ''response'')) vs))"

definition combinedResponse :: "'e js_env_scheme \<Rightarrow> string \<Rightarrow> thrown + string" where
  "combinedResponse E responseText =
     (case jsonResponses E responseText of
        Inl e \<Rightarrow> Inl e
      | Inr vs \<Rightarrow> Inr (str_join (map (\<lambda>v. case get_member v ''response'' of None \<Rightarrow> [] | Some JsNull \<Rightarrow> []
                                       | Some r \<Rightarrow> json_to_string E r) vs) []))"

text \<open>The body of the \<open>try\<close> around the parsing, and the whole step with its \<open>catch\<close>.\<close>

definition extract_llmData :: "'e js_env_scheme \<Rightarrow> string \<Rightarrow> thrown + json" where
  "extract_llmData E responseText =
     (case combinedResponse E responseText of
        Inl e \<Rightarrow> Inl e
      | Inr combined \<Rightarrow>
          (case match_braces combined of
             None \<Rightarrow> Inr no_json_reply
           | Some jsonMatch \<Rightarrow>
               (case JSON_parse E jsonMatch of
                  None \<Rightarrow> Inl (Error (SyntaxError_message E jsonMatch))
                | Some v \<Rightarrow> Inr v)))"

definition llmData :: "'e js_env_scheme \<Rightarrow> string \<Rightarrow> json" where
  "llmData E responseText =
     (case extract_llmData E responseText of Inl parseError \<Rightarrow> parse_error_reply | Inr v \<Rightarrow> v)"

text \<open>\<open>analyzeQuery\<close>: it refuses to run without data and passes on what \<open>analyzeData\<close> does.\<close>

definition analyzeQuery :: "world \<Rightarrow> page \<Rightarrow> (thrown + QueryResult) \<times> request list" where
  "analyzeQuery W st =
     (if schema_st st = None \<or> length (data_st st) = 0 then (Inl (Error ''Please upload data first''), [])
      else (analyzeData W, [AnalyzeData (query_st st)]))"

text \<open>\<open>a || b\<close> where \<open>a\<close> is a member of the parsed reply.\<close>

definition or_json :: "json option \<Rightarrow> json \<Rightarrow> json" where
  "or_json a b = (case a of None \<Rightarrow> b | Some v \<Rightarrow> if truthy_json (Some v) then v else b)"

definition error_result :: "thrown \<Rightarrow> QueryResult" where
  "error_result e =
     \<lparr>answer = JsString (case e of
          Error msg \<Rightarrow> ''I apologize, but I encountered an error while processing your query: '' @ msg
        | NotAnError \<Rightarrow> ''I apologize, but something went wrong. Could you please rephrase your question?''),
      sqlQuery = JsString [], needsChart = False, chartType = JsNull,
      chartDataColumn = Some [], chartData = None\<rparr>"

text \<open>The \<open>catch\<close> of the handler, and its \<open>finally\<close>.\<close>

definition on_error :: "page \<Rightarrow> thrown \<Rightarrow> page" where
  "on_error st e =
     st\<lparr>conversation := conversation st @ [\<lparr>role = Assistant, content = answer (error_result e)\<rparr>],
        queryResult := Some (error_result e)\<rparr>"

definition finally_block :: "page \<Rightarrow> page" where
  "finally_block st = st\<lparr>isAnalyzing := False\<rparr>"

definition greeting_result :: QueryResult where
  "greeting_result =
     \<lparr>answer = JsString greeting_text, sqlQuery = JsString [], needsChart = False, chartType = JsNull,
      chartDataColumn = Some [], chartData = None\<rparr>"

text \<open>
  The end of the \<open>try\<close>, with the parsed reply \<open>d\<close> and the result of the second analysis: the
  answer of the assistant and the result put together from both. Reading \<open>d.answer\<close> throws
  when \<open>d\<close> is \<open>null\<close> (which \<open>JSON.parse\<close> does not return for a text in braces).
\<close>

definition merge_results :: "'e js_builtins_scheme \<Rightarrow> page \<Rightarrow> json \<Rightarrow> QueryResult \<Rightarrow> thrown + page" where
  "merge_results E st d result =
     (if d = JsNull then Inl (Error (TypeError_message E ''llmData.answer''))
      else Inr (st\<lparr>conversation := conversation st @
                      [\<lparr>role = Assistant, content = or_json (get_member d ''answer'') (answer result)\<rparr>],
                    queryResult := Some (result\<lparr>answer := or_json (get_member d ''answer'') (answer result),
                                               sqlQuery := or_json (get_member d ''sqlQuery'') (sqlQuery result),
                                               chartType := or_json (get_member d ''visualization'') (chartType result)\<rparr>),
                    query_st := []\<rparr>))"

definition handleQuerySubmit :: "'e js_env_scheme \<Rightarrow> world \<Rightarrow> page \<Rightarrow> page \<times> request list" where
  "handleQuerySubmit E W st0 =
     (if length (data_st st0) = 0 \<or> query_st st0 = [] \<or> isAnalyzing st0 then (st0, [])
      else
        let st = st0\<lparr>conversation := conversation st0 @ [\<lparr>role = User, content = JsString (query_st st0)\<rparr>],
                     isAnalyzing := True\<rparr>
        in if trim (toLowerCase (query_st st)) \<in> set greetings
           then (finally_block (st\<lparr>conversation := conversation st @ [\<lparr>role = Assistant, content = JsString greeting_text\<rparr>],
                             queryResult := Some greeting_result,
                             query_st := []\<rparr>), [])
           else
             (case fetch_text W of
                Inl e \<Rightarrow> (finally_block (on_error st e), [Fetch (take 5 (data_st st)) (query_st st)])
              | Inr responseText \<Rightarrow>
                  (case analyzeQuery W st of
                     (Inl e, reqs) \<Rightarrow> (finally_block (on_error st e), Fetch (take 5 (data_st st)) (query_st st) # reqs)
                   | (Inr result, reqs) \<Rightarrow>
                       (case merge_results E st (llmData E responseText) result of
                          Inl e \<Rightarrow> (finally_block (on_error st e), Fetch (take 5 (data_st st)) (query_st st) # reqs)
                        | Inr st' \<Rightarrow> (finally_block st', Fetch (take 5 (data_st st)) (query_st st) # reqs)))))"

section \<open>The column profile and \<open>analyzeDataWithAI\<close>\<close>

text \<open>
  Both copies of \<open>analyzeDataWithAI\<close> first profile every column of the schema. The copy in
  \<^verbatim>\<open>openai.ts\<close> collects the values themselves in the set; the copy in \<^verbatim>\<open>App.tsx\<close> collects
  their strings and also counts each string in \<open>valueCounts\<close>.
\<close>

record column_info =
  info_name :: string
  info_type :: string
  uniqueCount :: nat
  totalCount :: nat

record column_stats = column_info +
  valueCounts :: counts

definition openai_profile :: "row list \<Rightarrow> column \<Rightarrow> column_info" where
  "openai_profile data col =
     \<lparr>info_name = col_name col, info_type = col_type col,
      uniqueCount = length (uniqueValues data (col_name col)),
      totalCount = length data\<rparr>"

definition openai_schemaInfo :: "DataSchema \<Rightarrow> row list \<Rightarrow> column_info list" where
  "openai_schemaInfo schema data = map (openai_profile data) (columns schema)"

text \<open>The values of a column that the profile counts: all but \<open>undefined\<close> and \<open>null\<close>.\<close>

definition counted_values :: "row list \<Rightarrow> string \<Rightarrow> jsval list" where
  "counted_values data column =
     filter (\<lambda>v. v \<noteq> JUndefined \<and> v \<noteq> JNull) (map (\<lambda>item. get_prop item column) data)"

definition app_profile :: "'e js_builtins_scheme \<Rightarrow> row list \<Rightarrow> column \<Rightarrow> column_stats" where
  "app_profile E data col =
     \<lparr>info_name = col_name col, info_type = col_type col,
      uniqueCount = length (remdups (map (String E) (counted_values data (col_name col)))),
      totalCount = length data,
      valueCounts = foldl (\<lambda>acc v. obj_increment E acc (String E v)) [] (counted_values data (col_name col))\<rparr>"

definition app_schemaInfo :: "'e js_builtins_scheme \<Rightarrow> DataSchema \<Rightarrow> row list \<Rightarrow> column_stats list" where
  "app_schemaInfo E schema data = map (app_profile E data) (columns schema)"

text \<open>
  The reply of the service to \<open>axios.post\<close>: the \<open>data\<close> of the response, if it has any, with
  its optional members \<open>response\<close> and \<open>error\<close> (here \<open>ollama_response\<close> and
  \<open>ollama_error\<close>); or what the request threw.
\<close>

record OllamaResponse =
  ollama_response :: "string option"
  ollama_error :: "string option"

type_synonym post_outcome = "thrown + OllamaResponse option"

subsection \<open>The copy in \<^verbatim>\<open>App.tsx\<close>\<close>

text \<open>
  \<open>s.match(/```sql\n([\s\S]*?)\n```/)\<close>: the first opening fence that a closing fence
  follows, with what stands before it, the shortest text between the two, and what
  follows the closing fence.
\<close>

definition sql_fence_open :: string where
  "sql_fence_open = [CHR 0x60, CHR 0x60, CHR 0x60] @ ''sql'' @ [CHR 0x0A]"

definition sql_fence_close :: string where
  "sql_fence_close = [CHR 0x0A, CHR 0x60, CHR 0x60, CHR 0x60]"

definition sql_match :: "string \<Rightarrow> (string \<times> string \<times> string) option" where
  "sql_match s =
     (case find_first s sql_fence_open of
        None \<Rightarrow> None
      | Some (before, rest) \<Rightarrow>
          (case find_first rest sql_fence_close of
             None \<Rightarrow> None
           | Some (inner, after) \<Rightarrow> Some (before, inner, after)))"

lemma find_first_length:
  "find_first s p = Some (before, after) \<Longrightarrow> length before + length p + length after = length s"
proof (induction s arbitrary: before)
  case Nil
  then show ?case by (simp split: if_splits)
next
  case (Cons x xs)
  have pre: "starts_with s p \<Longrightarrow> length p \<le> length s" for s
    by (induction s p rule: starts_with.induct) simp_all
  show ?case
  proof (cases "starts_with (x # xs) p")
    case True
    with Cons.prems pre[OF True] show ?thesis by auto
  next
    case False
    with Cons.prems obtain b where "find_first xs p = Some (b, after)" "before = x # b"
      by (auto split: option.splits)
    with Cons.IH[of b] show ?thesis by simp
  qed
qed

lemma sql_match_shorter: "sql_match s = Some (before, inner, after) \<Longrightarrow> length after < length s"
  by (auto simp: sql_match_def sql_fence_open_def sql_fence_close_def
      split: option.splits dest!: find_first_length)

text \<open>\<open>s.replace(/```sql\n[\s\S]*?\n```/g, '')\<close>.\<close>

function remove_sql_blocks :: "string \<Rightarrow> string" where
  "remove_sql_blocks s =
     (case sql_match s of None \<Rightarrow> s | Some (before, inner, after) \<Rightarrow> before @ remove_sql_blocks after)"
  by pat_completeness auto
termination
  by (relation "measure length") (auto dest: sql_match_shorter)

declare remove_sql_blocks.simps [simp del]

definition determineChartType :: "string \<Rightarrow> string option" where
  "determineChartType response =
     (let responseLower = toLowerCase response in
      if str_includes responseLower ''pie chart'' then Some ''pie''
      else if str_includes responseLower ''bar chart'' \<or> str_includes responseLower ''histogram'' then Some ''bar''
      else if str_includes responseLower ''line chart'' \<or> str_includes responseLower ''trend'' then Some ''line''
      else None)"

text \<open>
  \<open>determineChartColumn\<close>: the first column whose name the reply mentions, else the first
  numeric column, else the first column; with no column at all, reading the name of the
  first one throws a \<open>TypeError\<close>.
\<close>

definition determineChartColumn :: "'e js_builtins_scheme \<Rightarrow> string \<Rightarrow> column list \<Rightarrow> thrown + string" where
  "determineChartColumn E response cols =
     (let responseLower = toLowerCase response in
      case find (\<lambda>col. str_includes responseLower (toLowerCase (col_name col))) cols of
        Some col \<Rightarrow> Inr (col_name col)
      | None \<Rightarrow>
          (case find (\<lambda>col. col_type col = ''number'') cols of
             Some numericColumn \<Rightarrow> Inr (col_name numericColumn)
           | None \<Rightarrow> (case cols of
                        [] \<Rightarrow> Inl (Error (TypeError_message E ''columns[0].name''))
                      | col # rest \<Rightarrow> Inr (col_name col))))"

definition app_greeting_result :: AnalysisResult where
  "app_greeting_result =
     \<lparr>answer = greeting_text, sqlQuery = [], needsChart = False, chartType = None,
      chartDataColumn = Some [], chartData = Some []\<rparr>"

definition app_error_result :: "thrown \<Rightarrow> AnalysisResult" where
  "app_error_result e =
     \<lparr>answer = ''I apologize, but I encountered an issue while processing your request. ''
        @ (case e of Error msg \<Rightarrow> msg | NotAnError \<Rightarrow> ''An unexpected error occurred while analyzing data'')
        @ ''. Please try asking a more specific question about your data.'',
      sqlQuery = [], needsChart = False, chartType = None,
      chartDataColumn = Some [], chartData = Some []\<rparr>"

text \<open>
  The body of the \<open>try\<close> once the service has answered with the text \<open>llmResponse\<close>: the
  result is put together, and the chart data is assigned to it when a chart is needed.
\<close>

definition app_result :: "'e js_builtins_scheme \<Rightarrow> string \<Rightarrow> DataSchema \<Rightarrow> row list \<Rightarrow> thrown + AnalysisResult" where
  "app_result E llmResponse schema data =
     (case determineChartColumn E llmResponse (columns schema) of
        Inl e \<Rightarrow> Inl e
      | Inr col \<Rightarrow>
          let needs = (str_includes (toLowerCase llmResponse) ''visualiz''
                       \<or> str_includes (toLowerCase llmResponse) ''chart'');
              result = \<lparr>answer = trim (remove_sql_blocks llmResponse),
                        sqlQuery = (case sql_match llmResponse of None \<Rightarrow> [] | Some (before, inner, after) \<Rightarrow> trim inner),
                        needsChart = needs,
                        chartType = determineChartType llmResponse,
                        chartDataColumn = Some col,
                        chartData = None\<rparr>
          in if needs \<and> col \<noteq> []
             then (case processDataForChart E data col of
                     Inl e \<Rightarrow> Inl e
                   | Inr series \<Rightarrow> Inr (result\<lparr>chartData := Some series\<rparr>))
             else Inr result)"

text \<open>
  \<open>analyzeDataWithAI\<close> of \<^verbatim>\<open>App.tsx\<close>. The greeting is answered first. The profile is computed
  before the \<open>try\<close>, so a missing schema throws to the caller; whatever is thrown inside the
  \<open>try\<close> becomes an apology.
\<close>

definition app_try :: "'e js_builtins_scheme \<Rightarrow> post_outcome \<Rightarrow> DataSchema \<Rightarrow> row list \<Rightarrow> thrown + AnalysisResult" where
  "app_try E post schema data =
     (case post of
        Inl e \<Rightarrow> Inl e
      | Inr None \<Rightarrow> Inl (Error ''Invalid response from Ollama'')
      | Inr (Some d) \<Rightarrow>
          (case ollama_response d of
             None \<Rightarrow> Inl (Error ''Invalid response from Ollama'')
           | Some llmResponse \<Rightarrow>
               if llmResponse = [] then Inl (Error ''Invalid response from Ollama'')
               else app_result E llmResponse schema data))"

definition app_analyzeDataWithAI ::
  "'e js_builtins_scheme \<Rightarrow> post_outcome \<Rightarrow> string \<Rightarrow> DataSchema option \<Rightarrow> row list
     \<Rightarrow> (thrown + AnalysisResult) \<times> request list" where
  "app_analyzeDataWithAI E post query schema data =
     (if trim (toLowerCase query) \<in> set greetings then (Inr app_greeting_result, [])
      else (case schema of
        None \<Rightarrow> (Inl (Error (TypeError_message E ''schema.columns'')), [])
      | Some sch \<Rightarrow>
          (case app_try E post sch data of
             Inl e \<Rightarrow> (Inr (app_error_result e), [Post (take 5 data) query])
           | Inr r \<Rightarrow> (Inr r, [Post (take 5 data) query]))))"

subsection \<open>The copy in \<^verbatim>\<open>openai.ts\<close>\<close>

text \<open>
  What this copy returns: the parsed reply itself, and the \<open>chartData\<close> the function has
  assigned to it, if it has.
\<close>

record ai_reply =
  parsed :: json
  assigned_chartData :: "chartpoint list option"

text \<open>
  The inner \<open>try\<close>: the request, the parse of the whole reply and the chart data built when
  the reply wants a chart and has none. It returns or throws, so the statements after
  it, among them the search for a block in braces, are never reached.
\<close>

definition openai_try :: "'e js_env_scheme \<Rightarrow> post_outcome \<Rightarrow> DataSchema \<Rightarrow> row list \<Rightarrow> thrown + ai_reply" where
  "openai_try E post schema data =
     (case post of
        Inl e \<Rightarrow> Inl e
      | Inr None \<Rightarrow> Inl (Error (TypeError_message E ''response.data.error''))
      | Inr (Some d) \<Rightarrow>
          (case ollama_error d of
             Some (c # msg) \<Rightarrow> Inl (Error (c # msg))
           | _ \<Rightarrow>
               (case JSON_parse E (case ollama_response d of Some (c # r) \<Rightarrow> c # r | _ \<Rightarrow> ''{}'') of
                  None \<Rightarrow> Inl (Error (SyntaxError_message E
                            (case ollama_response d of Some (c # r) \<Rightarrow> c # r | _ \<Rightarrow> ''{}'')))
                | Some JsNull \<Rightarrow> Inl (Error (TypeError_message E ''result.needsChart''))
                | Some result \<Rightarrow>
                    if truthy_json (get_member result ''needsChart'') \<and> \<not> truthy_json (get_member result ''chartData'')
                    then (if truthy_json (get_member result ''chartDataColumn'')
                          then Inr \<lparr>parsed = result, assigned_chartData = Some (backfill_chartData E data
                                     (case get_member result ''chartDataColumn'' of None \<Rightarrow> [] | Some c \<Rightarrow> json_to_string E c))\<rparr>
                          else (case columns schema of
                                  [] \<Rightarrow> Inl (Error (TypeError_message E ''schema.columns[0].name''))
                                | col # rest \<Rightarrow> Inr \<lparr>parsed = result,
                                     assigned_chartData = Some (backfill_chartData E data (col_name col))\<rparr>))
                    else Inr \<lparr>parsed = result, assigned_chartData = None\<rparr>)))"

text \<open>
  The inner \<open>catch\<close> throws again whatever was caught: an \<open>Error\<close> if \<open>axios.isAxiosError\<close>
  takes the module for one (the module has a \<open>request\<close>), the module itself otherwise, which
  the outer \<open>catch\<close> replaces by an \<open>Error\<close>.
\<close>

definition openai_rethrow :: "'e js_env_scheme \<Rightarrow> thrown" where
  "openai_rethrow E =
     (if axios_is_axios_error E
      then Error ''No response received from Ollama. The request timed out or failed.''
      else Error ''An unexpected error occurred while analyzing data'')"

definition openai_analyzeDataWithAI ::
  "'e js_env_scheme \<Rightarrow> post_outcome \<Rightarrow> string \<Rightarrow> DataSchema option \<Rightarrow> row list
     \<Rightarrow> (thrown + ai_reply) \<times> request list" where
  "openai_analyzeDataWithAI E post query schema data =
     (case schema of
        None \<Rightarrow> (Inl (Error (TypeError_message E ''schema.columns'')), [])
      | Some sch \<Rightarrow>
          (case openai_try E post sch data of
             Inl e \<Rightarrow> (Inl (openai_rethrow E), [Post (take 5 data) query])
           | Inr r \<Rightarrow> (Inr r, [Post (take 5 data) query])))"

text \<open>
  The statements after the inner \<open>try\<close>, as they are written: the block in braces of the
  reply is parsed and must have the five fields. Whatever fails there is thrown again as
  an \<open>Error\<close> that the outer \<open>catch\<close> passes on.
\<close>

definition requiredFields :: "string list" where
  "requiredFields = [''answer'', ''sqlQuery'', ''needsChart'', ''chartType'', ''chartDataColumn'']"

definition openai_parse_result :: "'e js_env_scheme \<Rightarrow> string \<Rightarrow> thrown + json" where
  "openai_parse_result E resultText =
     (case match_braces resultText of
        None \<Rightarrow> Inl (Error ''Failed to parse Ollama response: No JSON found in Ollama response'')
      | Some jsonStr \<Rightarrow>
          (case JSON_parse E jsonStr of
             None \<Rightarrow> Inl (Error (''Failed to parse Ollama response: '' @ SyntaxError_message E jsonStr))
           | Some (JsObject kvs) \<Rightarrow>
               (case filter (\<lambda>field. field \<notin> fst ` set kvs) requiredFields of
                  [] \<Rightarrow> Inr (JsObject kvs)
                | missingFields \<Rightarrow>
                    Inl (Error (''Failed to parse Ollama response: Missing required fields in response: ''
                                @ str_join missingFields '', '')))
           | Some (JsArray vs) \<Rightarrow>
               Inl (Error (''Failed to parse Ollama response: Missing required fields in response: ''
                           @ str_join requiredFields '', ''))
           | Some v \<Rightarrow> Inl (Error (''Failed to parse Ollama response: ''
                                   @ TypeError_message E ''field in parsed''))))"

section \<open>Auxiliary notions for the statements\<close>

text \<open>The rational a number stands for, \<open>0\<close> for the three special values.\<close>

fun fin_part :: "jsnum \<Rightarrow> rat" where
  "fin_part (Fin a) = a"
| "fin_part b = 0"

text \<open>
  Concrete inputs are run on an engine with the following parameters: it passes at most
  \<open>65535\<close> arguments, prints a built-in function on one line, and leaves an array that it
  cannot sort consistently as it is. None of the inputs holds a numeric string or prints a
  number that is not a small integer.
\<close>

definition sample_builtins :: js_builtins where
  "sample_builtins =
     \<lparr>StringToNumber = (\<lambda>s. NaN), NumberToString = (\<lambda>a. ''?''),
      FunctionToString = (\<lambda>f. ''function '' @ f @ ''() { [native code] }''),
      TypeError_message = (\<lambda>e. ''Cannot read properties of undefined''),
      SyntaxError_message = (\<lambda>s. ''Unexpected token''),
      RangeError_message = ''Maximum call stack size exceeded'',
      argument_limit = 65535,
      sort_inconsistent = (\<lambda>points. points)\<rparr>"

text \<open>A dataset with the single column \<open>name\<close>, one row for each value.\<close>

definition one_column :: "string \<Rightarrow> jsval list \<Rightarrow> row list" where
  "one_column name vs = map (\<lambda>v. [name \<mapsto> v]) vs"

definition ages :: "row list" where
  "ages = one_column ''age'' [JNum (Fin 20), JNum (Fin 25), JNum (Fin 30), JNum (Fin 90)]"

text \<open>The column \<open>0.1, 0.2, 0.4\<close>, each the double that its literal stands for.\<close>

definition tenths :: "row list" where
  "tenths = one_column ''x'' [JNum (fl (1 / 10)), JNum (fl (2 / 10)), JNum (fl (4 / 10))]"

text \<open>The greatest finite double.\<close>

definition max_double :: rat where
  "max_double = (2 ^ 53 - 1) * 2 ^ 971"

text \<open>
  The distinct elements of a list in the order of their first occurrence, and the
  position of the first occurrence of an element (the length of the list when it has
  none).
\<close>

fun first_seen :: "'a list \<Rightarrow> 'a list" where
  "first_seen [] = []"
| "first_seen (x # xs) = x # filter (\<lambda>y. y \<noteq> x) (first_seen xs)"

fun first_index :: "'a list \<Rightarrow> 'a \<Rightarrow> nat" where
  "first_index [] a = 0"
| "first_index (x # xs) a = (if x = a then 0 else Suc (first_index xs a))"

text \<open>
  The order in which \<open>Object.entries\<close> lists two keys of a table of counts built from the
  labels \<open>ls\<close>: array indices first, by their number, then the other keys by first
  occurrence.
\<close>

definition key_before :: "string list \<Rightarrow> string \<Rightarrow> string \<Rightarrow> bool" where
  "key_before ls a b =
     (case (array_index a, array_index b) of
        (Some i, Some j) \<Rightarrow> i \<le> j
      | (Some i, None) \<Rightarrow> True
      | (None, Some j) \<Rightarrow> False
      | (None, None) \<Rightarrow> first_index ls a < first_index ls b)"

text \<open>The labels of the rows of a dataset, in the order of the rows.\<close>

definition labels :: "'e js_builtins_scheme \<Rightarrow> row list \<Rightarrow> string \<Rightarrow> string list" where
  "labels E data column = map (label E column) data"

text \<open>
  The order of a ranking: by descending count, and for equal counts by the order of the
  keys. \<open>ranks_before ls (a, m) (b, n)\<close> says it of two labels with their counts, and
  \<open>series_order\<close> of two points.
\<close>

definition ranks_before :: "string list \<Rightarrow> string \<times> nat \<Rightarrow> string \<times> nat \<Rightarrow> bool" where
  "ranks_before ls p q = (snd p > snd q \<or> (snd p = snd q \<and> key_before ls (fst p) (fst q)))"

definition series_order :: "string list \<Rightarrow> chartpoint \<Rightarrow> chartpoint \<Rightarrow> bool" where
  "series_order ls p q =
     ranks_before ls (cp_name p, count_of (cp_value p)) (cp_name q, count_of (cp_value q))"

text \<open>
  A \<open>Map\<close> of counts seen as a table of counts, a label with its count as a point, and the
  ranking of the labels \<open>ls\<close>: each label once with the number of its occurrences, in the
  order of the keys, then sorted by descending count.
\<close>

definition as_counts :: "(string \<times> nat) list \<Rightarrow> counts" where
  "as_counts m = map (\<lambda>(k, n). (k, Count n)) m"

definition count_point :: "string \<times> nat \<Rightarrow> chartpoint" where
  "count_point e = \<lparr>cp_name = fst e, cp_value = Count (snd e)\<rparr>"

definition ranking :: "string list \<Rightarrow> (string \<times> nat) list" where
  "ranking ls = sort_key (\<lambda>e. - int (snd e)) (Object_entries (foldl map_increment [] ls))"

text \<open>
  A parser for the concrete inputs: it reads the text \<open>{}\<close> and the text
  \<open>{"needsChart": true}\<close>, and rejects every other text; the inputs below are these two
  or are not JSON at all.
\<close>

definition wants_chart_text :: string where
  "wants_chart_text = ''{'' @ [CHR 0x22] @ ''needsChart'' @ [CHR 0x22] @ '': true}''"

definition sample_parse :: "string \<Rightarrow> json option" where
  "sample_parse s =
     (if s = ''{}'' then Some (JsObject [])
      else if s = wants_chart_text then Some (JsObject [(''needsChart'', JsBool True)])
      else None)"

definition sample_env :: js_env where
  "sample_env =
     \<lparr>StringToNumber = (\<lambda>s. NaN), NumberToString = (\<lambda>a. ''?''),
      FunctionToString = (\<lambda>f. ''function '' @ f @ ''() { [native code] }''),
      TypeError_message = (\<lambda>e. ''Cannot read properties of undefined''),
      SyntaxError_message = (\<lambda>s. ''Unexpected token''),
      RangeError_message = ''Maximum call stack size exceeded'',
      argument_limit = 65535,
      sort_inconsistent = (\<lambda>points. points),
      JSON_parse = sample_parse, axios_is_axios_error = False\<rparr>"

text \<open>Eleven rows with eleven different values in the column \<open>c\<close>.\<close>

definition eleven_rows :: "row list" where
  "eleven_rows = one_column ''c''
     [JStr ''a'', JStr ''b'', JStr ''c'', JStr ''d'', JStr ''e'', JStr ''f'', JStr ''g'', JStr ''h'',
      JStr ''i'', JStr ''j'', JStr ''k'']"

definition ages_schema :: DataSchema where
  "ages_schema = \<lparr>tableName = ''people'', columns = [\<lparr>col_name = ''age'', col_type = ''number''\<rparr>]\<rparr>"

text \<open>
  A page with the ages loaded and the question typed, and a world in which the service
  answers in prose while the second analysis succeeds with a query and a chart.
\<close>

definition asking_page :: page where
  "asking_page = \<lparr>query_st = ''how many rows?'', schema_st = Some ages_schema, data_st = ages,
                    queryResult = None, isAnalyzing = False, conversation = []\<rparr>"

definition prose_world :: world where
  "prose_world =
     \<lparr>fetch_text = Inr ''Sorry, I cannot answer that.'',
      analyzeData = Inr \<lparr>answer = JsString ''There are 4 rows.'',
                          sqlQuery = JsString ''SELECT COUNT(*) FROM people'',
                          needsChart = True, chartType = JsString ''bar'',
                          chartDataColumn = Some ''age'',
                          chartData = Some [\<lparr>cp_name = ''20.00 - 37.50'', cp_value = Count 3\<rparr>]\<rparr>\<rparr>"

section \<open>Rounding\<close>

text \<open>The number of binary digits, the powers of two and the binary logarithm.\<close>

lemma bits_bounds: "0 < n \<Longrightarrow> 2 ^ (bits n - 1) \<le> n \<and> n < 2 ^ bits n"
proof (induction n rule: bits.induct)
  case (1 n)
  show ?case
  proof (cases "n div 2 = 0")
    case True
    with 1 have "n = 1" by (auto simp: div_eq_0_iff)
    then show ?thesis by (simp add: bits.simps)
  next
    case False
    then have p: "0 < n div 2" by simp
    from 1 have n0: "n \<noteq> 0" by simp
    from "1.IH"[OF n0 p] have lo: "2 ^ (bits (n div 2) - 1) \<le> n div 2" and hi: "n div 2 < 2 ^ bits (n div 2)" by simp_all
    have b: "bits n = Suc (bits (n div 2))" using n0 by (subst bits.simps) simp
    have bp: "0 < bits (n div 2)" using p by (subst bits.simps) simp
    then obtain k where k: "bits (n div 2) = Suc k" by (cases "bits (n div 2)") auto
    have "2 ^ (bits n - 1) = 2 * 2 ^ k" by (simp add: b k)
    also have "\<dots> \<le> 2 * (n div 2)" using lo k by simp
    also have "\<dots> \<le> n" by simp
    finally have A: "2 ^ (bits n - 1) \<le> n" .
    have "n < 2 * (n div 2) + 2" by presburger
    also have "\<dots> \<le> 2 * 2 ^ bits (n div 2)" using hi by simp
    finally have B: "n < 2 ^ bits n" by (simp add: b)
    from A B show ?thesis by simp
  qed
qed

lemma bits_pos: "0 < n \<Longrightarrow> 0 < bits n"
  by (subst bits.simps) simp

lemma pow2_pos: "0 < pow2 e"
  by (simp add: pow2_def)

lemma pow2_powi: "pow2 e = 2 powi e"
  by (simp add: pow2_def power_int_def inverse_eq_divide power_one_over)

lemma pow2_add: "pow2 (a + b) = pow2 a * pow2 b"
  by (simp add: pow2_powi power_int_add)

lemma pow2_mono: "a \<le> b \<Longrightarrow> pow2 a \<le> pow2 b"
  by (simp add: pow2_powi power_int_increasing)

lemma pow2_nat: "pow2 (int n) = 2 ^ n"
  by (simp add: pow2_def)

lemma pow2_neg_nat: "pow2 (- int n) = 1 / 2 ^ n"
  by (auto simp: pow2_def)

lemma ilog2_small:
  fixes a :: rat
  assumes "0 < a" and "a < 1"
  defines "c \<equiv> (if of_int \<lfloor>1 / a\<rfloor> = 1 / a then \<lfloor>1 / a\<rfloor> - 1 else \<lfloor>1 / a\<rfloor>)"
  shows "1 \<le> c" and "of_int c < 1 / a" and "1 / a \<le> of_int c + 1"
proof -
  have big: "1 < 1 / a" using assms(1,2) by simp
  show "1 \<le> c"
  proof (cases "of_int \<lfloor>1 / a\<rfloor> = 1 / a")
    case True
    have "(1::rat) < of_int \<lfloor>1 / a\<rfloor>" using big by (simp only: True)
    then have "1 < \<lfloor>1 / a\<rfloor>" by (simp only: of_int_1_less_iff)
    with True show ?thesis by (simp add: c_def)
  next
    case False
    have "1 \<le> \<lfloor>1 / a\<rfloor>" using big by (simp add: le_floor_iff)
    with False show ?thesis by (simp add: c_def)
  qed
  show "of_int c < 1 / a"
  proof (cases "of_int \<lfloor>1 / a\<rfloor> = 1 / a")
    case True
    then have "c = \<lfloor>1 / a\<rfloor> - 1" by (simp add: c_def)
    then have "of_int c = 1 / a - 1" using True by simp
    then show ?thesis by simp
  next
    case False
    then have ceq: "c = \<lfloor>1 / a\<rfloor>" by (simp add: c_def)
    have "of_int \<lfloor>1 / a\<rfloor> \<le> 1 / a" by (rule of_int_floor_le)
    with False have "of_int \<lfloor>1 / a\<rfloor> < 1 / a" by (rule order.not_eq_order_implies_strict)
    then show ?thesis by (simp only: ceq)
  qed
  show "1 / a \<le> of_int c + 1"
  proof (cases "of_int \<lfloor>1 / a\<rfloor> = 1 / a")
    case True
    then have "c = \<lfloor>1 / a\<rfloor> - 1" by (simp add: c_def)
    then have "of_int c = 1 / a - 1" using True by simp
    then show ?thesis by simp
  next
    case False
    then have "c = \<lfloor>1 / a\<rfloor>" by (simp add: c_def)
    moreover have "1 / a < of_int \<lfloor>1 / a\<rfloor> + 1" using floor_correct[of "1 / a"] by simp
    ultimately show ?thesis by simp
  qed
qed

lemma ilog2_lower: "0 < a \<Longrightarrow> pow2 (ilog2 a) \<le> a"
proof (cases "1 \<le> a")
  case True
  assume "0 < a"
  let ?n = "nat \<lfloor>a\<rfloor>"
  have f: "1 \<le> \<lfloor>a\<rfloor>" using True by (simp add: le_floor_iff)
  then have n: "0 < ?n" by simp
  from bits_bounds[OF n] have "2 ^ (bits ?n - 1) \<le> ?n" by simp
  then have "(2::rat) ^ (bits ?n - 1) \<le> of_nat ?n"
    by (metis of_nat_le_iff of_nat_numeral of_nat_power)
  also have "\<dots> = of_int \<lfloor>a\<rfloor>" using f by simp
  also have "\<dots> \<le> a" by (rule of_int_floor_le)
  finally have "(2::rat) ^ (bits ?n - 1) \<le> a" .
  moreover have "ilog2 a = int (bits ?n - 1)"
    using True bits_pos[OF n] by (simp add: ilog2_def)
  ultimately show ?thesis by (simp add: pow2_nat)
next
  case False
  assume pos: "0 < a"
  from False have lt: "a < 1" by simp
  define c where "c = (if of_int \<lfloor>1 / a\<rfloor> = 1 / a then \<lfloor>1 / a\<rfloor> - 1 else \<lfloor>1 / a\<rfloor>)"
  from ilog2_small[OF pos lt] have c: "1 \<le> c" "1 / a \<le> of_int c + 1" unfolding c_def by simp_all
  let ?k = "bits (nat c)"
  have n: "0 < nat c" using c(1) by simp
  from bits_bounds[OF n] have "nat c < 2 ^ ?k" by simp
  then have "c < 2 ^ ?k" using c(1) by (metis nat_less_iff of_nat_numeral of_nat_power zero_le_one order_trans)
  then have "c + 1 \<le> 2 ^ ?k" by simp
  then have "(of_int (c + 1) :: rat) \<le> of_int (2 ^ ?k)" by (simp only: of_int_le_iff)
  then have "(of_int c + 1 :: rat) \<le> 2 ^ ?k" by simp
  with c(2) have "1 / a \<le> 2 ^ ?k" by simp
  then have "1 / 2 ^ ?k \<le> a" using pos by (simp add: field_simps)
  moreover have "ilog2 a = - int ?k" using False by (simp add: ilog2_def c_def)
  ultimately show ?thesis by (simp add: pow2_neg_nat)
qed

lemma ilog2_upper: "0 < a \<Longrightarrow> a < pow2 (ilog2 a + 1)"
proof (cases "1 \<le> a")
  case True
  assume "0 < a"
  let ?n = "nat \<lfloor>a\<rfloor>"
  have f: "1 \<le> \<lfloor>a\<rfloor>" using True by (simp add: le_floor_iff)
  then have n: "0 < ?n" by simp
  from bits_bounds[OF n] have "?n < 2 ^ bits ?n" by simp
  then have "Suc ?n \<le> 2 ^ bits ?n" by (rule Suc_leI)
  then have "(of_nat (Suc ?n) :: rat) \<le> of_nat (2 ^ bits ?n)" by (simp only: of_nat_le_iff)
  then have "(of_int \<lfloor>a\<rfloor> + 1 :: rat) \<le> 2 ^ bits ?n" using f by simp
  moreover have "a < of_int \<lfloor>a\<rfloor> + 1" using floor_correct[of a] by simp
  ultimately have "a < 2 ^ bits ?n" by simp
  moreover have "ilog2 a + 1 = int (bits ?n)" using True by (simp add: ilog2_def)
  ultimately show ?thesis by (simp add: pow2_nat)
next
  case False
  assume pos: "0 < a"
  from False have lt: "a < 1" by simp
  define c where "c = (if of_int \<lfloor>1 / a\<rfloor> = 1 / a then \<lfloor>1 / a\<rfloor> - 1 else \<lfloor>1 / a\<rfloor>)"
  from ilog2_small[OF pos lt] have c: "1 \<le> c" "of_int c < 1 / a" unfolding c_def by simp_all
  let ?k = "bits (nat c)"
  have n: "0 < nat c" using c(1) by simp
  from bits_bounds[OF n] have "2 ^ (?k - 1) \<le> nat c" by simp
  then have "(of_nat (2 ^ (?k - 1)) :: rat) \<le> of_nat (nat c)" by (simp only: of_nat_le_iff)
  then have "(2::rat) ^ (?k - 1) \<le> of_int c" using c(1) by simp
  then have "2 ^ (?k - 1) < 1 / a" using c(2) by (rule order.strict_trans1)
  then have "a < 1 / 2 ^ (?k - 1)" using pos by (simp add: field_simps)
  moreover have "ilog2 a + 1 = - int (?k - 1)"
    using False bits_pos[OF n] by (simp add: ilog2_def c_def)
  ultimately show ?thesis by (simp only: pow2_neg_nat)
qed

text \<open>Rounding to an integer.\<close>

lemma round_half_even_of_int: "round_half_even (of_int n) = n"
  by (simp add: round_half_even_def)

lemma round_half_even_ge: "of_int n \<le> y \<Longrightarrow> n \<le> round_half_even y"
proof -
  assume "of_int n \<le> y"
  then have "n \<le> \<lfloor>y\<rfloor>" by (simp add: le_floor_iff)
  then show ?thesis by (simp add: round_half_even_def Let_def)
qed

lemma round_half_even_upper: "of_int (round_half_even y) \<le> y + 1 / 2"
proof (cases "y - of_int \<lfloor>y\<rfloor> < 1 / 2")
  case True
  then have "round_half_even y = \<lfloor>y\<rfloor>" by (simp add: round_half_even_def Let_def)
  moreover have "of_int \<lfloor>y\<rfloor> \<le> y + 1 / 2"
    using of_int_floor_le[of y] by (rule order_trans) simp
  ultimately show ?thesis by simp
next
  case False
  have "round_half_even y \<le> \<lfloor>y\<rfloor> + 1" by (simp add: round_half_even_def Let_def)
  then have "(of_int (round_half_even y) :: rat) \<le> of_int (\<lfloor>y\<rfloor> + 1)" by (simp only: of_int_le_iff)
  with False show ?thesis by simp
qed

lemma round_half_even_small: "0 \<le> y \<Longrightarrow> y \<le> 1 / 2 \<Longrightarrow> round_half_even y = 0"
proof -
  assume a: "0 \<le> y" "y \<le> 1 / 2"
  then have "\<lfloor>y\<rfloor> = 0" by (simp add: floor_unique)
  with a show ?thesis by (auto simp: round_half_even_def Let_def)
qed

text \<open>The shape of a rounded positive number.\<close>

lemma fl_pos:
  assumes "0 < x"
  shows "fl x = (if 2 ^ 1024 \<le> of_int (round_half_even (x / pow2 (max (ilog2 x - 52) (- 1074)))) * pow2 (max (ilog2 x - 52) (- 1074))
                 then PosInf
                 else Fin (of_int (round_half_even (x / pow2 (max (ilog2 x - 52) (- 1074)))) * pow2 (max (ilog2 x - 52) (- 1074))))"
  using assms by (simp add: fl_def Let_def)

lemma fl_nonneg: "0 \<le> x \<Longrightarrow> fl x = PosInf \<or> (\<exists>y. fl x = Fin y \<and> 0 \<le> y)"
proof (cases "x = 0")
  case True then show ?thesis by (simp add: fl_def)
next
  case False
  assume "0 \<le> x"
  with False have pos: "0 < x" by simp
  let ?e = "max (ilog2 x - 52) (- 1074)"
  have "0 \<le> x / pow2 ?e" using pos pow2_pos[of ?e] by simp
  then have "of_int 0 \<le> x / pow2 ?e" by simp
  then have "0 \<le> round_half_even (x / pow2 ?e)" by (rule round_half_even_ge)
  then have "0 \<le> (of_int (round_half_even (x / pow2 ?e)) :: rat) * pow2 ?e"
    using pow2_pos[of ?e] by simp
  then show ?thesis unfolding fl_pos[OF pos] by simp
qed

lemma fl_ge_int:
  assumes k: "0 \<le> k" "k \<le> 2 ^ 53" and x: "of_int k \<le> x"
  shows "fl x = PosInf \<or> (\<exists>y. fl x = Fin y \<and> of_int k \<le> y)"
proof (cases "k = 0")
  case True
  with x have "0 \<le> x" by simp
  from fl_nonneg[OF this] True show ?thesis by simp
next
  case False
  with k have k1: "1 \<le> k" by simp
  then have "(1::rat) \<le> of_int k" by simp
  with x have pos: "0 < x" by simp
  let ?e = "max (ilog2 x - 52) (- 1074)"
  let ?m = "round_half_even (x / pow2 ?e)"
  have "of_int k \<le> (of_int ?m :: rat) * pow2 ?e"
  proof (cases "?e \<le> 0")
    case True
    have p: "pow2 ?e * 2 ^ nat (- ?e) = 1"
      using True by (auto simp: pow2_def)
    have "of_int (k * 2 ^ nat (- ?e)) = (of_int k :: rat) * 2 ^ nat (- ?e)" by simp
    also have "\<dots> \<le> x * 2 ^ nat (- ?e)" using x by simp
    also have "\<dots> = x / pow2 ?e" using p pow2_pos[of ?e] by (simp add: field_simps)
    finally have "k * 2 ^ nat (- ?e) \<le> ?m" by (rule round_half_even_ge)
    then have "(of_int (k * 2 ^ nat (- ?e)) :: rat) \<le> of_int ?m" by (simp only: of_int_le_iff)
    then have le: "(of_int k :: rat) * 2 ^ nat (- ?e) * pow2 ?e \<le> of_int ?m * pow2 ?e"
      using pow2_pos[of ?e] by simp
    have "(of_int k :: rat) = of_int k * (pow2 ?e * 2 ^ nat (- ?e))" using p by simp
    also have "\<dots> = of_int k * 2 ^ nat (- ?e) * pow2 ?e" by (simp only: ac_simps)
    also note le
    finally show ?thesis .
  next
    case False
    then have e: "?e = ilog2 x - 52" "1 \<le> ?e" by simp_all
    have "pow2 52 * pow2 ?e = pow2 (ilog2 x)" unfolding e(1) pow2_add[symmetric] by simp
    also have "\<dots> \<le> x" using pos by (rule ilog2_lower)
    finally have "pow2 52 \<le> x / pow2 ?e" using pow2_pos[of ?e] by (simp add: field_simps)
    moreover have "pow2 52 = of_int (2 ^ 52)" by (simp add: pow2_def)
    ultimately have "of_int (2 ^ 52) \<le> x / pow2 ?e" by simp
    then have "2 ^ 52 \<le> ?m" by (rule round_half_even_ge)
    then have "(of_int (2 ^ 52) :: rat) \<le> of_int ?m" by (simp only: of_int_le_iff)
    then have m: "(2 ^ 52 :: rat) \<le> of_int ?m" by simp
    have "pow2 1 \<le> pow2 ?e" using e(2) by (rule pow2_mono)
    then have p: "2 \<le> pow2 ?e" by (simp add: pow2_def)
    have "(of_int k :: rat) \<le> of_int (2 ^ 53)" using k(2) by (simp only: of_int_le_iff)
    also have "\<dots> = 2 ^ 52 * 2" by simp
    also have "\<dots> \<le> of_int ?m * pow2 ?e" using m p by (intro mult_mono) simp_all
    finally show ?thesis .
  qed
  then show ?thesis unfolding fl_pos[OF pos] by simp
qed

lemma fl_upper:
  assumes "1 / 2 ^ 1022 \<le> x"
  shows "fl x = PosInf \<or> (\<exists>y. fl x = Fin y \<and> y \<le> x * (1 + 1 / 2 ^ 53))"
proof -
  have pos: "0 < x" using assms by (rule less_le_trans[rotated]) simp
  let ?e = "max (ilog2 x - 52) (- 1074)"
  let ?m = "round_half_even (x / pow2 ?e)"
  have "pow2 (- 1022) \<le> x" using assms by (simp add: pow2_def)
  also have "x < pow2 (ilog2 x + 1)" using pos by (rule ilog2_upper)
  finally have "pow2 (- 1022) < pow2 (ilog2 x + 1)" .
  then have "\<not> ilog2 x + 1 \<le> - 1022" using pow2_mono[of "ilog2 x + 1" "- 1022"] by auto
  then have e: "?e = ilog2 x - 52" by simp
  have "pow2 52 * pow2 ?e = pow2 (ilog2 x)" unfolding e pow2_add[symmetric] by simp
  also have "\<dots> \<le> x" using pos by (rule ilog2_lower)
  finally have "pow2 52 \<le> x / pow2 ?e" using pow2_pos[of ?e] by (simp add: field_simps)
  then have big: "2 ^ 52 \<le> x / pow2 ?e" by (simp add: pow2_def)
  have "(of_int ?m :: rat) \<le> x / pow2 ?e + 1 / 2" by (rule round_half_even_upper)
  also have "\<dots> \<le> x / pow2 ?e + (x / pow2 ?e) / 2 ^ 53" using big by simp
  also have "\<dots> = (x * (1 + 1 / 2 ^ 53)) / pow2 ?e" by (simp add: field_simps)
  finally have "(of_int ?m :: rat) * pow2 ?e \<le> x * (1 + 1 / 2 ^ 53)"
    using pow2_pos[of ?e] by (simp add: field_simps)
  then show ?thesis unfolding fl_pos[OF pos] by simp
qed

lemma fl_overflow:
  assumes "2 ^ 1024 \<le> x"
  shows "fl x = PosInf"
proof -
  have pos: "0 < x" using assms by (rule less_le_trans[rotated]) simp
  let ?e = "max (ilog2 x - 52) (- 1074)"
  let ?m = "round_half_even (x / pow2 ?e)"
  have "pow2 1024 \<le> x" using assms by (simp add: pow2_def)
  also have "x < pow2 (ilog2 x + 1)" using pos by (rule ilog2_upper)
  finally have "pow2 1024 < pow2 (ilog2 x + 1)" .
  then have "\<not> ilog2 x + 1 \<le> 1024" using pow2_mono[of "ilog2 x + 1" 1024] by auto
  then have e: "?e = ilog2 x - 52" "972 \<le> ?e" by simp_all
  have "pow2 52 * pow2 ?e = pow2 (ilog2 x)" unfolding e(1) pow2_add[symmetric] by simp
  also have "\<dots> \<le> x" using pos by (rule ilog2_lower)
  finally have "pow2 52 \<le> x / pow2 ?e" using pow2_pos[of ?e] by (simp add: field_simps)
  moreover have "pow2 52 = of_int (2 ^ 52)" by (simp add: pow2_def)
  ultimately have "of_int (2 ^ 52) \<le> x / pow2 ?e" by simp
  then have "2 ^ 52 \<le> ?m" by (rule round_half_even_ge)
  then have "(of_int (2 ^ 52) :: rat) \<le> of_int ?m" by (simp only: of_int_le_iff)
  then have m: "pow2 52 \<le> of_int ?m" by (simp add: pow2_def)
  have p: "pow2 972 \<le> pow2 ?e" using e(2) by (rule pow2_mono)
  have "(2::rat) ^ 1024 = pow2 52 * pow2 972" unfolding pow2_add[symmetric] by (simp add: pow2_def)
  also have "\<dots> \<le> of_int ?m * pow2 ?e"
    using m p pow2_pos[of 52] pow2_pos[of 972] by (intro mult_mono) simp_all
  finally show ?thesis unfolding fl_pos[OF pos] by simp
qed

lemma fl_underflow:
  assumes "0 \<le> x" and "x \<le> 1 / 2 ^ 1075"
  shows "fl x = Fin 0"
proof (cases "x = 0")
  case True then show ?thesis by (simp add: fl_def)
next
  case False
  with assms(1) have pos: "0 < x" by simp
  let ?e = "max (ilog2 x - 52) (- 1074)"
  let ?m = "round_half_even (x / pow2 ?e)"
  have "pow2 (ilog2 x) \<le> x" using pos by (rule ilog2_lower)
  also have "x \<le> pow2 (- 1075)" using assms(2) by (simp add: pow2_def)
  also have "pow2 (- 1075) < pow2 (- 1074)" by (simp add: pow2_def)
  finally have "\<not> - 1074 \<le> ilog2 x" using pow2_mono[of "- 1074" "ilog2 x"] by auto
  then have e: "?e = - 1074" by simp
  have "x / pow2 (- 1074) \<le> 1 / 2" using assms(2) by (simp add: pow2_def)
  moreover have "0 \<le> x / pow2 (- 1074)" using pos by (simp add: pow2_def)
  ultimately have "round_half_even (x / pow2 (- 1074)) = 0" by (intro round_half_even_small)
  then show ?thesis unfolding fl_pos[OF pos] e by simp
qed

lemma fl_of_nat:
  assumes "n \<le> 2 ^ 53"
  shows "fl (of_nat n) = Fin (of_nat n)"
proof (cases "n = 0")
  case True then show ?thesis by (simp add: fl_def)
next
  case False
  define x :: rat where "x = of_nat n"
  have pos: "0 < x" and one: "1 \<le> x" using False by (simp_all add: x_def)
  have le: "x \<le> 2 ^ 53" using assms unfolding x_def
    by (metis of_nat_le_iff of_nat_numeral of_nat_power)
  let ?e = "max (ilog2 x - 52) (- 1074)"
  let ?m = "round_half_even (x / pow2 ?e)"
  have "pow2 0 \<le> x" using one by (simp add: pow2_def)
  also have "x < pow2 (ilog2 x + 1)" using pos by (rule ilog2_upper)
  finally have "\<not> ilog2 x + 1 \<le> 0" using pow2_mono[of "ilog2 x + 1" 0] by auto
  then have l0: "0 \<le> ilog2 x" by simp
  have "pow2 (ilog2 x) \<le> x" using pos by (rule ilog2_lower)
  also have "x \<le> pow2 53" using le by (simp add: pow2_def)
  also have "pow2 53 < pow2 54" by (simp add: pow2_def)
  finally have "\<not> 54 \<le> ilog2 x" using pow2_mono[of 54 "ilog2 x"] by auto
  then have l1: "ilog2 x \<le> 53" by simp
  have e: "?e = ilog2 x - 52" using l0 by simp
  have int_q: "\<exists>q::int. x / pow2 ?e = of_int q"
  proof (cases "ilog2 x = 53")
    case True
    have "pow2 53 \<le> x" using ilog2_lower[OF pos] True by simp
    with le have "x = 2 ^ 53" by (simp add: pow2_def)
    then have "x / pow2 ?e = of_int (2 ^ 52)" unfolding e True by (simp add: pow2_def)
    then show ?thesis by blast
  next
    case False
    with l1 have "?e \<le> 0" unfolding e by simp
    then have "x / pow2 ?e = x * 2 ^ nat (- ?e)" by (auto simp: pow2_def)
    also have "\<dots> = of_int (int n * 2 ^ nat (- ?e))" by (simp add: x_def)
    finally show ?thesis by blast
  qed
  then obtain q :: int where q: "x / pow2 ?e = of_int q" by blast
  then have "?m = q" by (simp only: round_half_even_of_int)
  then have "of_int ?m * pow2 ?e = x" using q pow2_pos[of ?e]
    by (metis less_irrefl nonzero_eq_divide_eq)
  moreover have "x < 2 ^ 1024" using le by (rule le_less_trans) simp
  ultimately have "fl x = Fin x" unfolding fl_pos[OF pos] by simp
  then show ?thesis by (simp add: x_def)
qed

text \<open>Facts that let the simplifier compute on concrete numbers.\<close>

lemma floor_rat_divide_numeral: "\<lfloor>numeral a / numeral b :: rat\<rfloor> = numeral a div numeral b"
  by (metis floor_divide_of_int_eq of_int_numeral)

lemma floor_rat_one_divide_numeral: "\<lfloor>1 / numeral b :: rat\<rfloor> = 1 div numeral b"
  by (metis floor_divide_of_int_eq of_int_numeral of_int_1)

lemmas fl_eval = fl_def Let_def ilog2_def bits.simps pow2_def round_half_even_def
  floor_rat_divide_numeral floor_rat_one_divide_numeral

text \<open>Rounding is symmetric, and arithmetic on small whole numbers is exact.\<close>

lemma fl_minus: "fl (- x) = num_neg (fl x)"
proof (cases "x = 0")
  case True then show ?thesis by (simp add: fl_def)
next
  case False
  then show ?thesis by (cases "x < 0") (auto simp: fl_def Let_def sgn_if)
qed

lemma fl_nonpos: "x \<le> 0 \<Longrightarrow> fl x = NegInf \<or> (\<exists>y. fl x = Fin y \<and> y \<le> 0)"
proof -
  assume "x \<le> 0"
  then have "0 \<le> - x" by simp
  from fl_nonneg[OF this] show ?thesis
    unfolding fl_minus by (cases "fl x") auto
qed

lemma count_plus_one:
  assumes "n < 2 ^ 53"
  shows "num_add (Fin (of_nat n)) (Fin 1) = Fin (of_nat (n + 1))"
proof -
  have "n + 1 \<le> 2 ^ 53" using assms by simp
  from fl_of_nat[OF this] show ?thesis by (simp add: add.commute)
qed

lemma count_minus_one:
  assumes "0 < n" and "n \<le> 2 ^ 53"
  shows "num_sub (Fin (of_nat n)) (Fin 1) = Fin (of_nat n - 1)"
proof -
  have "n - 1 \<le> 2 ^ 53" using assms by simp
  from fl_of_nat[OF this] assms(1) show ?thesis by (simp add: num_sub_def of_nat_diff)
qed

lemma pow2_less_D: "pow2 a < pow2 b \<Longrightarrow> a < b"
  using pow2_mono[of b a] by (cases "a < b") auto

lemma round_half_even_le: "y \<le> of_int n \<Longrightarrow> round_half_even y \<le> n"
proof -
  assume y: "y \<le> of_int n"
  show ?thesis
  proof (cases "y = of_int n")
    case True then show ?thesis by (simp add: round_half_even_of_int)
  next
    case False
    with y have "y < of_int n" by simp
    then have "\<lfloor>y\<rfloor> < n" by (simp add: floor_less_iff)
    then have "\<lfloor>y\<rfloor> + 1 \<le> n" by simp
    moreover have "round_half_even y \<le> \<lfloor>y\<rfloor> + 1" by (simp add: round_half_even_def Let_def)
    ultimately show ?thesis by simp
  qed
qed

text \<open>A number \<open>m * 2^e\<close> with \<open>m\<close> of at most \<open>53\<close> bits and \<open>-1074 \<le> e\<close> is a double.\<close>

lemma fl_exact:
  assumes m: "0 \<le> m" "m \<le> 2 ^ 53" and e: "- 1074 \<le> e" and small: "of_int m * pow2 e < 2 ^ 1024"
  shows "fl (of_int m * pow2 e) = Fin (of_int m * pow2 e)"
proof (cases "m = 0")
  case True then show ?thesis by (simp add: fl_def)
next
  case False
  define x where "x = of_int m * pow2 e"
  have mpos: "(0::rat) < of_int m" using m(1) False by simp
  have pos: "0 < x" unfolding x_def using mpos pow2_pos[of e] by simp
  let ?e = "max (ilog2 x - 52) (- 1074)"
  have "of_int m \<le> (of_int (2 ^ 53) :: rat)" using m(2) by (simp only: of_int_le_iff)
  then have "of_int m \<le> pow2 53" by (simp add: pow2_def)
  then have "x \<le> pow2 53 * pow2 e" unfolding x_def using pow2_pos[of e] by simp
  then have xle: "x \<le> pow2 (53 + e)" by (simp add: pow2_add)
  have "pow2 (ilog2 x) \<le> x" using pos by (rule ilog2_lower)
  also note xle
  also have "pow2 (53 + e) < pow2 (54 + e)" by (simp add: pow2_add) (simp add: pow2_def pow2_pos)
  finally have L: "ilog2 x \<le> 53 + e" using pow2_less_D[of "ilog2 x" "54 + e"] by simp
  have int_q: "\<exists>q::int. x / pow2 ?e = of_int q"
  proof (cases "ilog2 x = 53 + e")
    case True
    then have "pow2 (53 + e) \<le> x" using ilog2_lower[OF pos] by simp
    with xle have xeq: "x = pow2 (53 + e)" by simp
    have "?e = e + 1" using True e by simp
    then have "x / pow2 ?e = pow2 (53 + e) / pow2 (e + 1)" by (simp add: xeq)
    also have "\<dots> = pow2 52"
    proof -
      have "pow2 (53 + e) = pow2 52 * pow2 (e + 1)" unfolding pow2_add[symmetric] by simp
      then show ?thesis using pow2_pos[of "e + 1"] by simp
    qed
    also have "\<dots> = of_int (2 ^ 52)" by (simp add: pow2_def)
    finally show ?thesis by blast
  next
    case False
    with L have "ilog2 x - 52 \<le> e" by simp
    with e have le: "?e \<le> e" by simp
    have "pow2 e = pow2 (e - ?e) * pow2 ?e" unfolding pow2_add[symmetric] by simp
    then have "x = of_int m * pow2 (e - ?e) * pow2 ?e" by (simp add: x_def)
    then have "x / pow2 ?e = of_int m * pow2 (e - ?e)"
      using pow2_pos[of ?e] by (metis less_irrefl nonzero_eq_divide_eq)
    also have "pow2 (e - ?e) = of_int (2 ^ nat (e - ?e))" using le by (simp add: pow2_def)
    finally have "x / pow2 ?e = of_int (m * 2 ^ nat (e - ?e))" by simp
    then show ?thesis by blast
  qed
  then obtain q :: int where q: "x / pow2 ?e = of_int q" by blast
  then have "round_half_even (x / pow2 ?e) = q" by (simp only: round_half_even_of_int)
  then have "of_int (round_half_even (x / pow2 ?e)) * pow2 ?e = x" using q pow2_pos[of ?e]
    by (metis less_irrefl nonzero_eq_divide_eq)
  moreover have "x < 2 ^ 1024" using small by (simp add: x_def)
  ultimately have "fl x = Fin x" unfolding fl_pos[OF pos] by simp
  then show ?thesis by (simp add: x_def)
qed

text \<open>What \<open>fl\<close> returns is a double: rounding it again changes nothing.\<close>

lemma fl_idem_pos:
  assumes pos: "0 < x" and y: "fl x = Fin y"
  shows "fl y = Fin y"
proof -
  let ?e = "max (ilog2 x - 52) (- 1074)"
  let ?m = "round_half_even (x / pow2 ?e)"
  from y have small: "\<not> 2 ^ 1024 \<le> of_int ?m * pow2 ?e" and yv: "y = of_int ?m * pow2 ?e"
    unfolding fl_pos[OF pos] by (simp_all split: if_splits)
  have "0 \<le> x / pow2 ?e" using pos pow2_pos[of ?e] by simp
  then have "of_int 0 \<le> x / pow2 ?e" by simp
  then have m0: "0 \<le> ?m" by (rule round_half_even_ge)
  have "x < pow2 (ilog2 x + 1)" using pos by (rule ilog2_upper)
  also have "pow2 (ilog2 x + 1) \<le> pow2 (53 + ?e)" by (rule pow2_mono) simp
  also have "pow2 (53 + ?e) = pow2 53 * pow2 ?e" by (rule pow2_add)
  finally have "x / pow2 ?e < pow2 53" using pow2_pos[of ?e] by (simp add: field_simps)
  then have "x / pow2 ?e \<le> of_int (2 ^ 53)" by (simp add: pow2_def)
  then have m1: "?m \<le> 2 ^ 53" by (rule round_half_even_le)
  have "- 1074 \<le> ?e" by simp
  from fl_exact[OF m0 m1 this] small show ?thesis unfolding yv by simp
qed

lemma fl_idem: "fl x = Fin y \<Longrightarrow> fl y = Fin y"
proof (cases "0 < x")
  case True
  assume "fl x = Fin y"
  with True show ?thesis by (rule fl_idem_pos)
next
  case False
  assume y: "fl x = Fin y"
  show ?thesis
  proof (cases "x = 0")
    case True
    with y show ?thesis by (simp add: fl_def)
  next
    case False
    with \<open>\<not> 0 < x\<close> have "0 < - x" by simp
    moreover have "fl (- x) = Fin (- y)" using y by (simp add: fl_minus)
    ultimately have "fl (- y) = Fin (- y)" by (rule fl_idem_pos)
    then show ?thesis by (simp add: fl_minus) (cases "fl y"; simp)
  qed
qed


section \<open>The histogram of a numeric column\<close>

text \<open>The clamp keeps every index that is a number below the number of bins.\<close>

lemma min2_Fin_le: "min2 x (Fin c) = Fin a \<Longrightarrow> a \<le> c"
  by (cases x) (auto split: if_splits)

lemma binIndex_not_past_end:
  "binIndex E data column v = Fin a \<Longrightarrow> a \<le> of_nat (binCount data column) - 1"
  by (simp add: binIndex_def Math_min_def min2_Fin_le)

lemma length_increment: "length (increment bins i) = length bins"
  by (cases i) simp_all

lemma length_foldl_increment:
  "length (foldl (\<lambda>bins v. increment bins (g v)) bins vs) = length bins"
  by (induction vs arbitrary: bins) (simp_all add: length_increment)

lemma length_fill_bins: "length (fill_bins E data column) = binCount data column"
  by (simp add: fill_bins_def length_foldl_increment)

lemma length_numeric_series: "length (numeric_series E data column) = binCount data column"
  by (simp add: numeric_series_def length_fill_bins)

lemma binCount_le_10: "binCount data column \<le> 10"
  by (simp add: binCount_def)

lemma length_categorical_series: "length (categorical_series E data column) \<le> 10"
  by (simp add: categorical_series_def)

lemma length_processDataForChart:
  "processDataForChart E data column = Inr series \<Longrightarrow> length series \<le> 10"
  using length_numeric_series[of E data column] binCount_le_10[of data column]
    length_categorical_series[of E data column]
  by (auto simp: processDataForChart_def split: if_splits)

lemma is_integer_of_nat: "is_integer (of_nat i)"
  unfolding is_integer_def by simp

lemma increment_nth:
  "i < length bins \<Longrightarrow> increment bins x ! i = bins ! i + (if x = Fin (of_nat i) then 1 else 0)"
proof (cases x)
  case (Fin a)
  show ?thesis if "i < length bins"
  proof (cases "is_integer a \<and> 0 \<le> a \<and> nat \<lfloor>a\<rfloor> < length bins")
    case True
    then obtain n where n: "a = of_int n" "0 \<le> n" by (auto simp: is_integer_def)
    then have "(a = of_nat i) = (nat \<lfloor>a\<rfloor> = i)" by auto
    with True that Fin show ?thesis by (auto simp: nth_list_update)
  next
    case False
    have "a \<noteq> of_nat i"
    proof
      assume "a = of_nat i"
      with False that is_integer_of_nat[of i] show False by simp
    qed
    with False Fin show ?thesis by auto
  qed
qed simp_all

lemma foldl_increment_nth:
  "i < length bins \<Longrightarrow>
   foldl (\<lambda>bins v. increment bins (g v)) bins vs ! i = bins ! i + length (filter (\<lambda>v. g v = Fin (of_nat i)) vs)"
proof (induction vs arbitrary: bins)
  case Nil then show ?case by simp
next
  case (Cons v vs)
  have "i < length (increment bins (g v))" using Cons.prems by (simp add: length_increment)
  from Cons.IH[OF this] Cons.prems show ?case by (simp add: increment_nth)
qed

lemma fill_bins_nth:
  "i < binCount data column \<Longrightarrow>
   fill_bins E data column ! i =
     length (filter (\<lambda>v. binIndex E data column v = Fin (of_nat i)) (chart_values E data column))"
  by (simp add: fill_bins_def foldl_increment_nth)

lemma Math_min_Fin: "Math_min (map Fin xs) = (if xs = [] then PosInf else Fin (Min (set xs)))"
proof (induction xs)
  case Nil then show ?case by (simp add: Math_min_def)
next
  case (Cons a xs)
  then show ?case by (cases "xs = []") (simp_all add: Math_min_def min.commute)
qed

lemma Math_max_Fin: "Math_max (map Fin xs) = (if xs = [] then NegInf else Fin (Max (set xs)))"
proof (induction xs)
  case Nil then show ?case by (simp add: Math_max_def)
next
  case (Cons a xs)
  then show ?case by (cases "xs = []") (simp_all add: Math_max_def max.commute)
qed

lemma all_finite_map:
  assumes "\<forall>v\<in>set vs. \<exists>a. f v = Fin a"
  shows "map f vs = map Fin (map (fin_part \<circ> f) vs)"
  using assms by (induction vs) auto

text \<open>
  When the least and the greatest of some numbers, none of them \<open>NaN\<close>, are both finite,
  all of them are.
\<close>

lemma min2_NaN_iff: "min2 a b = NaN \<longleftrightarrow> a = NaN \<or> b = NaN"
  by (cases a; cases b) simp_all

lemma max2_NaN_iff: "max2 a b = NaN \<longleftrightarrow> a = NaN \<or> b = NaN"
  by (cases a; cases b) simp_all

lemma Math_min_not_NaN: "NaN \<notin> set xs \<Longrightarrow> Math_min xs \<noteq> NaN"
  by (induction xs) (auto simp: Math_min_def min2_NaN_iff)

lemma Math_max_not_NaN: "NaN \<notin> set xs \<Longrightarrow> Math_max xs \<noteq> NaN"
  by (induction xs) (auto simp: Math_max_def max2_NaN_iff)

lemma Math_min_NegInf: "NaN \<notin> set xs \<Longrightarrow> NegInf \<in> set xs \<Longrightarrow> Math_min xs = NegInf"
proof (induction xs)
  case Nil then show ?case by simp
next
  case (Cons x xs)
  have n: "Math_min xs \<noteq> NaN" using Cons.prems(1) by (intro Math_min_not_NaN) simp
  have s: "Math_min (x # xs) = min2 x (Math_min xs)" by (simp add: Math_min_def)
  show ?case
  proof (cases "x = NegInf")
    case True
    with n show ?thesis unfolding s by (cases "Math_min xs") simp_all
  next
    case False
    with Cons have "Math_min xs = NegInf" by simp
    with Cons.prems(1) show ?thesis unfolding s by (cases x) simp_all
  qed
qed

lemma Math_max_PosInf: "NaN \<notin> set xs \<Longrightarrow> PosInf \<in> set xs \<Longrightarrow> Math_max xs = PosInf"
proof (induction xs)
  case Nil then show ?case by simp
next
  case (Cons x xs)
  have n: "Math_max xs \<noteq> NaN" using Cons.prems(1) by (intro Math_max_not_NaN) simp
  have s: "Math_max (x # xs) = max2 x (Math_max xs)" by (simp add: Math_max_def)
  show ?case
  proof (cases "x = PosInf")
    case True
    with n show ?thesis unfolding s by (cases "Math_max xs") simp_all
  next
    case False
    with Cons have "Math_max xs = PosInf" by simp
    with Cons.prems(1) show ?thesis unfolding s by (cases x) simp_all
  qed
qed

lemma finite_between:
  assumes "NaN \<notin> set xs" and "Math_min xs = Fin mn" and "Math_max xs = Fin mx"
  shows "\<forall>x\<in>set xs. \<exists>a. x = Fin a"
proof
  fix x assume x: "x \<in> set xs"
  show "\<exists>a. x = Fin a"
  proof (cases x)
    case NaN with x assms(1) show ?thesis by simp
  next
    case PosInf
    with x assms(1) have "Math_max xs = PosInf" by (intro Math_max_PosInf) simp_all
    with assms(3) show ?thesis by simp
  next
    case NegInf
    with x assms(1) have "Math_min xs = NegInf" by (intro Math_min_NegInf) simp_all
    with assms(2) show ?thesis by simp
  qed simp
qed

lemma chart_values_not_NaN: "NaN \<notin> set (map (ToNumber E) (chart_values E data column))"
  by (auto simp: chart_values_def isNaN_def)

lemma num_sub_Fin: "num_sub (Fin a) (Fin b) = fl (a - b)"
  by (simp add: num_sub_def)

lemma num_add_Fin_D: "num_add a b = Fin r \<Longrightarrow> \<exists>x y. a = Fin x \<and> b = Fin y"
  by (cases a; cases b) simp_all

lemma num_div_Fin_D: "num_div a (Fin c) = Fin r \<Longrightarrow> \<exists>x. a = Fin x"
  by (cases a) (simp_all split: if_splits)

text \<open>
  What a finite bin size says about the column: the minimum, the maximum and the range
  are finite, every kept value is finite and lies between the minimum and the maximum, and
  the maximum is one of the kept values.
\<close>

lemma finite_column_facts:
  assumes bs: "binSize E data column = Fin bs" and bc: "0 < binCount data column"
  obtains mn mx r where "chart_min E data column = Fin mn" "chart_max E data column = Fin mx"
    "chart_range E data column = Fin r" "fl (mx - mn) = Fin r"
    "fl (r / of_nat (binCount data column)) = Fin bs"
    "\<And>v. v \<in> set (chart_values E data column) \<Longrightarrow> \<exists>a. ToNumber E v = Fin a \<and> mn \<le> a \<and> a \<le> mx"
    "\<exists>v\<in>set (chart_values E data column). ToNumber E v = Fin mx"
proof -
  let ?vs = "chart_values E data column"
  let ?ns = "map (ToNumber E) ?vs"
  from bs obtain r where r: "chart_range E data column = Fin r"
    unfolding binSize_def by (blast dest: num_div_Fin_D)
  from bs bc have q: "fl (r / of_nat (binCount data column)) = Fin bs"
    by (simp add: binSize_def r)
  from r obtain mx m' where mx: "chart_max E data column = Fin mx"
    and m': "num_neg (chart_min E data column) = Fin m'"
    unfolding chart_range_def num_sub_def by (blast dest: num_add_Fin_D)
  from m' obtain mn where mn: "chart_min E data column = Fin mn"
    by (cases "chart_min E data column") simp_all
  have d: "fl (mx - mn) = Fin r" using r by (simp add: chart_range_def mn mx num_sub_Fin)
  have fin: "\<forall>x\<in>set ?ns. \<exists>a. x = Fin a"
    using chart_values_not_NaN mn mx unfolding chart_min_def chart_max_def by (rule finite_between)
  then have fin': "\<forall>v\<in>set ?vs. \<exists>a. ToNumber E v = Fin a" by simp
  let ?as = "map (fin_part \<circ> ToNumber E) ?vs"
  have m: "?ns = map Fin ?as" using fin' by (rule all_finite_map)
  have ne: "?as \<noteq> []"
  proof
    assume "?as = []"
    then have "chart_min E data column = PosInf" by (simp add: chart_min_def Math_min_def)
    with mn show False by simp
  qed
  have "Fin mn = Fin (Min (set ?as))"
    using mn unfolding chart_min_def m using ne by (simp only: Math_min_Fin if_False)
  then have mn': "mn = Min (set ?as)" by simp
  have "Fin mx = Fin (Max (set ?as))"
    using mx unfolding chart_max_def m using ne by (simp only: Math_max_Fin if_False)
  then have mx': "mx = Max (set ?as)" by simp
  have bounds: "\<exists>a. ToNumber E v = Fin a \<and> mn \<le> a \<and> a \<le> mx" if v: "v \<in> set ?vs" for v
  proof -
    from v fin' obtain a where a: "ToNumber E v = Fin a" by blast
    then have "a \<in> set ?as" using v by force
    then have "Min (set ?as) \<le> a \<and> a \<le> Max (set ?as)" by simp
    with a show ?thesis unfolding mn' mx' by blast
  qed
  have "Max (set ?as) \<in> set ?as" using ne by (intro Max_in) auto
  then obtain v where "v \<in> set ?vs" "fin_part (ToNumber E v) = Max (set ?as)" by auto
  moreover from this fin' obtain a where "ToNumber E v = Fin a" by blast
  ultimately have att: "\<exists>v\<in>set ?vs. ToNumber E v = Fin mx" unfolding mx' by auto
  from that[OF mn mx r d q bounds att] show thesis .
qed

text \<open>
  The index of a value that is not below the minimum, for a positive bin size: the
  difference and the quotient are rounded, and either may be an infinity; whatever they
  are, the clamped index is a position of the array of bins.
\<close>

lemma clamp_PosInf: "0 < bc \<Longrightarrow> Math_min [PosInf, Fin (of_nat bc - 1)] = Fin (of_nat (bc - 1))"
  by (simp add: Math_min_def of_nat_diff)

lemma clamp_Fin:
  assumes "0 \<le> q" and "0 < bc"
  shows "Math_min [Math_floor (Fin q), Fin (of_nat bc - 1)]
           = Fin (of_nat (nat (min \<lfloor>q\<rfloor> (int bc - 1))))"
proof -
  have f: "0 \<le> \<lfloor>q\<rfloor>" using assms(1) by simp
  have "min (of_int \<lfloor>q\<rfloor>) (of_nat bc - 1) = (of_int (min \<lfloor>q\<rfloor> (int bc - 1)) :: rat)"
    by (simp add: of_int_min)
  also have "\<dots> = of_nat (nat (min \<lfloor>q\<rfloor> (int bc - 1)))"
    using f assms(2) by simp
  finally show ?thesis by (simp add: Math_min_def)
qed

lemma quotient_position:
  assumes d: "0 \<le> d" and bs: "0 < bs" and bc: "0 < bc"
  shows "\<exists>i<bc. Math_min [Math_floor (num_div (fl d) (Fin bs)), Fin (of_nat bc - 1)] = Fin (of_nat i)"
proof -
  have top: "\<exists>i<bc. Math_min [PosInf, Fin (of_nat bc - 1)] = Fin (of_nat i)"
    using clamp_PosInf[OF bc] bc by (intro exI[of _ "bc - 1"]) simp
  have fin: "\<exists>i<bc. Math_min [Math_floor (Fin q), Fin (of_nat bc - 1)] = Fin (of_nat i)"
    if "0 \<le> q" for q
    using clamp_Fin[OF that bc] bc by (intro exI[of _ "nat (min \<lfloor>q\<rfloor> (int bc - 1))"]) simp
  from fl_nonneg[OF d] show ?thesis
  proof
    assume "fl d = PosInf"
    then have "num_div (fl d) (Fin bs) = PosInf" using bs by simp
    with top show ?thesis by simp
  next
    assume "\<exists>y. fl d = Fin y \<and> 0 \<le> y"
    then obtain y where y: "fl d = Fin y" "0 \<le> y" by blast
    have "0 \<le> y / bs" using y(2) bs by simp
    from fl_nonneg[OF this] show ?thesis
    proof
      assume "fl (y / bs) = PosInf"
      then have "num_div (fl d) (Fin bs) = PosInf" using bs y(1) by simp
      with top show ?thesis by simp
    next
      assume "\<exists>q. fl (y / bs) = Fin q \<and> 0 \<le> q"
      then obtain q where q: "fl (y / bs) = Fin q" "0 \<le> q" by blast
      then have "num_div (fl d) (Fin bs) = Fin q" using bs y(1) by simp
      with fin[OF q(2)] show ?thesis by simp
    qed
  qed
qed

lemma binIndex_position:
  assumes "chart_min E data column = Fin mn" and "binSize E data column = Fin bs" and "0 < bs"
    and "ToNumber E v = Fin a" and "mn \<le> a" and "0 < binCount data column"
  shows "\<exists>i<binCount data column. binIndex E data column v = Fin (of_nat i)"
proof -
  have "0 \<le> a - mn" using assms(5) by simp
  from quotient_position[OF this assms(3,6)] show ?thesis
    by (simp add: binIndex_def assms(1,2,4) num_sub_Fin)
qed

text \<open>
  The maximum lands in the last bin when the quotient \<open>range / binCount\<close> is not below the
  least normal double \<open>2^-1022\<close>, so that the bin size is that quotient up to a relative
  error of \<open>2^-53\<close>: then \<open>range / binSize\<close> is at least \<open>binCount - 1\<close>, and so is the double
  it is rounded to.
\<close>

lemma last_bin:
  assumes q: "fl (r / of_nat bc) = Fin bs" and bs: "0 < bs" and bc: "0 < bc" "bc \<le> 10"
    and normal: "1 / 2 ^ 1022 \<le> r / of_nat bc"
  shows "Math_min [Math_floor (num_div (Fin r) (Fin bs)), Fin (of_nat bc - 1)] = Fin (of_nat (bc - 1))"
proof -
  have bcr: "(0::rat) < of_nat bc" using bc(1) by simp
  have rpos: "0 < r"
  proof -
    have "(0::rat) < 1 / 2 ^ 1022" by simp
    then have "0 < r / of_nat bc" using normal by (rule less_le_trans)
    with bcr show ?thesis by (simp add: zero_less_divide_iff)
  qed
  from fl_upper[OF normal] q have up: "bs \<le> r / of_nat bc * (1 + 1 / 2 ^ 53)" by auto
  have "(of_nat bc - 1) * (1 + 1 / 2 ^ 53) \<le> (of_nat bc :: rat)"
  proof -
    have "(of_nat bc :: rat) \<le> 10" using bc(2) by simp
    then have "(of_nat bc - 1 :: rat) * (1 / 2 ^ 53) \<le> 9 * (1 / 2 ^ 53)"
      by (intro mult_right_mono) simp_all
    also have "\<dots> \<le> 1" by simp
    finally show ?thesis by (simp add: algebra_simps)
  qed
  then have "(of_nat bc - 1) * (r / of_nat bc * (1 + 1 / 2 ^ 53)) \<le> r"
    using rpos bcr by (simp add: field_simps)
  moreover have "(of_nat bc - 1) * bs \<le> (of_nat bc - 1) * (r / of_nat bc * (1 + 1 / 2 ^ 53))"
    using up bc(1) by (intro mult_left_mono) simp_all
  ultimately have "(of_nat bc - 1) * bs \<le> r" by simp
  then have "of_nat bc - 1 \<le> r / bs" using bs by (simp add: field_simps)
  then have ge: "of_int (int bc - 1) \<le> r / bs" by simp
  have k: "0 \<le> int bc - 1" "int bc - 1 \<le> 2 ^ 53" using bc by simp_all
  have d: "num_div (Fin r) (Fin bs) = fl (r / bs)" using bs by simp
  from fl_ge_int[OF k ge] show ?thesis
  proof
    assume "fl (r / bs) = PosInf"
    then show ?thesis unfolding d using clamp_PosInf[OF bc(1)] by simp
  next
    assume "\<exists>y. fl (r / bs) = Fin y \<and> of_int (int bc - 1) \<le> y"
    then obtain y where y: "fl (r / bs) = Fin y" "of_int (int bc - 1) \<le> y" by blast
    then have "int bc - 1 \<le> \<lfloor>y\<rfloor>" by (simp only: le_floor_iff)
    then have m: "min \<lfloor>y\<rfloor> (int bc - 1) = int bc - 1" by simp
    have "0 \<le> y" using y(2) k(1) by (metis of_int_0_le_iff order_trans)
    from clamp_Fin[OF this bc(1)] show ?thesis unfolding d y(1) m using bc(1) by simp
  qed
qed

lemma typeof_number: "typeof v = ''number'' \<Longrightarrow> \<exists>n. v = JNum n"
  by (cases v) simp_all

lemma binCount_pos:
  assumes "data \<noteq> []" and "typeof (get_prop (data ! 0) column) = ''number''"
  shows "0 < binCount data column"
proof -
  obtain n where n: "get_prop (data ! 0) column = JNum n"
    using assms(2) typeof_number by blast
  have "data ! 0 \<in> set data" using assms(1) by simp
  then have "JNum n \<in> set (uniqueValues data column)"
    unfolding uniqueValues_def using n by force
  then have "uniqueValues data column \<noteq> []" by auto
  then show ?thesis by (simp add: binCount_def)
qed

lemma one_hit:
  assumes "i < n" and "g = Fin (of_nat i)"
  shows "(\<Sum>j = 0..<n. if g = Fin (rat_of_nat j) then 1 else 0) = (1::nat)"
proof -
  have "(\<Sum>j = 0..<n. if g = Fin (rat_of_nat j) then 1 else 0) = (\<Sum>j = 0..<n. if i = j then 1 else (0::nat))"
    using assms by (intro sum.cong) auto
  also have "\<dots> = 1" using assms(1) by simp
  finally show ?thesis .
qed

lemma hits_partition:
  assumes "\<forall>v\<in>set vs. \<exists>i<n. g v = Fin (of_nat i)"
  shows "(\<Sum>i = 0..<n. length (filter (\<lambda>v. g v = Fin (of_nat i)) vs)) = length vs"
  using assms
proof (induction vs)
  case Nil then show ?case by simp
next
  case (Cons v vs)
  then obtain i where i: "i < n" "g v = Fin (of_nat i)" by auto
  have "(\<Sum>i = 0..<n. length (filter (\<lambda>v. g v = Fin (of_nat i)) (v # vs)))
      = (\<Sum>i = 0..<n. (if g v = Fin (of_nat i) then 1 else 0) + length (filter (\<lambda>v. g v = Fin (of_nat i)) vs))"
    by (intro sum.cong) auto
  also have "\<dots> = (\<Sum>i = 0..<n. if g v = Fin (of_nat i) then 1 else 0) + length vs"
    using Cons by (simp add: sum.distrib)
  also have "\<dots> = 1 + length vs" using one_hit[OF i] by simp
  finally show ?case by simp
qed

text \<open>The number of kept values with a given index.\<close>

lemma numeric_series_counts:
  "map (count_of \<circ> cp_value) (numeric_series E data column) =
     map (\<lambda>i. length (filter (\<lambda>v. binIndex E data column v = Fin (of_nat i)) (chart_values E data column)))
       [0 ..< binCount data column]"
proof (rule nth_equalityI)
  show "length (map (count_of \<circ> cp_value) (numeric_series E data column)) = length (map (\<lambda>i. length (filter (\<lambda>v. binIndex E data column v = Fin (of_nat i)) (chart_values E data column)))
       [0 ..< binCount data column])"
    by (simp add: length_numeric_series)
next
  fix i assume "i < length (map (count_of \<circ> cp_value) (numeric_series E data column))"
  then have i: "i < binCount data column" by (simp add: length_numeric_series)
  then show "map (count_of \<circ> cp_value) (numeric_series E data column) ! i = map (\<lambda>i. length (filter (\<lambda>v. binIndex E data column v = Fin (of_nat i)) (chart_values E data column)))
       [0 ..< binCount data column] ! i"
    by (simp add: numeric_series_def length_fill_bins fill_bins_nth)
qed

lemma numeric_series_values:
  "map cp_value (numeric_series E data column) =
     map (\<lambda>i. Count (length (filter (\<lambda>v. binIndex E data column v = Fin (of_nat i)) (chart_values E data column))))
       [0 ..< binCount data column]"
proof (rule nth_equalityI)
  show "length (map cp_value (numeric_series E data column)) = length (map (\<lambda>i. Count (length (filter (\<lambda>v. binIndex E data column v = Fin (of_nat i)) (chart_values E data column))))
       [0 ..< binCount data column])"
    by (simp add: length_numeric_series)
next
  fix i assume "i < length (map cp_value (numeric_series E data column))"
  then have i: "i < binCount data column" by (simp add: length_numeric_series)
  then show "map cp_value (numeric_series E data column) ! i = map (\<lambda>i. Count (length (filter (\<lambda>v. binIndex E data column v = Fin (of_nat i)) (chart_values E data column))))
       [0 ..< binCount data column] ! i"
    by (simp add: numeric_series_def length_fill_bins fill_bins_nth)
qed

lemma numeric_series_names:
  "map cp_name (numeric_series E data column) = map (bin_name E data column) [0 ..< binCount data column]"
proof (rule nth_equalityI)
  show "length (map cp_name (numeric_series E data column)) = length (map (bin_name E data column) [0 ..< binCount data column])"
    by (simp add: length_numeric_series)
next
  fix i assume "i < length (map cp_name (numeric_series E data column))"
  then have i: "i < binCount data column" by (simp add: length_numeric_series)
  then show "map cp_name (numeric_series E data column) ! i = map (bin_name E data column) [0 ..< binCount data column] ! i"
    by (simp add: numeric_series_def length_fill_bins)
qed

text \<open>
  Concrete columns are computed step by step: the kept values, the minimum, the maximum,
  the range, the number and the size of the bins, then the index of each value and the
  name of each bin.
\<close>

lemmas numeric_eval =
  processDataForChart_def numeric_series_def fill_bins_def bin_name_def binCount_def
  uniqueValues_def one_column_def get_prop_def chart_values_def isNaN_def binIndex_def
  chart_min_def Math_min_def binSize_def chart_range_def chart_max_def Math_max_def num_sub_def
  is_integer_def digits.simps digit_char_def fl_eval

lemma fill_bins_indices:
  "fill_bins E data column =
     foldl increment (replicate (binCount data column) 0)
       (map (binIndex E data column) (chart_values E data column))"
  by (simp add: fill_bins_def foldl_map)

lemma numeric_series_points:
  "numeric_series E data column =
     map (\<lambda>(name, count). \<lparr>cp_name = name, cp_value = Count count\<rparr>)
       (zip (map (bin_name E data column) [0 ..< binCount data column]) (fill_bins E data column))"
  by (rule nth_equalityI) (simp_all add: numeric_series_def length_fill_bins)

lemma numeric_branch:
  assumes "data \<noteq> []" and "column \<noteq> []" and "typeof (get_prop (data ! 0) column) = ''number''"
  shows "processDataForChart E data column =
           (if length (chart_values E data column) \<le> argument_limit E
            then Inr (numeric_series E data column)
            else Inl (Error (RangeError_message E)))"
  using assms by (simp add: processDataForChart_def)

text \<open>
  Claim C2, as amended. Take a column whose first value is a number, so that the numeric
  branch runs, with no more kept values (not \<open>null\<close>, not \<open>NaN\<close> once converted) than the
  engine passes as arguments, and let the bin size that the code computes be a finite
  positive double. Then the minimum, the maximum and the range are finite, the range is
  positive, and every kept value is finite and lies between the minimum and the maximum.
  Every kept value gets exactly one bin index
  \<open>Math.min(Math.floor((value - min) / binSize), binCount - 1)\<close>, computed in doubles, and
  it is a position of the array of bins. The value of the point at position \<open>i\<close> is the
  number of kept values whose index is \<open>i\<close>, and these numbers add up to the number of kept
  values. The maximum is one of the kept values, and it lands in the last bin when
  \<open>range / binCount\<close> is at least \<open>2^-1022\<close>, the least normal double.
\<close>

theorem numeric_binning_total:
  assumes "data \<noteq> []" and "column \<noteq> []"
    and first: "typeof (get_prop (data ! 0) column) = ''number''"
    and fits: "length (chart_values E data column) \<le> argument_limit E"
    and bs: "binSize E data column = Fin bs" and pos: "0 < bs"
  shows "(\<forall>v\<in>set (chart_values E data column).
            \<exists>i<binCount data column. binIndex E data column v = Fin (of_nat i))
       \<and> (\<exists>mn mx r. chart_min E data column = Fin mn \<and> chart_max E data column = Fin mx
            \<and> chart_range E data column = Fin r \<and> 0 < r
            \<and> fl (mx - mn) = Fin r \<and> fl (r / of_nat (binCount data column)) = Fin bs
            \<and> (\<forall>v\<in>set (chart_values E data column). \<exists>a. ToNumber E v = Fin a \<and> mn \<le> a \<and> a \<le> mx)
            \<and> (1 / 2 ^ 1022 \<le> r / of_nat (binCount data column) \<longrightarrow>
                 (\<forall>v\<in>set (chart_values E data column). ToNumber E v = chart_max E data column \<longrightarrow>
                    binIndex E data column v = Fin (of_nat (binCount data column - 1)))))
       \<and> (\<exists>v\<in>set (chart_values E data column). ToNumber E v = chart_max E data column)
       \<and> (\<exists>series. processDataForChart E data column = Inr series
            \<and> map cp_value series =
                 map (\<lambda>i. Count (length (filter (\<lambda>v. binIndex E data column v = Fin (of_nat i))
                                            (chart_values E data column)))) [0 ..< binCount data column]
            \<and> sum_list (map (count_of \<circ> cp_value) series) = length (chart_values E data column))"
proof -
  let ?vs = "chart_values E data column" and ?bc = "binCount data column"
  have bc: "0 < ?bc" using assms(1) first by (rule binCount_pos)
  from finite_column_facts[OF bs bc] obtain mn mx r where
    mn: "chart_min E data column = Fin mn" and mx: "chart_max E data column = Fin mx"
    and r: "chart_range E data column = Fin r" and d: "fl (mx - mn) = Fin r"
    and q: "fl (r / of_nat ?bc) = Fin bs"
    and bounds: "\<And>v. v \<in> set ?vs \<Longrightarrow> \<exists>a. ToNumber E v = Fin a \<and> mn \<le> a \<and> a \<le> mx"
    and att: "\<exists>v\<in>set ?vs. ToNumber E v = Fin mx" by blast
  have rpos: "0 < r"
  proof (rule ccontr)
    assume "\<not> 0 < r"
    then have "r / of_nat ?bc \<le> 0" using bc by (simp add: divide_le_0_iff)
    from fl_nonpos[OF this] q pos show False by auto
  qed
  have A: "\<forall>v\<in>set ?vs. \<exists>i<?bc. binIndex E data column v = Fin (of_nat i)"
  proof
    fix v assume v: "v \<in> set ?vs"
    from bounds[OF v] obtain a where a: "ToNumber E v = Fin a" "mn \<le> a" by blast
    from binIndex_position[OF mn bs pos a bc]
    show "\<exists>i<?bc. binIndex E data column v = Fin (of_nat i)" .
  qed
  have L: "binIndex E data column v = Fin (of_nat (?bc - 1))"
    if n: "1 / 2 ^ 1022 \<le> r / of_nat ?bc" and v: "v \<in> set ?vs"
      and m: "ToNumber E v = chart_max E data column" for v
  proof -
    have "ToNumber E v = Fin mx" using m mx by simp
    then have "num_sub (ToNumber E v) (chart_min E data column) = Fin r"
      by (simp add: mn num_sub_Fin d)
    then show ?thesis
      unfolding binIndex_def bs using last_bin[OF q pos bc binCount_le_10 n] by simp
  qed
  have G: "\<exists>mn mx r. chart_min E data column = Fin mn \<and> chart_max E data column = Fin mx
            \<and> chart_range E data column = Fin r \<and> 0 < r
            \<and> fl (mx - mn) = Fin r \<and> fl (r / of_nat ?bc) = Fin bs
            \<and> (\<forall>v\<in>set ?vs. \<exists>a. ToNumber E v = Fin a \<and> mn \<le> a \<and> a \<le> mx)
            \<and> (1 / 2 ^ 1022 \<le> r / of_nat ?bc \<longrightarrow>
                 (\<forall>v\<in>set ?vs. ToNumber E v = chart_max E data column \<longrightarrow>
                    binIndex E data column v = Fin (of_nat (?bc - 1))))"
    using mn mx r rpos d q bounds L by blast
  have B: "\<exists>v\<in>set ?vs. ToNumber E v = chart_max E data column" using att mx by simp
  have P: "processDataForChart E data column = Inr (numeric_series E data column)"
    using assms(1,2) first fits by (simp add: processDataForChart_def)
  have D: "map cp_value (numeric_series E data column) =
            map (\<lambda>i. Count (length (filter (\<lambda>v. binIndex E data column v = Fin (of_nat i)) ?vs))) [0 ..< ?bc]"
    by (rule numeric_series_values)
  have "sum_list (map (count_of \<circ> cp_value) (numeric_series E data column))
      = (\<Sum>i = 0..<?bc. length (filter (\<lambda>v. binIndex E data column v = Fin (of_nat i)) ?vs))"
    unfolding numeric_series_counts by (simp add: interv_sum_list_conv_sum_set_nat)
  also have "\<dots> = length ?vs" using A by (rule hits_partition)
  finally have F: "sum_list (map (count_of \<circ> cp_value) (numeric_series E data column)) = length ?vs" .
  from P D F have S: "\<exists>series. processDataForChart E data column = Inr series
            \<and> map cp_value series =
                 map (\<lambda>i. Count (length (filter (\<lambda>v. binIndex E data column v = Fin (of_nat i)) ?vs))) [0 ..< ?bc]
            \<and> sum_list (map (count_of \<circ> cp_value) series) = length ?vs"
    by blast
  from A G B S show ?thesis by blast
qed

lemma ages_values:
  "chart_values E ages ''age'' = [JNum (Fin 20), JNum (Fin 25), JNum (Fin 30), JNum (Fin 90)]"
  by (simp add: chart_values_def ages_def one_column_def get_prop_def isNaN_def)

lemma ages_first: "ages \<noteq> []" "typeof (get_prop (ages ! 0) ''age'') = ''number''"
  by (simp_all add: ages_def one_column_def get_prop_def)

lemma ages_chart_min: "chart_min E ages ''age'' = Fin 20"
  by (simp add: chart_min_def ages_values Math_min_def)

lemma ages_chart_max: "chart_max E ages ''age'' = Fin 90"
  by (simp add: chart_max_def ages_values Math_max_def)

lemma ages_chart_range: "chart_range E ages ''age'' = Fin 70"
  by (simp add: chart_range_def ages_chart_min ages_chart_max num_sub_def fl_eval)

lemma ages_binCount: "binCount ages ''age'' = 4"
  by (simp add: binCount_def uniqueValues_def ages_def one_column_def get_prop_def)

lemma ages_binSize: "binSize E ages ''age'' = Fin (35 / 2)"
  by (simp add: binSize_def ages_chart_range ages_binCount fl_eval)

lemma ages_indices:
  "map (binIndex E ages ''age'') (chart_values E ages ''age'') = [Fin 0, Fin 0, Fin 0, Fin 3]"
  by (simp add: binIndex_def ages_values ages_chart_min ages_binSize ages_binCount Math_min_def
      num_sub_def fl_eval)

lemma ages_fill_bins: "fill_bins E ages ''age'' = [3, 0, 0, 1]"
  by (simp add: fill_bins_indices ages_indices ages_binCount is_integer_def eval_nat_numeral)

lemma ages_bin_names:
  "map (bin_name E ages ''age'') [0 ..< 4] =
     [''20.00 - 37.50'', ''37.50 - 55.00'', ''55.00 - 72.50'', ''72.50 - 90.00'']"
  by (simp add: eval_nat_numeral bin_name_def ages_chart_min ages_binSize)
     (simp add: fl_eval digits.simps digit_char_def)

lemma ages_numeric_series:
  "numeric_series E ages ''age'' =
     [\<lparr>cp_name = ''20.00 - 37.50'', cp_value = Count 3\<rparr>,
      \<lparr>cp_name = ''37.50 - 55.00'', cp_value = Count 0\<rparr>,
      \<lparr>cp_name = ''55.00 - 72.50'', cp_value = Count 0\<rparr>,
      \<lparr>cp_name = ''72.50 - 90.00'', cp_value = Count 1\<rparr>]"
  by (simp add: numeric_series_points ages_binCount ages_fill_bins ages_bin_names)

lemma ages_processDataForChart:
  "processDataForChart E ages ''age'' =
     (if 4 \<le> argument_limit E then Inr (numeric_series E ages ''age'')
      else Inl (Error (RangeError_message E)))"
  using numeric_branch[OF ages_first(1) _ ages_first(2), of E] by (simp add: ages_values)

theorem numeric_binning_total_witness:
  "ages \<noteq> [] \<and> typeof (get_prop (ages ! 0) ''age'') = ''number''
   \<and> length (chart_values sample_builtins ages ''age'') \<le> argument_limit sample_builtins
   \<and> binSize sample_builtins ages ''age'' = Fin (35 / 2)
   \<and> chart_range sample_builtins ages ''age'' = Fin 70
   \<and> binIndex sample_builtins ages ''age'' (JNum (Fin 90)) = Fin (of_nat (binCount ages ''age'' - 1))
   \<and> (\<exists>series. processDataForChart sample_builtins ages ''age'' = Inr series
         \<and> sum_list (map (count_of \<circ> cp_value) series) = 4)"
proof -
  have h1: "ages \<noteq> []" and h2: "''age'' \<noteq> []"
    and h3: "typeof (get_prop (ages ! 0) ''age'') = ''number''"
    by (simp_all add: ages_first)
  have h4: "length (chart_values sample_builtins ages ''age'') \<le> argument_limit sample_builtins"
    by (simp add: ages_values sample_builtins_def)
  have h5: "binSize sample_builtins ages ''age'' = Fin (35 / 2)" by (rule ages_binSize)
  have h6: "(0::rat) < 35 / 2" by simp
  have mx: "ToNumber sample_builtins (JNum (Fin 90)) = chart_max sample_builtins ages ''age''"
    by (simp add: ages_chart_max)
  have member: "JNum (Fin 90) \<in> set (chart_values sample_builtins ages ''age'')"
    by (simp add: ages_values)
  have len: "length (chart_values sample_builtins ages ''age'') = 4"
    by (simp add: ages_values)
  have rg: "chart_range sample_builtins ages ''age'' = Fin 70" by (rule ages_chart_range)
  have normal: "(1::rat) / 2 ^ 1022 \<le> 70 / of_nat (binCount ages ''age'')"
    by (simp add: ages_binCount)
  note total = numeric_binning_total[OF h1 h2 h3 h4 h5 h6]
  from total obtain r where
    r: "chart_range sample_builtins ages ''age'' = Fin r"
    and l: "1 / 2 ^ 1022 \<le> r / of_nat (binCount ages ''age'') \<longrightarrow>
                 (\<forall>v\<in>set (chart_values sample_builtins ages ''age'').
                    ToNumber sample_builtins v = chart_max sample_builtins ages ''age'' \<longrightarrow>
                    binIndex sample_builtins ages ''age'' v = Fin (of_nat (binCount ages ''age'' - 1)))"
    by blast
  from r rg have "r = 70" by simp
  with l normal member mx
  have last: "binIndex sample_builtins ages ''age'' (JNum (Fin 90)) = Fin (of_nat (binCount ages ''age'' - 1))"
    by blast
  from total obtain series where
    "processDataForChart sample_builtins ages ''age'' = Inr series"
    "sum_list (map (count_of \<circ> cp_value) series) = length (chart_values sample_builtins ages ''age'')"
    by blast
  with len
  have sum: "\<exists>series. processDataForChart sample_builtins ages ''age'' = Inr series
         \<and> sum_list (map (count_of \<circ> cp_value) series) = 4"
    by auto
  from h1 h3 h4 h5 rg last sum show ?thesis by blast
qed

text \<open>
  The indices are computed in doubles, so a value need not fall into the bin whose name
  brackets it: of \<open>0.1\<close>, \<open>0.2\<close> and \<open>0.4\<close> the bin size is a double just above \<open>0.1\<close>, the
  quotient \<open>(0.2 - 0.1) / binSize\<close> is a double just below \<open>1\<close>, and \<open>0.2\<close> is counted in the
  bin named \<open>0.10 - 0.20\<close>.
\<close>

lemma tenths_doubles:
  "fl (1 / 10) = Fin (3602879701896397 / 36028797018963968)"
  "fl (2 / 10) = Fin (3602879701896397 / 18014398509481984)"
  "fl (4 / 10) = Fin (3602879701896397 / 9007199254740992)"
  "fl (1 / 5) = Fin (3602879701896397 / 18014398509481984)"
  "fl (2 / 5) = Fin (3602879701896397 / 9007199254740992)"
  by (simp_all add: fl_eval)

lemma tenths_values:
  "chart_values E tenths ''x'' =
     [JNum (Fin (3602879701896397 / 36028797018963968)), JNum (Fin (3602879701896397 / 18014398509481984)),
      JNum (Fin (3602879701896397 / 9007199254740992))]"
  by (simp add: chart_values_def tenths_def tenths_doubles one_column_def get_prop_def isNaN_def)

lemma tenths_first: "tenths \<noteq> []" "typeof (get_prop (tenths ! 0) ''x'') = ''number''"
  by (simp_all add: tenths_def one_column_def get_prop_def)

lemma tenths_chart_min: "chart_min E tenths ''x'' = Fin (3602879701896397 / 36028797018963968)"
  by (simp add: chart_min_def tenths_values Math_min_def)

lemma tenths_chart_max: "chart_max E tenths ''x'' = Fin (3602879701896397 / 9007199254740992)"
  by (simp add: chart_max_def tenths_values Math_max_def)

lemma tenths_binCount: "binCount tenths ''x'' = 3"
  by (simp add: binCount_def uniqueValues_def tenths_def tenths_doubles one_column_def get_prop_def)

lemma tenths_binSize: "binSize E tenths ''x'' = Fin (7205759403792795 / 72057594037927936)"
  by (simp add: binSize_def chart_range_def tenths_chart_min tenths_chart_max tenths_binCount
      num_sub_def fl_eval)

lemma tenths_indices:
  "map (binIndex E tenths ''x'') (chart_values E tenths ''x'') = [Fin 0, Fin 0, Fin 2]"
  by (simp add: binIndex_def tenths_values tenths_chart_min tenths_binSize tenths_binCount
      Math_min_def num_sub_def fl_eval)

lemma tenths_fill_bins: "fill_bins E tenths ''x'' = [2, 0, 1]"
  by (simp add: fill_bins_indices tenths_indices tenths_binCount is_integer_def eval_nat_numeral)

lemma tenths_bin_names:
  "map (bin_name E tenths ''x'') [0 ..< 3] = [''0.10 - 0.20'', ''0.20 - 0.30'', ''0.30 - 0.40'']"
  by (simp add: eval_nat_numeral bin_name_def tenths_chart_min tenths_binSize)
     (simp add: fl_eval digits.simps digit_char_def)

lemma tenths_series:
  "map (binIndex E tenths ''x'') (chart_values E tenths ''x'') = [Fin 0, Fin 0, Fin 2]
   \<and> processDataForChart E tenths ''x'' =
       (if 3 \<le> argument_limit E
        then Inr [\<lparr>cp_name = ''0.10 - 0.20'', cp_value = Count 2\<rparr>,
                  \<lparr>cp_name = ''0.20 - 0.30'', cp_value = Count 0\<rparr>,
                  \<lparr>cp_name = ''0.30 - 0.40'', cp_value = Count 1\<rparr>]
        else Inl (Error (RangeError_message E)))"
  using numeric_branch[OF tenths_first(1) _ tenths_first(2), of E]
  by (simp add: tenths_indices numeric_series_points tenths_binCount tenths_fill_bins
      tenths_bin_names) (simp add: tenths_values)

text \<open>The double that \<open>1.005\<close> stands for lies below \<open>1.005\<close> and prints as \<open>1.00\<close>.\<close>

lemma toFixed2_rounds_the_double: "toFixed2 E (fl (201 / 200)) = ''1.00''"
  by (simp add: fl_eval digits.simps digit_char_def)

text \<open>
  The claim as it was stated covers every column with a finite value and a positive
  range. The filter keeps \<open>Infinity\<close>: in \<open>[1, 2, Infinity]\<close> the bin size is infinite, both
  finite values fall into bin \<open>0\<close> of three, and the maximum gets the index \<open>NaN\<close> and is
  counted nowhere. And the range of finite values can overflow: of the greatest finite
  double and its negative the range is \<open>Infinity\<close>, and the greater value, finite as it
  is, gets the index \<open>NaN\<close>.
\<close>

lemma max_double_facts:
  "0 < max_double" "max_double \<noteq> 0" "- max_double < max_double" "max_double \<noteq> - max_double" "- max_double \<noteq> max_double"
  "min (- max_double) max_double = - max_double" "max (- max_double) max_double = max_double"
  "min max_double (- max_double) = - max_double" "max max_double (- max_double) = max_double"
  by (simp_all add: max_double_def)

lemma fl_twice_max_double: "fl (max_double + max_double) = PosInf" "fl (2 * max_double) = PosInf"
  by (rule fl_overflow, simp add: max_double_def)+

lemma fl_zero: "fl 0 = Fin 0"
  by (simp add: fl_def)

theorem numeric_binning_infinity_counterexample:
  "typeof (get_prop (one_column ''x'' [JNum (Fin 1), JNum (Fin 2), JNum PosInf] ! 0) ''x'') = ''number''
   \<and> chart_range sample_builtins (one_column ''x'' [JNum (Fin 1), JNum (Fin 2), JNum PosInf]) ''x'' = PosInf
   \<and> chart_max sample_builtins (one_column ''x'' [JNum (Fin 1), JNum (Fin 2), JNum PosInf]) ''x'' = PosInf
   \<and> binCount (one_column ''x'' [JNum (Fin 1), JNum (Fin 2), JNum PosInf]) ''x'' = 3
   \<and> binIndex sample_builtins (one_column ''x'' [JNum (Fin 1), JNum (Fin 2), JNum PosInf]) ''x'' (JNum PosInf) = NaN
   \<and> binIndex sample_builtins (one_column ''x'' [JNum (Fin 1), JNum (Fin 2), JNum PosInf]) ''x'' (JNum (Fin 2)) = Fin 0
   \<and> map_sum id (map cp_value)
       (processDataForChart sample_builtins (one_column ''x'' [JNum (Fin 1), JNum (Fin 2), JNum PosInf]) ''x'')
       = Inr [Count 2, Count 0, Count 0]
   \<and> chart_values sample_builtins (one_column ''x'' [JNum (Fin (- max_double)), JNum (Fin max_double)]) ''x''
       = [JNum (Fin (- max_double)), JNum (Fin max_double)]
   \<and> chart_range sample_builtins (one_column ''x'' [JNum (Fin (- max_double)), JNum (Fin max_double)]) ''x'' = PosInf
   \<and> binIndex sample_builtins (one_column ''x'' [JNum (Fin (- max_double)), JNum (Fin max_double)]) ''x''
       (JNum (Fin max_double)) = NaN
   \<and> map_sum id (map cp_value)
       (processDataForChart sample_builtins (one_column ''x'' [JNum (Fin (- max_double)), JNum (Fin max_double)]) ''x'')
       = Inr [Count 1, Count 0]"
proof -
  have a: "typeof (get_prop (one_column ''x'' [JNum (Fin 1), JNum (Fin 2), JNum PosInf] ! 0) ''x'') = ''number''
   \<and> chart_range sample_builtins (one_column ''x'' [JNum (Fin 1), JNum (Fin 2), JNum PosInf]) ''x'' = PosInf
   \<and> chart_max sample_builtins (one_column ''x'' [JNum (Fin 1), JNum (Fin 2), JNum PosInf]) ''x'' = PosInf
   \<and> binCount (one_column ''x'' [JNum (Fin 1), JNum (Fin 2), JNum PosInf]) ''x'' = 3
   \<and> binIndex sample_builtins (one_column ''x'' [JNum (Fin 1), JNum (Fin 2), JNum PosInf]) ''x'' (JNum PosInf) = NaN
   \<and> binIndex sample_builtins (one_column ''x'' [JNum (Fin 1), JNum (Fin 2), JNum PosInf]) ''x'' (JNum (Fin 2)) = Fin 0
   \<and> map_sum id (map cp_value)
       (processDataForChart sample_builtins (one_column ''x'' [JNum (Fin 1), JNum (Fin 2), JNum PosInf]) ''x'')
       = Inr [Count 2, Count 0, Count 0]"
    by (simp add: numeric_eval sample_builtins_def)
  have b: "chart_values sample_builtins (one_column ''x'' [JNum (Fin (- max_double)), JNum (Fin max_double)]) ''x''
       = [JNum (Fin (- max_double)), JNum (Fin max_double)]
   \<and> chart_range sample_builtins (one_column ''x'' [JNum (Fin (- max_double)), JNum (Fin max_double)]) ''x'' = PosInf
   \<and> binIndex sample_builtins (one_column ''x'' [JNum (Fin (- max_double)), JNum (Fin max_double)]) ''x''
       (JNum (Fin max_double)) = NaN
   \<and> map_sum id (map cp_value)
       (processDataForChart sample_builtins (one_column ''x'' [JNum (Fin (- max_double)), JNum (Fin max_double)]) ''x'')
       = Inr [Count 1, Count 0]"
    by (simp add: processDataForChart_def numeric_series_def fill_bins_def binCount_def
      uniqueValues_def one_column_def get_prop_def chart_values_def isNaN_def binIndex_def
      chart_min_def Math_min_def binSize_def chart_range_def chart_max_def Math_max_def num_sub_def
      is_integer_def max_double_facts fl_twice_max_double fl_zero sample_builtins_def)
  from a b show ?thesis by (simp only: simp_thms)
qed

lemma ages_counts: "map cp_value (numeric_series E ages ''age'') = [Count 3, Count 0, Count 0, Count 1]"
  by (simp add: ages_numeric_series)

text \<open>
  Claim C4, as amended. For the four ages \<open>20, 25, 30, 90\<close> the minimum is \<open>20\<close>, the maximum
  \<open>90\<close>, there are four bins of size \<open>17.5\<close>, and \<open>90\<close> is clamped into the last one; \<open>30\<close> lies
  below \<open>37.5\<close>, so the counts are \<open>3, 0, 0, 1\<close>. (Every number that occurs is a double, and
  no operation rounds. The series is returned by every engine that passes four
  arguments.)
\<close>

theorem ages_series:
  "chart_min E ages ''age'' = Fin 20 \<and> chart_max E ages ''age'' = Fin 90
   \<and> binCount ages ''age'' = 4 \<and> binSize E ages ''age'' = Fin (35 / 2)
   \<and> map (binIndex E ages ''age'') (chart_values E ages ''age'') = [Fin 0, Fin 0, Fin 0, Fin 3]
   \<and> Math_floor (num_div (num_sub (Fin 90) (chart_min E ages ''age'')) (binSize E ages ''age'')) = Fin 4
   \<and> processDataForChart E ages ''age'' =
        (if 4 \<le> argument_limit E
         then Inr [\<lparr>cp_name = ''20.00 - 37.50'', cp_value = Count 3\<rparr>,
                   \<lparr>cp_name = ''37.50 - 55.00'', cp_value = Count 0\<rparr>,
                   \<lparr>cp_name = ''55.00 - 72.50'', cp_value = Count 0\<rparr>,
                   \<lparr>cp_name = ''72.50 - 90.00'', cp_value = Count 1\<rparr>]
         else Inl (Error (RangeError_message E)))"
  by (simp add: ages_chart_min ages_chart_max ages_binCount ages_binSize ages_indices
      ages_processDataForChart ages_numeric_series num_sub_def fl_eval)

theorem ages_counts_counterexample:
  "map_sum id (map cp_value) (processDataForChart sample_builtins ages ''age'')
     \<noteq> Inr [Count 2, Count 0, Count 0, Count 2]"
  by (simp add: ages_processDataForChart ages_numeric_series sample_builtins_def)

text \<open>
  Claim C1 at a column whose two values are both \<open>5\<close>: the range is \<open>0\<close>, so is the bin size,
  and the division \<open>0 / 0\<close> is not guarded. Each value gets the index \<open>NaN\<close>, which is no
  position of the array, and the single bin of the series counts none of them. (This is
  what every engine returns that passes two arguments.)
\<close>

theorem zero_range_series:
  "chart_range E (one_column ''x'' [JNum (Fin 5), JNum (Fin 5)]) ''x'' = Fin 0
   \<and> binSize E (one_column ''x'' [JNum (Fin 5), JNum (Fin 5)]) ''x'' = Fin 0
   \<and> binIndex E (one_column ''x'' [JNum (Fin 5), JNum (Fin 5)]) ''x'' (JNum (Fin 5)) = NaN
   \<and> processDataForChart E (one_column ''x'' [JNum (Fin 5), JNum (Fin 5)]) ''x''
        = (if 2 \<le> argument_limit E
           then Inr [\<lparr>cp_name = ''5.00 - 5.00'', cp_value = Count 0\<rparr>]
           else Inl (Error (RangeError_message E)))"
  by (simp add: numeric_eval)


section \<open>Tables of counts\<close>

text \<open>A \<open>Map\<close> that counts keys.\<close>

lemma keys_map_increment:
  "map fst (map_increment acc k) = (if k \<in> fst ` set acc then map fst acc else map fst acc @ [k])"
  by (induction acc) (auto split: if_splits)

lemma map_of_map_increment:
  "map_of (map_increment acc k) =
     (map_of acc)(k \<mapsto> (case map_of acc k of None \<Rightarrow> 1 | Some n \<Rightarrow> n + 1))"
  by (induction acc) (auto simp: fun_eq_iff)

lemma first_seen_filter: "first_seen (filter Q xs) = filter Q (first_seen xs)"
proof (induction xs)
  case Nil then show ?case by simp
next
  case (Cons x xs)
  show ?case
  proof (cases "Q x")
    case True
    with Cons show ?thesis by (simp add: conj_commute)
  next
    case False
    then have "filter Q (filter (\<lambda>y. y \<noteq> x) (first_seen xs)) = filter Q (first_seen xs)"
      by (auto intro: filter_cong)
    with False Cons show ?thesis by simp
  qed
qed

lemma set_first_seen: "set (first_seen xs) = set xs"
  by (induction xs) auto

lemma distinct_first_seen: "distinct (first_seen xs)"
  by (induction xs) (auto simp: set_first_seen)

lemma length_first_seen: "length (first_seen xs) = card (set xs)"
  by (metis distinct_card distinct_first_seen set_first_seen)

lemma keys_foldl_map_increment:
  "map fst (foldl map_increment acc ks) =
     map fst acc @ first_seen (filter (\<lambda>k. k \<notin> fst ` set acc) ks)"
proof (induction ks arbitrary: acc)
  case Nil then show ?case by simp
next
  case (Cons k ks)
  show ?case
  proof (cases "k \<in> fst ` set acc")
    case True
    then have "fst ` set (map_increment acc k) = fst ` set acc"
      using keys_map_increment[of acc k] by (metis set_map)
    with True Cons[of "map_increment acc k"] show ?thesis
      by (simp add: keys_map_increment)
  next
    case False
    then have s: "fst ` set (map_increment acc k) = insert k (fst ` set acc)"
      using keys_map_increment[of acc k] by (metis Un_insert_right list.set(1,2) set_append set_map sup_bot.right_neutral)
    have "filter (\<lambda>x. x \<notin> insert k (fst ` set acc)) ks
        = filter (\<lambda>y. y \<noteq> k) (filter (\<lambda>k. k \<notin> fst ` set acc) ks)"
      by (auto intro: filter_cong)
    with False Cons[of "map_increment acc k"] s show ?thesis
      by (simp add: keys_map_increment first_seen_filter conj_commute)
  qed
qed

lemma map_of_foldl_map_increment:
  "map_of (foldl map_increment acc ks) k =
     (case map_of acc k of
        None \<Rightarrow> if count_list ks k = 0 then None else Some (count_list ks k)
      | Some n \<Rightarrow> Some (n + count_list ks k))"
proof (induction ks arbitrary: acc)
  case Nil then show ?case by (simp split: option.split)
next
  case (Cons x ks)
  show ?case
    by (simp add: Cons map_of_map_increment split: option.split)
qed

lemma tally_keys: "map fst (foldl map_increment [] ks) = first_seen ks"
  by (simp add: keys_foldl_map_increment)

lemma tally_entry:
  assumes "(k, n) \<in> set (foldl map_increment [] ks)"
  shows "n = count_list ks k \<and> k \<in> set ks"
proof -
  have "distinct (map fst (foldl map_increment [] ks))"
    by (simp add: tally_keys distinct_first_seen)
  with assms have "map_of (foldl map_increment [] ks) k = Some n" by simp
  then have "(if count_list ks k = 0 then None else Some (count_list ks k)) = Some n"
    by (simp add: map_of_foldl_map_increment)
  then have "n = count_list ks k" by (simp split: if_splits)
  moreover have "k \<in> set ks"
    using assms tally_keys[of ks] set_first_seen[of ks]
    by (metis fst_conv image_eqI set_map)
  ultimately show ?thesis by simp
qed

lemma tally_has_entry:
  assumes "k \<in> set ks"
  shows "(k, count_list ks k) \<in> set (foldl map_increment [] ks)"
proof -
  from assms have "count_list ks k \<noteq> 0" by (simp add: count_list_0_iff)
  then have "map_of (foldl map_increment [] ks) k = Some (count_list ks k)"
    by (simp add: map_of_foldl_map_increment)
  then show ?thesis by (rule map_of_SomeD)
qed


section \<open>The order of the entries\<close>

lemma sorted_wrt_first_seen:
  "sorted_wrt (\<lambda>a b. first_index ls a < first_index ls b) (first_seen ls)"
proof (induction ls)
  case Nil then show ?case by simp
next
  case (Cons x ls)
  have "sorted_wrt (\<lambda>a b. first_index ls a < first_index ls b) (filter (\<lambda>y. y \<noteq> x) (first_seen ls))"
    using Cons by (rule sorted_wrt_filter)
  then have "sorted_wrt (\<lambda>a b. first_index (x # ls) a < first_index (x # ls) b)
               (filter (\<lambda>y. y \<noteq> x) (first_seen ls))"
    by (rule sorted_wrt_mono_rel[rotated]) auto
  then show ?case by auto
qed

lemma set_Object_entries: "set (Object_entries obj) = set obj"
  by (auto simp: Object_entries_def)

lemma length_Object_entries: "length (Object_entries obj) = length obj"
proof -
  have "length (Object_entries obj)
      = length (filter (\<lambda>(k, n). array_index k \<noteq> None) obj)
        + length (filter (\<lambda>p. \<not> (case p of (k, n) \<Rightarrow> array_index k \<noteq> None)) obj)"
    by (simp add: Object_entries_def case_prod_unfold)
  then show ?thesis by (simp only: sum_length_filter_compl)
qed

lemma sorted_wrt_Object_entries:
  assumes "map fst obj = first_seen ls"
  shows "sorted_wrt (\<lambda>p q. key_before ls (fst p) (fst q)) (Object_entries obj)"
proof -
  let ?ix = "filter (\<lambda>(k, n). array_index k \<noteq> None) obj"
  let ?nx = "filter (\<lambda>(k, n). array_index k = None) obj"
  have "sorted (map (\<lambda>(k, n). index_of_key k) (sort_key (\<lambda>(k, n). index_of_key k) ?ix))"
    by (rule sorted_sort_key)
  then have "sorted_wrt (\<lambda>p q. index_of_key (fst p) \<le> index_of_key (fst q))
               (sort_key (\<lambda>(k, n). index_of_key k) ?ix)"
    by (simp add: sorted_map case_prod_unfold)
  then have one: "sorted_wrt (\<lambda>p q. key_before ls (fst p) (fst q)) (sort_key (\<lambda>(k, n). index_of_key k) ?ix)"
    by (rule sorted_wrt_mono_rel[rotated]) (auto simp: key_before_def index_of_key_def)
  have "sorted_wrt (\<lambda>a b. first_index ls a < first_index ls b) (map fst obj)"
    unfolding assms by (rule sorted_wrt_first_seen)
  then have "sorted_wrt (\<lambda>p q. first_index ls (fst p) < first_index ls (fst q)) obj"
    by (simp add: sorted_wrt_map)
  then have "sorted_wrt (\<lambda>p q. first_index ls (fst p) < first_index ls (fst q)) ?nx"
    by (rule sorted_wrt_filter)
  then have two: "sorted_wrt (\<lambda>p q. key_before ls (fst p) (fst q)) ?nx"
    by (rule sorted_wrt_mono_rel[rotated]) (auto simp: key_before_def)
  have three: "\<forall>p\<in>set (sort_key (\<lambda>(k, n). index_of_key k) ?ix). \<forall>q\<in>set ?nx. key_before ls (fst p) (fst q)"
    by (auto simp: key_before_def)
  from one two three show ?thesis
    unfolding Object_entries_def sorted_wrt_append by blast
qed

lemma insort_key_lex:
  assumes "sorted_wrt (\<lambda>p q. f p < f q \<or> (f p = f q \<and> before p q)) ys"
    and "\<forall>y\<in>set ys. before x y"
  shows "sorted_wrt (\<lambda>p q. f p < f q \<or> (f p = f q \<and> before p q)) (insort_key f x ys)"
  using assms
proof (induction ys)
  case Nil then show ?case by simp
next
  case (Cons y ys)
  show ?case
  proof (cases "f x \<le> f y")
    case True
    have "f x < f z \<or> (f x = f z \<and> before x z)" if "z \<in> set (y # ys)" for z
    proof -
      have "f y \<le> f z" using Cons.prems(1) that by auto
      with True have "f x \<le> f z" by simp
      moreover have "before x z" using Cons.prems(2) that by auto
      ultimately show ?thesis by auto
    qed
    with True Cons.prems(1) show ?thesis by simp
  next
    case False
    have "sorted_wrt (\<lambda>p q. f p < f q \<or> (f p = f q \<and> before p q)) (insort_key f x ys)"
      using Cons by simp
    moreover have "\<forall>z\<in>set (insort_key f x ys). f y < f z \<or> (f y = f z \<and> before y z)"
      using False Cons.prems(1) by (auto simp: set_insort_key)
    ultimately show ?thesis using False by simp
  qed
qed

lemma sort_key_lex:
  fixes f :: "'a \<Rightarrow> 'k::linorder"
  assumes "sorted_wrt before xs"
  shows "sorted_wrt (\<lambda>p q. f p < f q \<or> (f p = f q \<and> before p q)) (sort_key f xs)"
  using assms
proof (induction xs)
  case Nil then show ?case by simp
next
  case (Cons x xs)
  then have "sorted_wrt (\<lambda>p q. f p < f q \<or> (f p = f q \<and> before p q)) (sort_key f xs)"
    and "\<forall>y\<in>set (sort_key f xs). before x y" by simp_all
  then show ?case by (simp add: insort_key_lex)
qed



text \<open>
  The table kept in a plain object agrees with the \<open>Map\<close> as long as no key names a member
  of \<open>Object.prototype\<close>.
\<close>

lemma map_of_as_counts: "map_of (as_counts m) k = map_option Count (map_of m k)"
  by (induction m) (auto simp: as_counts_def)

lemma plus_one_plain:
  assumes "Object_prototype k = None"
  shows "plus_one E (as_counts m) k = Count (case map_of m k of None \<Rightarrow> 1 | Some n \<Rightarrow> n + 1)"
  using assms by (simp add: plus_one_def map_of_as_counts split: option.split)

lemma not_proto: "Object_prototype k = None \<Longrightarrow> k \<noteq> ''__proto__''"
  by (auto simp: Object_prototype_def)

lemma obj_set_plain:
  assumes "k \<noteq> ''__proto__''"
  shows "obj_set (as_counts m) k (Count (case map_of m k of None \<Rightarrow> 1 | Some n \<Rightarrow> n + 1))
           = as_counts (map_increment m k)"
  using assms by (induction m) (auto simp: as_counts_def)

lemma obj_increment_plain:
  assumes "Object_prototype k = None"
  shows "obj_increment E (as_counts m) k = as_counts (map_increment m k)"
  unfolding obj_increment_def plus_one_plain[OF assms]
  by (rule obj_set_plain) (rule not_proto[OF assms])

lemma foldl_obj_increment_plain:
  assumes "\<forall>k\<in>set ks. Object_prototype k = None"
  shows "foldl (obj_increment E) (as_counts m) ks = as_counts (foldl map_increment m ks)"
  using assms by (induction ks arbitrary: m) (simp_all add: obj_increment_plain)




section \<open>The ranking of labels\<close>

lemma insort_key_map: "insort_key f (g x) (map g ys) = map g (insort_key (\<lambda>a. f (g a)) x ys)"
  by (induction ys) simp_all

lemma sort_key_map: "sort_key f (map g xs) = map g (sort_key (\<lambda>a. f (g a)) xs)"
  by (induction xs) (simp_all add: insort_key_map)

lemma Object_entries_as_counts: "Object_entries (as_counts m) = as_counts (Object_entries m)"
proof -
  have "sort_key (\<lambda>(k, n). index_of_key k) (map (\<lambda>(k, n). (k, Count n)) xs)
      = map (\<lambda>(k, n). (k, Count n)) (sort_key (\<lambda>(k, n). index_of_key k) xs)" for xs :: "(string \<times> nat) list"
    by (simp add: sort_key_map comp_def case_prod_unfold)
  then show ?thesis
    by (simp add: Object_entries_def as_counts_def filter_map comp_def case_prod_unfold)
qed

lemma points_as_counts:
  "map (\<lambda>(name, value). \<lparr>cp_name = name, cp_value = value\<rparr>) (as_counts m) = map count_point m"
  by (simp add: as_counts_def count_point_def case_prod_unfold)

lemma sort_by_value_counts:
  "sort_by_value E (map count_point m) = map count_point (sort_key (\<lambda>e. - int (snd e)) m)"
proof -
  have "list_all (\<lambda>p. is_count (cp_value p)) (map count_point m)"
    by (simp add: list_all_iff count_point_def)
  then show ?thesis
    by (simp add: sort_by_value_def sort_key_map comp_def count_point_def)
qed

lemma labels_groupedData:
  "groupedData E data column = foldl (obj_increment E) [] (labels E data column)"
  by (simp add: groupedData_def labels_def foldl_map)

text \<open>With plain labels, the series is the ranking of the labels, cut after ten.\<close>

lemma categorical_series_ranking:
  assumes "\<forall>l\<in>set (labels E data column). Object_prototype l = None"
  shows "categorical_series E data column = map count_point (take 10 (ranking (labels E data column)))"
proof -
  have "groupedData E data column = as_counts (foldl map_increment [] (labels E data column))"
    using foldl_obj_increment_plain[OF assms, of E "[]"] by (simp add: labels_groupedData as_counts_def)
  then show ?thesis
    by (simp add: categorical_series_def Object_entries_as_counts points_as_counts
        sort_by_value_counts ranking_def take_map)
qed

lemma set_ranking: "set (ranking ls) = (\<lambda>l. (l, count_list ls l)) ` set ls"
proof -
  have "set (ranking ls) = set (foldl map_increment [] ls)"
    by (simp add: ranking_def set_Object_entries)
  also have "\<dots> = (\<lambda>l. (l, count_list ls l)) ` set ls"
  proof (intro set_eqI iffI)
    fix e assume "e \<in> set (foldl map_increment [] ls)"
    then have "(fst e, snd e) \<in> set (foldl map_increment [] ls)" by simp
    from tally_entry[OF this] show "e \<in> (\<lambda>l. (l, count_list ls l)) ` set ls"
      by (metis (mono_tags, lifting) image_eqI prod.collapse)
  next
    fix e assume "e \<in> (\<lambda>l. (l, count_list ls l)) ` set ls"
    then obtain l where l: "l \<in> set ls" "e = (l, count_list ls l)" by auto
    from tally_has_entry[OF l(1)] l(2) show "e \<in> set (foldl map_increment [] ls)" by simp
  qed
  finally show ?thesis .
qed

lemma length_ranking: "length (ranking ls) = card (set ls)"
proof -
  have "length (foldl map_increment [] ls) = length (map fst (foldl map_increment [] ls))" by simp
  also have "\<dots> = card (set ls)" by (simp only: tally_keys length_first_seen)
  finally show ?thesis by (simp add: ranking_def length_Object_entries)
qed

lemma distinct_ranking: "distinct (map fst (ranking ls))"
proof -
  have "set (map fst (ranking ls)) = set ls" by (force simp: set_ranking)
  then have "card (set (map fst (ranking ls))) = length (map fst (ranking ls))"
    by (simp add: length_ranking)
  then show ?thesis by (rule card_distinct)
qed

lemma sorted_ranking: "sorted_wrt (ranks_before ls) (ranking ls)"
proof -
  have "map fst (foldl map_increment [] ls) = first_seen ls" by (rule tally_keys)
  then have "sorted_wrt (\<lambda>p q. key_before ls (fst p) (fst q)) (Object_entries (foldl map_increment [] ls))"
    by (rule sorted_wrt_Object_entries)
  then have "sorted_wrt (\<lambda>p q. - int (snd p) < - int (snd q)
                \<or> (- int (snd p) = - int (snd q) \<and> key_before ls (fst p) (fst q)))
               (sort_key (\<lambda>e. - int (snd e)) (Object_entries (foldl map_increment [] ls)))"
    by (rule sort_key_lex)
  then show ?thesis
    unfolding ranking_def by (rule sorted_wrt_mono_rel[rotated]) (auto simp: ranks_before_def)
qed

text \<open>A label that the cut leaves out ranks after every label that it keeps.\<close>

lemma ranking_cut:
  assumes "l \<in> set ls" and "l \<notin> fst ` set (take n (ranking ls))" and "e \<in> set (take n (ranking ls))"
  shows "ranks_before ls e (l, count_list ls l)"
proof -
  have "sorted_wrt (ranks_before ls) (take n (ranking ls) @ drop n (ranking ls))"
    using sorted_ranking[of ls] by simp
  then have cross: "\<forall>x\<in>set (take n (ranking ls)). \<forall>y\<in>set (drop n (ranking ls)). ranks_before ls x y"
    unfolding sorted_wrt_append by blast
  have "(l, count_list ls l) \<in> set (ranking ls)" using assms(1) by (auto simp: set_ranking)
  then have "(l, count_list ls l) \<in> set (take n (ranking ls)) \<union> set (drop n (ranking ls))"
    by (metis append_take_drop_id set_append)
  moreover have "(l, count_list ls l) \<notin> set (take n (ranking ls))"
    using assms(2) by force
  ultimately have "(l, count_list ls l) \<in> set (drop n (ranking ls))" by blast
  with cross assms(3) show ?thesis by blast
qed

section \<open>The claims about the ranking\<close>


lemma count_list_map: "count_list (map f xs) y = length (filter (\<lambda>x. f x = y) xs)"
  by (induction xs) auto

lemma categorical_branch:
  assumes "data \<noteq> []" and "column \<noteq> []" and "typeof (get_prop (data ! 0) column) \<noteq> ''number''"
  shows "processDataForChart E data column = Inr (categorical_series E data column)"
  using assms by (simp add: processDataForChart_def)

lemma series_order_count_point: "series_order ls (count_point a) (count_point b) = ranks_before ls a b"
  by (simp add: series_order_def count_point_def)

text \<open>What the series of plain labels is, point by point.\<close>

lemma ranked_series:
  fixes ls :: "string list"
  defines "series \<equiv> map count_point (take 10 (ranking ls))"
  shows "\<forall>p\<in>set series. cp_name p \<in> set ls \<and> cp_value p = Count (count_list ls (cp_name p))"
    and "distinct (map cp_name series)"
    and "length series = min 10 (card (set ls))"
    and "\<forall>l\<in>set ls. l \<notin> cp_name ` set series \<longrightarrow>
           (\<forall>p\<in>set series. series_order ls p \<lparr>cp_name = l, cp_value = Count (count_list ls l)\<rparr>)"
    and "sorted_wrt (series_order ls) series"
proof -
  show "\<forall>p\<in>set series. cp_name p \<in> set ls \<and> cp_value p = Count (count_list ls (cp_name p))"
  proof
    fix p assume "p \<in> set series"
    then obtain e where e: "e \<in> set (take 10 (ranking ls))" "p = count_point e"
      by (auto simp: series_def)
    from e(1) have "e \<in> set (ranking ls)" by (rule in_set_takeD)
    then obtain l where "l \<in> set ls" "e = (l, count_list ls l)" by (auto simp: set_ranking)
    with e(2) show "cp_name p \<in> set ls \<and> cp_value p = Count (count_list ls (cp_name p))"
      by (simp add: count_point_def)
  qed
  have names: "map cp_name series = take 10 (map fst (ranking ls))"
    by (simp add: series_def count_point_def take_map comp_def)
  show "distinct (map cp_name series)"
    unfolding names using distinct_ranking[of ls] by (rule distinct_take)
  show "length series = min 10 (card (set ls))"
    by (simp add: series_def length_ranking min.commute)
  show "\<forall>l\<in>set ls. l \<notin> cp_name ` set series \<longrightarrow>
           (\<forall>p\<in>set series. series_order ls p \<lparr>cp_name = l, cp_value = Count (count_list ls l)\<rparr>)"
  proof (intro ballI impI)
    fix l p assume l: "l \<in> set ls" and out: "l \<notin> cp_name ` set series" and p: "p \<in> set series"
    from p obtain e where e: "e \<in> set (take 10 (ranking ls))" "p = count_point e"
      by (auto simp: series_def)
    have "cp_name ` set series = fst ` set (take 10 (ranking ls))"
      by (force simp: series_def count_point_def)
    with out have "l \<notin> fst ` set (take 10 (ranking ls))" by simp
    from ranking_cut[OF l this e(1)]
    have "series_order ls (count_point e) (count_point (l, count_list ls l))"
      by (simp only: series_order_count_point)
    then show "series_order ls p \<lparr>cp_name = l, cp_value = Count (count_list ls l)\<rparr>"
      by (simp add: e(2) count_point_def)
  qed
  have "sorted_wrt (ranks_before ls) (take 10 (ranking ls))"
    using sorted_ranking[of ls] by (rule sorted_wrt_take)
  then show "sorted_wrt (series_order ls) series"
    by (simp add: series_def sorted_wrt_map series_order_count_point)
qed


lemma array_index_evals:
  "array_index ''a'' = None" "array_index ''b'' = None" "array_index ''c'' = None" "array_index ''d'' = None"
  "array_index ''e'' = None" "array_index ''f'' = None" "array_index ''g'' = None" "array_index ''h'' = None"
  "array_index ''i'' = None" "array_index ''j'' = None" "array_index ''k'' = None" "array_index ''x'' = None"
  "array_index ''undefined'' = None"
  "array_index ''9'' = Some 9" "array_index ''10'' = Some 10" "array_index ''1'' = Some 1" "array_index ''2'' = Some 2"
  by (simp_all add: array_index_def is_digit_def decimal_value_def digit_value_def)

lemma array_index_no_digit: "\<not> is_digit c \<Longrightarrow> array_index (c # s) = None"
  by (simp add: array_index_def)

lemmas categorical_eval =
  processDataForChart_def categorical_series_def groupedData_def obj_increment_def plus_one_def
  Object_prototype_def sort_by_value_def label_def nullish_def
  Object_entries_def one_column_def get_prop_def index_of_key_def array_index_evals
  array_index_no_digit is_digit_def










text \<open>
  Claim C10, as amended. For a non-empty dataset and column name the branch is chosen by
  the type of the first row's value alone (the function is not given the declared type of
  the column). When it is a number, the histogram is built: one point for each bin, named
  by the bounds of the bin, whose value is the number of kept values with that index
  (unless the kept values are more than the engine passes as arguments). Otherwise the
  labels are ranked, whatever the types of the values. A row whose value is \<open>null\<close> or
  \<open>undefined\<close> has the label \<open>undefined\<close>; that is the label of a row that lacks the column
  when the column does not have the name of a member of \<open>Object.prototype\<close>. When no label
  is such a name, every point counts the rows with its label, and when there are at most
  ten labels, every row is counted by a point.
\<close>

theorem branch_by_first_value:
  assumes "data \<noteq> []" and "column \<noteq> []"
  shows "(typeof (get_prop (data ! 0) column) = ''number'' \<longrightarrow>
            processDataForChart E data column =
              (if length (chart_values E data column) \<le> argument_limit E
               then Inr (numeric_series E data column)
               else Inl (Error (RangeError_message E)))
          \<and> map cp_name (numeric_series E data column)
              = map (bin_name E data column) [0 ..< binCount data column]
          \<and> map cp_value (numeric_series E data column)
              = map (\<lambda>i. Count (length (filter (\<lambda>v. binIndex E data column v = Fin (of_nat i))
                                         (chart_values E data column)))) [0 ..< binCount data column])
       \<and> (typeof (get_prop (data ! 0) column) \<noteq> ''number'' \<longrightarrow>
            processDataForChart E data column = Inr (categorical_series E data column)
          \<and> (\<forall>item\<in>set data. get_prop item column = JUndefined \<or> get_prop item column = JNull \<longrightarrow>
                label E column item = ''undefined'')
          \<and> (Object_prototype column = None \<longrightarrow>
                (\<forall>item\<in>set data. item column = None \<longrightarrow> label E column item = ''undefined''))
          \<and> ((\<forall>item\<in>set data. Object_prototype (label E column item) = None) \<longrightarrow>
                (\<forall>p\<in>set (categorical_series E data column).
                    cp_value p = Count (length (filter (\<lambda>item. label E column item = cp_name p) data)))
              \<and> (card (label E column ` set data) \<le> 10 \<longrightarrow>
                    (\<forall>item\<in>set data. \<exists>p\<in>set (categorical_series E data column).
                        cp_name p = label E column item))))"
proof (intro conjI impI)
  assume "typeof (get_prop (data ! 0) column) = ''number''"
  with assms show "processDataForChart E data column =
              (if length (chart_values E data column) \<le> argument_limit E
               then Inr (numeric_series E data column)
               else Inl (Error (RangeError_message E)))"
    by (simp add: processDataForChart_def)
  show "map cp_name (numeric_series E data column) = map (bin_name E data column) [0 ..< binCount data column]"
    by (rule numeric_series_names)
  show "map cp_value (numeric_series E data column)
              = map (\<lambda>i. Count (length (filter (\<lambda>v. binIndex E data column v = Fin (of_nat i))
                                         (chart_values E data column)))) [0 ..< binCount data column]"
    by (rule numeric_series_values)
next
  assume "typeof (get_prop (data ! 0) column) \<noteq> ''number''"
  with assms show "processDataForChart E data column = Inr (categorical_series E data column)"
    by (rule categorical_branch)
  show "\<forall>item\<in>set data. get_prop item column = JUndefined \<or> get_prop item column = JNull \<longrightarrow>
          label E column item = ''undefined''"
    by (auto simp: label_def nullish_def)
next
  assume "Object_prototype column = None"
  then show "\<forall>item\<in>set data. item column = None \<longrightarrow> label E column item = ''undefined''"
    by (auto simp: label_def nullish_def get_prop_def)
next
  assume "\<forall>item\<in>set data. Object_prototype (label E column item) = None"
  then have plain: "\<forall>l\<in>set (labels E data column). Object_prototype l = None"
    by (simp add: labels_def)
  note S = categorical_series_ranking[OF plain]
  note r = ranked_series[of "labels E data column"]
  show "\<forall>p\<in>set (categorical_series E data column).
          cp_value p = Count (length (filter (\<lambda>item. label E column item = cp_name p) data))"
    unfolding S using r(1) by (simp add: labels_def count_list_map)
  assume few: "card (label E column ` set data) \<le> 10"
  show "\<forall>item\<in>set data. \<exists>p\<in>set (categorical_series E data column). cp_name p = label E column item"
  proof
    fix item assume "item \<in> set data"
    then have l: "label E column item \<in> set (labels E data column)" by (simp add: labels_def)
    have "length (ranking (labels E data column)) \<le> 10"
      using few by (simp add: length_ranking labels_def)
    then have "categorical_series E data column = map count_point (ranking (labels E data column))"
      unfolding S by simp
    moreover have "(label E column item, count_list (labels E data column) (label E column item))
        \<in> set (ranking (labels E data column))"
      using l by (auto simp: set_ranking)
    ultimately show "\<exists>p\<in>set (categorical_series E data column). cp_name p = label E column item"
      by (force simp: count_point_def)
  qed
qed

lemma mixed_series:
  "categorical_series sample_builtins (one_column ''x'' [JUndefined, JNum (Fin 1), JNum (Fin 2)]) ''x''
       = [\<lparr>cp_name = ''1'', cp_value = Count 1\<rparr>, \<lparr>cp_name = ''2'', cp_value = Count 1\<rparr>,
          \<lparr>cp_name = ''undefined'', cp_value = Count 1\<rparr>]"
  by (simp add: categorical_eval is_integer_def digits.simps digit_char_def)

theorem branch_by_first_value_witness:
  "one_column ''x'' [JUndefined, JNum (Fin 1), JNum (Fin 2)] \<noteq> []
   \<and> typeof (get_prop (one_column ''x'' [JUndefined, JNum (Fin 1), JNum (Fin 2)] ! 0) ''x'') \<noteq> ''number''
   \<and> processDataForChart sample_builtins (one_column ''x'' [JUndefined, JNum (Fin 1), JNum (Fin 2)]) ''x''
       = Inr [\<lparr>cp_name = ''1'', cp_value = Count 1\<rparr>, \<lparr>cp_name = ''2'', cp_value = Count 1\<rparr>,
              \<lparr>cp_name = ''undefined'', cp_value = Count 1\<rparr>]
   \<and> typeof (get_prop (ages ! 0) ''age'') = ''number''
   \<and> processDataForChart sample_builtins ages ''age'' = Inr (numeric_series sample_builtins ages ''age'')
   \<and> map cp_value (numeric_series sample_builtins ages ''age'') = [Count 3, Count 0, Count 0, Count 1]"
proof -
  let ?d = "one_column ''x'' [JUndefined, JNum (Fin 1), JNum (Fin 2)]"
  have h1: "?d \<noteq> []" and h2: "''x'' \<noteq> []" and h3: "typeof (get_prop (?d ! 0) ''x'') \<noteq> ''number''"
    by (simp_all add: one_column_def get_prop_def)
  have g1: "ages \<noteq> []" and g2: "''age'' \<noteq> []" and g3: "typeof (get_prop (ages ! 0) ''age'') = ''number''"
    by (simp_all add: ages_first)
  from branch_by_first_value[OF h1 h2, of sample_builtins] h3
  have "processDataForChart sample_builtins ?d ''x'' = Inr (categorical_series sample_builtins ?d ''x'')"
    by blast
  then have a: "processDataForChart sample_builtins ?d ''x''
       = Inr [\<lparr>cp_name = ''1'', cp_value = Count 1\<rparr>, \<lparr>cp_name = ''2'', cp_value = Count 1\<rparr>,
              \<lparr>cp_name = ''undefined'', cp_value = Count 1\<rparr>]"
    by (simp only: mixed_series)
  from branch_by_first_value[OF g1 g2, of sample_builtins] g3
  have "processDataForChart sample_builtins ages ''age'' =
              (if length (chart_values sample_builtins ages ''age'') \<le> argument_limit sample_builtins
               then Inr (numeric_series sample_builtins ages ''age'')
               else Inl (Error (RangeError_message sample_builtins)))"
    by blast
  then have b: "processDataForChart sample_builtins ages ''age'' = Inr (numeric_series sample_builtins ages ''age'')"
    by (simp add: ages_values sample_builtins_def)
  have c: "map cp_value (numeric_series sample_builtins ages ''age'') = [Count 3, Count 0, Count 0, Count 1]"
    by (rule ages_counts)
  from h1 h3 a g3 b c show ?thesis by blast
qed

text \<open>
  As stated, the claim gives every missing value the label \<open>undefined\<close>. A row that lacks a
  column named \<open>toString\<close> inherits a function of that name: its value is not missing to
  the code, and the label is the text of the function.
\<close>

theorem inherited_label_counterexample:
  "[''a'' \<mapsto> JStr ''x''] ''toString'' = None
   \<and> typeof (get_prop [''a'' \<mapsto> JStr ''x''] ''toString'') = ''function''
   \<and> label sample_builtins ''toString'' [''a'' \<mapsto> JStr ''x''] = ''function toString() { [native code] }''
   \<and> processDataForChart sample_builtins [[''a'' \<mapsto> JStr ''x'']] ''toString''
       = Inr [\<lparr>cp_name = ''function toString() { [native code] }'', cp_value = Count 1\<rparr>]"
  by (simp add: categorical_eval sample_builtins_def)

section \<open>The column profile\<close>









section \<open>Greetings\<close>

lemma lower_char_whitespace: "is_whitespace c \<Longrightarrow> lower_char c = c"
  by (auto simp: is_whitespace_def lower_char_def)

lemma toLowerCase_whitespace: "list_all is_whitespace s \<Longrightarrow> toLowerCase s = s"
  by (induction s) (simp_all add: toLowerCase_def lower_char_whitespace)

lemma trim_padded:
  assumes "list_all is_whitespace lead" and "list_all is_whitespace trail"
    and "w \<noteq> []" and "\<not> is_whitespace (hd w)" and "\<not> is_whitespace (last w)"
  shows "trim (lead @ w @ trail) = w"
proof -
  have "dropWhile is_whitespace (lead @ w @ trail) = dropWhile is_whitespace (w @ trail)"
    using assms(1) by (simp add: dropWhile_append2 list_all_iff)
  also have "\<dots> = w @ trail" using assms(3,4) by (cases w) simp_all
  finally have 1: "dropWhile is_whitespace (lead @ w @ trail) = w @ trail" .
  have "dropWhile is_whitespace (rev trail @ rev w) = dropWhile is_whitespace (rev w)"
    using assms(2) by (intro dropWhile_append2) (simp add: list_all_iff)
  also have "\<dots> = rev w" using assms(3,5) by (cases "rev w") (simp_all add: hd_rev[symmetric])
  finally show ?thesis by (simp add: trim_def 1)
qed

lemma greeting_ends:
  assumes "g \<in> set greetings"
  shows "g \<noteq> [] \<and> \<not> is_whitespace (hd g) \<and> \<not> is_whitespace (last g)"
  using assms by (auto simp: greetings_def is_whitespace_def)

lemma greeting_detected:
  assumes "g \<in> set greetings" and "toLowerCase w = g"
    and "list_all is_whitespace lead" and "list_all is_whitespace trail"
  shows "trim (toLowerCase (lead @ w @ trail)) \<in> set greetings"
proof -
  have "toLowerCase (lead @ w @ trail) = toLowerCase lead @ toLowerCase w @ toLowerCase trail"
    by (simp add: toLowerCase_def)
  also have "\<dots> = lead @ g @ trail" using assms(2,3,4) by (simp add: toLowerCase_whitespace)
  finally have "trim (toLowerCase (lead @ w @ trail)) = g"
    using trim_padded[OF assms(3,4)] greeting_ends[OF assms(1)] by simp
  with assms(1) show ?thesis by simp
qed

text \<open>
  Claim C9. Let the question be one of the four greetings in any casing, between any white
  space, with data loaded and no analysis running (otherwise the handler ignores the
  submission). Then \<open>handleQuerySubmit\<close> makes no request: it appends the question and the
  canned answer to the conversation and sets a result with that answer, an empty
  \<open>sqlQuery\<close>, \<open>needsChart = false\<close> and the \<open>chartType\<close> \<open>null\<close>. \<open>analyzeDataWithAI\<close> of
  \<^verbatim>\<open>App.tsx\<close> returns the same answer, again without a request.
\<close>

theorem greeting_short_circuit:
  assumes "g \<in> set greetings" and "toLowerCase w = g"
    and "list_all is_whitespace lead" and "list_all is_whitespace trail"
    and "query_st st = lead @ w @ trail" and "data_st st \<noteq> []" and "\<not> isAnalyzing st"
  shows "handleQuerySubmit E W st =
           (st\<lparr>conversation := conversation st @
                  [\<lparr>role = User, content = JsString (query_st st)\<rparr>,
                   \<lparr>role = Assistant, content = JsString greeting_text\<rparr>],
               queryResult := Some \<lparr>answer = JsString greeting_text, sqlQuery = JsString [],
                                      needsChart = False, chartType = JsNull,
                                      chartDataColumn = Some [], chartData = None\<rparr>,
               query_st := [], isAnalyzing := False\<rparr>, [])
       \<and> app_analyzeDataWithAI E post (lead @ w @ trail) schema data =
           (Inr \<lparr>answer = greeting_text, sqlQuery = [], needsChart = False, chartType = None,
                 chartDataColumn = Some [], chartData = Some []\<rparr>, [])
       \<and> greeting_text \<noteq> []"
proof -
  have d: "trim (toLowerCase (lead @ w @ trail)) \<in> set greetings"
    using assms(1-4) by (rule greeting_detected)
  have "w \<noteq> []" using assms(1,2) by (auto simp: greetings_def toLowerCase_def)
  then have q: "query_st st \<noteq> []" using assms(5) by simp
  have 1: "handleQuerySubmit E W st =
           (st\<lparr>conversation := conversation st @
                  [\<lparr>role = User, content = JsString (query_st st)\<rparr>,
                   \<lparr>role = Assistant, content = JsString greeting_text\<rparr>],
               queryResult := Some \<lparr>answer = JsString greeting_text, sqlQuery = JsString [],
                                      needsChart = False, chartType = JsNull,
                                      chartDataColumn = Some [], chartData = None\<rparr>,
               query_st := [], isAnalyzing := False\<rparr>, [])"
    using d q assms(6,7) unfolding assms(5)[symmetric]
    by (simp add: handleQuerySubmit_def finally_block_def greeting_result_def)
  have 2: "app_analyzeDataWithAI E post (lead @ w @ trail) schema data =
           (Inr \<lparr>answer = greeting_text, sqlQuery = [], needsChart = False, chartType = None,
                 chartDataColumn = Some [], chartData = Some []\<rparr>, [])"
    using d by (simp add: app_analyzeDataWithAI_def app_greeting_result_def)
  have 3: "greeting_text \<noteq> []" by (simp add: greeting_text_def)
  from 1 2 3 show ?thesis by blast
qed


theorem greeting_short_circuit_witness:
  "''hello'' \<in> set greetings \<and> toLowerCase ''HeLLo'' = ''hello''
   \<and> list_all is_whitespace [CHR 0x20, CHR 0x09] \<and> list_all is_whitespace [CHR 0x0A]
   \<and> snd (handleQuerySubmit sample_env \<lparr>fetch_text = Inl NotAnError, analyzeData = Inl NotAnError\<rparr>
         \<lparr>query_st = [CHR 0x20, CHR 0x09] @ ''HeLLo'' @ [CHR 0x0A], schema_st = None, data_st = ages,
          queryResult = None, isAnalyzing = False, conversation = []\<rparr>) = []
   \<and> queryResult (fst (handleQuerySubmit sample_env \<lparr>fetch_text = Inl NotAnError, analyzeData = Inl NotAnError\<rparr>
         \<lparr>query_st = [CHR 0x20, CHR 0x09] @ ''HeLLo'' @ [CHR 0x0A], schema_st = None, data_st = ages,
          queryResult = None, isAnalyzing = False, conversation = []\<rparr>))
       = Some \<lparr>answer = JsString greeting_text, sqlQuery = JsString [], needsChart = False,
                chartType = JsNull, chartDataColumn = Some [], chartData = None\<rparr>
   \<and> app_analyzeDataWithAI sample_env (Inl NotAnError) ([CHR 0x20, CHR 0x09] @ ''HeLLo'' @ [CHR 0x0A]) None ages
       = (Inr \<lparr>answer = greeting_text, sqlQuery = [], needsChart = False, chartType = None,
                chartDataColumn = Some [], chartData = Some []\<rparr>, [])"
proof -
  let ?st = "\<lparr>query_st = [CHR 0x20, CHR 0x09] @ ''HeLLo'' @ [CHR 0x0A], schema_st = None, data_st = ages,
          queryResult = None, isAnalyzing = False, conversation = []\<rparr>"
  have h1: "''hello'' \<in> set greetings" by (simp add: greetings_def)
  have h2: "toLowerCase ''HeLLo'' = ''hello''" by code_simp
  have h3: "list_all is_whitespace [CHR 0x20, CHR 0x09]" and h4: "list_all is_whitespace [CHR 0x0A]"
    by (simp_all add: is_whitespace_def)
  have h5: "query_st ?st = [CHR 0x20, CHR 0x09] @ ''HeLLo'' @ [CHR 0x0A]" by simp
  have h6: "data_st ?st \<noteq> []" by (simp add: ages_def one_column_def)
  have h7: "\<not> isAnalyzing ?st" by simp
  note short = greeting_short_circuit[OF h1 h2 h3 h4 h5 h6 h7, of sample_env
      "\<lparr>fetch_text = Inl NotAnError, analyzeData = Inl NotAnError\<rparr>" "Inl NotAnError" None ages]
  from short have a: "snd (handleQuerySubmit sample_env \<lparr>fetch_text = Inl NotAnError, analyzeData = Inl NotAnError\<rparr> ?st) = []"
    by simp
  from short have b: "queryResult (fst (handleQuerySubmit sample_env \<lparr>fetch_text = Inl NotAnError, analyzeData = Inl NotAnError\<rparr> ?st))
       = Some \<lparr>answer = JsString greeting_text, sqlQuery = JsString [], needsChart = False,
                chartType = JsNull, chartDataColumn = Some [], chartData = None\<rparr>"
    by simp
  from short have c: "app_analyzeDataWithAI sample_env (Inl NotAnError) ([CHR 0x20, CHR 0x09] @ ''HeLLo'' @ [CHR 0x0A]) None ages
       = (Inr \<lparr>answer = greeting_text, sqlQuery = [], needsChart = False, chartType = None,
                chartDataColumn = Some [], chartData = Some []\<rparr>, [])"
    by (elim conjE)
  from h1 h2 h3 h4 a b c show ?thesis by blast
qed


section \<open>A reply that cannot be parsed\<close>

lemma llmData_fallback:
  assumes "(\<exists>e. extract_llmData E responseText = Inl e)
         \<or> (\<exists>c. combinedResponse E responseText = Inr c \<and> match_braces c = None)"
  shows "llmData E responseText = no_json_reply \<or> llmData E responseText = parse_error_reply"
  using assms by (auto simp: llmData_def extract_llmData_def)

lemma fallback_members:
  assumes "d = no_json_reply \<or> d = parse_error_reply"
  shows "d \<noteq> JsNull"
    and "\<exists>s. get_member d ''answer'' = Some (JsString s) \<and> take 11 s = ''I apologize''"
    and "get_member d ''sqlQuery'' = Some (JsString [])"
    and "get_member d ''visualization'' = Some JsNull"
  using assms by (auto simp: no_json_reply_def parse_error_reply_def)

lemma error_result_fields:
  "\<exists>s. answer (error_result e) = JsString s \<and> take 11 s = ''I apologize''"
  "sqlQuery (error_result e) = JsString []" "\<not> needsChart (error_result e)"
  "chartType (error_result e) = JsNull" "chartData (error_result e) = None"
  by (cases e; simp add: error_result_def)+

lemma handler_after_fetch:
  assumes "data_st st \<noteq> []" and "query_st st \<noteq> []" and "\<not> isAnalyzing st"
    and "trim (toLowerCase (query_st st)) \<notin> set greetings"
    and "fetch_text W = Inr responseText"
    and d: "llmData E responseText = no_json_reply \<or> llmData E responseText = parse_error_reply"
  shows "fst (handleQuerySubmit E W st) =
     (case fst (analyzeQuery W st) of
        Inl e \<Rightarrow>
          st\<lparr>conversation := conversation st @ [\<lparr>role = User, content = JsString (query_st st)\<rparr>,
                  \<lparr>role = Assistant, content = answer (error_result e)\<rparr>],
             queryResult := Some (error_result e), isAnalyzing := False\<rparr>
      | Inr result \<Rightarrow>
          st\<lparr>conversation := conversation st @ [\<lparr>role = User, content = JsString (query_st st)\<rparr>,
                  \<lparr>role = Assistant, content = the (get_member (llmData E responseText) ''answer'')\<rparr>],
             queryResult := Some (result\<lparr>answer := the (get_member (llmData E responseText) ''answer'')\<rparr>),
             query_st := [], isAnalyzing := False\<rparr>)"
proof -
  from fallback_members[OF d] obtain s where
    n: "llmData E responseText \<noteq> JsNull"
    and a: "get_member (llmData E responseText) ''answer'' = Some (JsString s)" "take 11 s = ''I apologize''"
    and q: "get_member (llmData E responseText) ''sqlQuery'' = Some (JsString [])"
    and v: "get_member (llmData E responseText) ''visualization'' = Some JsNull"
    by blast
  from a(2) have s: "s \<noteq> []" by auto
  show ?thesis
    using assms(1-5) n a(1) q v s
    by (auto simp: handleQuerySubmit_def analyzeQuery_def merge_results_def on_error_def
        finally_block_def or_json_def Let_def split: sum.splits)
qed


text \<open>
  Claim C8, as amended. In \<open>handleQuerySubmit\<close>, let a question that is no greeting be
  dispatched and let the service answer with a text in which parsing throws (a line or the
  block in braces is no JSON) or whose combined response has no block in braces. Then the
  parsed reply is one of the two fallback objects: an answer that starts with an apology,
  the empty \<open>sqlQuery\<close> and no visualization. Nothing is thrown out of the handler: it ends
  with \<open>isAnalyzing\<close> cleared, the question and one answer of the assistant appended to the
  conversation, and a result whose answer is an apology. The \<open>sqlQuery\<close> and the chart of
  that result are those of the second analysis (\<open>analyzeQuery\<close>), and are empty when that
  analysis throws. \<open>analyzeDataWithAI\<close> of \<^verbatim>\<open>openai.ts\<close>, in contrast, throws an \<open>Error\<close> to its
  caller when the reply of the service does not parse, and so would its statements that
  search the reply for a block in braces, which are never reached.
\<close>

theorem parse_failure_fallback:
  assumes "data_st st \<noteq> []" and "query_st st \<noteq> []" and "\<not> isAnalyzing st"
    and "trim (toLowerCase (query_st st)) \<notin> set greetings"
    and "fetch_text W = Inr responseText"
    and "(\<exists>e. extract_llmData E responseText = Inl e)
         \<or> (\<exists>c. combinedResponse E responseText = Inr c \<and> match_braces c = None)"
  shows "(llmData E responseText = no_json_reply \<or> llmData E responseText = parse_error_reply)
       \<and> (\<exists>s. get_member (llmData E responseText) ''answer'' = Some (JsString s) \<and> take 11 s = ''I apologize'')
       \<and> get_member (llmData E responseText) ''sqlQuery'' = Some (JsString [])
       \<and> get_member (llmData E responseText) ''visualization'' = Some JsNull
       \<and> (\<exists>r. queryResult (fst (handleQuerySubmit E W st)) = Some r
              \<and> (\<exists>s. answer r = JsString s \<and> take 11 s = ''I apologize'')
              \<and> (case fst (analyzeQuery W st) of
                    Inl e \<Rightarrow> sqlQuery r = JsString [] \<and> \<not> needsChart r \<and> chartType r = JsNull
                              \<and> chartData r = None
                  | Inr result \<Rightarrow> sqlQuery r = sqlQuery result \<and> needsChart r = needsChart result
                              \<and> chartType r = chartType result \<and> chartData r = chartData result))
       \<and> \<not> isAnalyzing (fst (handleQuerySubmit E W st))
       \<and> (\<exists>m. conversation (fst (handleQuerySubmit E W st))
                = conversation st @ [\<lparr>role = User, content = JsString (query_st st)\<rparr>, m]
              \<and> role m = Assistant)
       \<and> (reply \<noteq> [] \<and> JSON_parse E reply = None \<longrightarrow>
            fst (openai_analyzeDataWithAI E (Inr (Some \<lparr>ollama_response = Some reply, ollama_error = None\<rparr>))
                   query (Some schema) rows) = Inl (openai_rethrow E))
       \<and> (match_braces reply = None \<or> (\<exists>j. match_braces reply = Some j \<and> JSON_parse E j = None) \<longrightarrow>
            (\<exists>msg. openai_parse_result E reply = Inl (Error msg)))"
proof -
  have o1: "fst (openai_analyzeDataWithAI E (Inr (Some \<lparr>ollama_response = Some reply, ollama_error = None\<rparr>))
                   query (Some schema) rows) = Inl (openai_rethrow E)"
    if "reply \<noteq> []" "JSON_parse E reply = None"
    using that by (cases reply) (simp_all add: openai_analyzeDataWithAI_def openai_try_def)
  have o2: "\<exists>msg. openai_parse_result E reply = Inl (Error msg)"
    if "match_braces reply = None \<or> (\<exists>j. match_braces reply = Some j \<and> JSON_parse E j = None)"
    using that by (auto simp: openai_parse_result_def)
  have d: "llmData E responseText = no_json_reply \<or> llmData E responseText = parse_error_reply"
    using assms(6) by (rule llmData_fallback)
  from fallback_members[OF d] obtain s where
    a: "get_member (llmData E responseText) ''answer'' = Some (JsString s)" "take 11 s = ''I apologize''"
    and q: "get_member (llmData E responseText) ''sqlQuery'' = Some (JsString [])"
    and v: "get_member (llmData E responseText) ''visualization'' = Some JsNull"
    by blast
  note h = handler_after_fetch[OF assms(1-5) d]
  have rest: "(\<exists>r. queryResult (fst (handleQuerySubmit E W st)) = Some r
              \<and> (\<exists>s. answer r = JsString s \<and> take 11 s = ''I apologize'')
              \<and> (case fst (analyzeQuery W st) of
                    Inl e \<Rightarrow> sqlQuery r = JsString [] \<and> \<not> needsChart r \<and> chartType r = JsNull
                              \<and> chartData r = None
                  | Inr result \<Rightarrow> sqlQuery r = sqlQuery result \<and> needsChart r = needsChart result
                              \<and> chartType r = chartType result \<and> chartData r = chartData result))
       \<and> \<not> isAnalyzing (fst (handleQuerySubmit E W st))
       \<and> (\<exists>m. conversation (fst (handleQuerySubmit E W st))
                = conversation st @ [\<lparr>role = User, content = JsString (query_st st)\<rparr>, m]
              \<and> role m = Assistant)"
  proof (cases "fst (analyzeQuery W st)")
    case (Inl e)
    with h error_result_fields[of e] show ?thesis by simp
  next
    case (Inr result)
    with h a show ?thesis by simp
  qed
  from d a q v rest o1 o2 show ?thesis by blast
qed

lemma prose_eval:
  "extract_llmData sample_env ''Sorry, I cannot answer that.'' = Inl (Error ''Unexpected token'')"
  by (simp add: extract_llmData_def combinedResponse_def jsonResponses_def trim_def is_whitespace_def
      sample_env_def sample_parse_def wants_chart_text_def)

theorem parse_failure_fallback_witness:
  "data_st asking_page \<noteq> [] \<and> query_st asking_page \<noteq> [] \<and> \<not> isAnalyzing asking_page
   \<and> trim (toLowerCase (query_st asking_page)) \<notin> set greetings
   \<and> fetch_text prose_world = Inr ''Sorry, I cannot answer that.''
   \<and> extract_llmData sample_env ''Sorry, I cannot answer that.'' = Inl (Error ''Unexpected token'')
   \<and> llmData sample_env ''Sorry, I cannot answer that.'' = parse_error_reply
   \<and> \<not> isAnalyzing (fst (handleQuerySubmit sample_env prose_world asking_page))
   \<and> (\<exists>r s. queryResult (fst (handleQuerySubmit sample_env prose_world asking_page)) = Some r
         \<and> answer r = JsString s \<and> take 11 s = ''I apologize'')
   \<and> JSON_parse sample_env ''Sorry, I cannot answer that.'' = None
   \<and> fst (openai_analyzeDataWithAI sample_env
            (Inr (Some \<lparr>ollama_response = Some ''Sorry, I cannot answer that.'', ollama_error = None\<rparr>))
            ''how many rows?'' (Some ages_schema) ages) = Inl (openai_rethrow sample_env)"
proof -
  have h1: "data_st asking_page \<noteq> []" and h2: "query_st asking_page \<noteq> []"
    and h3: "\<not> isAnalyzing asking_page"
    by (simp_all add: asking_page_def ages_def one_column_def)
  have "trim (toLowerCase (query_st asking_page)) = ''how many rows?''"
    unfolding asking_page_def by code_simp
  then have h4: "trim (toLowerCase (query_st asking_page)) \<notin> set greetings"
    by (simp add: greetings_def)
  have h5: "fetch_text prose_world = Inr ''Sorry, I cannot answer that.''"
    by (simp add: prose_world_def)
  have h6: "(\<exists>e. extract_llmData sample_env ''Sorry, I cannot answer that.'' = Inl e)
         \<or> (\<exists>c. combinedResponse sample_env ''Sorry, I cannot answer that.'' = Inr c \<and> match_braces c = None)"
    using prose_eval by blast
  have l: "llmData sample_env ''Sorry, I cannot answer that.'' = parse_error_reply"
    by (simp add: llmData_def prose_eval)
  note fb = parse_failure_fallback[OF h1 h2 h3 h4 h5 h6,
      where reply = "''Sorry, I cannot answer that.''" and query = "''how many rows?''"
        and schema = ages_schema and rows = ages]
  from fb have a: "\<not> isAnalyzing (fst (handleQuerySubmit sample_env prose_world asking_page))"
    by blast
  from fb have b: "\<exists>r s. queryResult (fst (handleQuerySubmit sample_env prose_world asking_page)) = Some r
         \<and> answer r = JsString s \<and> take 11 s = ''I apologize''"
    by blast
  have p: "JSON_parse sample_env ''Sorry, I cannot answer that.'' = None"
    by (simp add: sample_env_def sample_parse_def wants_chart_text_def)
  have ne: "''Sorry, I cannot answer that.'' \<noteq> []" by simp
  from fb p ne have c: "fst (openai_analyzeDataWithAI sample_env
            (Inr (Some \<lparr>ollama_response = Some ''Sorry, I cannot answer that.'', ollama_error = None\<rparr>))
            ''how many rows?'' (Some ages_schema) ages) = Inl (openai_rethrow sample_env)"
    by blast
  from h1 h2 h3 h4 h5 prose_eval l a b p c show ?thesis by blast
qed

text \<open>
  The copy of \<open>analyzeDataWithAI\<close> in \<^verbatim>\<open>openai.ts\<close> does let the failure escape: for a reply in
  prose it throws an \<open>Error\<close> to its caller, and so would the statements that search the
  reply for a block in braces. In the handler of the page, the result shown after such a
  reply carries the query and the chart of the second analysis.
\<close>

theorem parse_failure_counterexample:
  "fst (openai_analyzeDataWithAI sample_env
          (Inr (Some \<lparr>ollama_response = Some ''Sorry, I cannot answer that.'', ollama_error = None\<rparr>))
          ''how many rows?'' (Some ages_schema) ages)
     = Inl (Error ''An unexpected error occurred while analyzing data'')
   \<and> openai_parse_result sample_env ''Sorry, I cannot answer that.''
     = Inl (Error ''Failed to parse Ollama response: No JSON found in Ollama response'')
   \<and> map_option sqlQuery (queryResult (fst (handleQuerySubmit sample_env prose_world asking_page)))
     = Some (JsString ''SELECT COUNT(*) FROM people'')
   \<and> map_option needsChart (queryResult (fst (handleQuerySubmit sample_env prose_world asking_page)))
     = Some True"
proof -
  have 1: "fst (openai_analyzeDataWithAI sample_env
          (Inr (Some \<lparr>ollama_response = Some ''Sorry, I cannot answer that.'', ollama_error = None\<rparr>))
          ''how many rows?'' (Some ages_schema) ages)
     = Inl (Error ''An unexpected error occurred while analyzing data'')"
    by (simp add: openai_analyzeDataWithAI_def openai_try_def openai_rethrow_def sample_env_def
        sample_parse_def wants_chart_text_def)
  have 2: "openai_parse_result sample_env ''Sorry, I cannot answer that.''
     = Inl (Error ''Failed to parse Ollama response: No JSON found in Ollama response'')"
    by (simp add: openai_parse_result_def match_braces_def)
  have t: "trim (toLowerCase ''how many rows?'') = ''how many rows?''" by code_simp
  have l: "llmData sample_env ''Sorry, I cannot answer that.'' = parse_error_reply"
    by (simp add: llmData_def prose_eval)
  have 3: "queryResult (fst (handleQuerySubmit sample_env prose_world asking_page))
     = Some \<lparr>answer = JsString ''I apologize, but I encountered an error processing the response. Could you please try again?'',
              sqlQuery = JsString ''SELECT COUNT(*) FROM people'', needsChart = True,
              chartType = JsString ''bar'', chartDataColumn = Some ''age'',
              chartData = Some [\<lparr>cp_name = ''20.00 - 37.50'', cp_value = Count 3\<rparr>]\<rparr>"
    by (simp add: handleQuerySubmit_def asking_page_def prose_world_def t greetings_def l
        analyzeQuery_def merge_results_def parse_error_reply_def or_json_def finally_block_def
        ages_def one_column_def Let_def)
  from 1 2 3 show ?thesis by simp
qed


section \<open>The length of a chart series\<close>

lemma length_backfill_chartData:
  "length (backfill_chartData E data selectedColumn) =
     card ((\<lambda>row. String E (or_else (get_prop row selectedColumn) (JStr ''Unknown''))) ` set data)"
proof -
  let ?key = "\<lambda>row. String E (or_else (get_prop row selectedColumn) (JStr ''Unknown''))"
  have "aggregatedData E data selectedColumn = foldl map_increment [] (map ?key data)"
    by (simp add: aggregatedData_def foldl_map)
  then have "map fst (aggregatedData E data selectedColumn) = first_seen (map ?key data)"
    by (simp add: tally_keys)
  then have "length (map fst (aggregatedData E data selectedColumn)) = card (set (map ?key data))"
    by (simp only: length_first_seen)
  then show ?thesis by (simp add: backfill_chartData_def)
qed

lemma app_result_chartData:
  assumes "app_result E llmResponse schema data = Inr r" and "chartData r = Some series"
  shows "length series \<le> 10"
  using assms length_processDataForChart[of E data]
  by (auto simp: app_result_def Let_def split: sum.splits if_splits)

lemma app_analyzeDataWithAI_chartData:
  assumes "fst (app_analyzeDataWithAI E post query schema data) = Inr r" and "chartData r = Some series"
  shows "length series \<le> 10"
proof (cases "trim (toLowerCase query) \<in> set greetings")
  case True
  with assms show ?thesis by (auto simp: app_analyzeDataWithAI_def app_greeting_result_def)
next
  case False
  with assms show ?thesis
    by (auto simp: app_analyzeDataWithAI_def app_try_def app_error_result_def
        split: option.splits sum.splits if_splits dest: app_result_chartData)
qed

text \<open>
  Claim C3, as amended. Every series that \<open>processDataForChart\<close> returns has at most ten
  points, and so has the chart data of every result of \<open>analyzeDataWithAI\<close> in \<^verbatim>\<open>App.tsx\<close>
  (when \<open>processDataForChart\<close> throws, that result is an apology with no points).
  The chart data that \<open>analyzeDataWithAI\<close> in \<^verbatim>\<open>openai.ts\<close> builds for a reply that wants a
  chart and has none is not cut: it has one point for each distinct key
  \<open>String(row[selectedColumn] || 'Unknown')\<close> of the dataset.
\<close>

theorem chart_series_length:
  "(case processDataForChart E data column of Inl e \<Rightarrow> True | Inr series \<Rightarrow> length series \<le> 10)
   \<and> (case fst (app_analyzeDataWithAI E post query schema data) of
        Inl e \<Rightarrow> True
      | Inr r \<Rightarrow> (case chartData r of None \<Rightarrow> True | Some series \<Rightarrow> length series \<le> 10))
   \<and> length (backfill_chartData E data selectedColumn) =
        card ((\<lambda>row. String E (or_else (get_prop row selectedColumn) (JStr ''Unknown''))) ` set data)"
  using length_processDataForChart[of E data column]
    app_analyzeDataWithAI_chartData[of E post query schema data]
    length_backfill_chartData[of E data selectedColumn]
  by (auto split: sum.splits option.splits)

text \<open>
  For a reply \<open>{"needsChart": true}\<close> and eleven rows with different values in the first
  column of the schema, the chart data built in \<^verbatim>\<open>openai.ts\<close> has eleven points.
\<close>

theorem backfill_length_counterexample:
  "(case fst (openai_analyzeDataWithAI sample_env
               (Inr (Some \<lparr>ollama_response = Some wants_chart_text, ollama_error = None\<rparr>))
               ''show the categories'' (Some \<lparr>tableName = ''t'', columns = [\<lparr>col_name = ''c'', col_type = ''string''\<rparr>]\<rparr>)
               eleven_rows) of
      Inl e \<Rightarrow> None
    | Inr r \<Rightarrow> map_option length (assigned_chartData r)) = Some 11"
  by (simp add: openai_analyzeDataWithAI_def openai_try_def sample_env_def sample_parse_def
      wants_chart_text_def backfill_chartData_def aggregatedData_def eleven_rows_def one_column_def
      get_prop_def or_else_def)


lemma chart_reply_eval:
  "toLowerCase ''A bar chart of age'' = ''a bar chart of age''"
  "toLowerCase ''age'' = ''age''"
  "trim (toLowerCase ''plot the ages'') = ''plot the ages''"
  by code_simp+

theorem chart_series_length_witness:
  "map_option (map cp_value) (case fst (app_analyzeDataWithAI sample_builtins
       (Inr (Some \<lparr>ollama_response = Some ''A bar chart of age'', ollama_error = None\<rparr>))
       ''plot the ages'' (Some ages_schema) ages) of Inl e \<Rightarrow> None | Inr r \<Rightarrow> chartData r)
     = Some [Count 3, Count 0, Count 0, Count 1]
   \<and> (case fst (app_analyzeDataWithAI sample_builtins
       (Inr (Some \<lparr>ollama_response = Some ''A bar chart of age'', ollama_error = None\<rparr>))
       ''plot the ages'' (Some ages_schema) ages) of
        Inl e \<Rightarrow> True
      | Inr r \<Rightarrow> (case chartData r of None \<Rightarrow> True | Some series \<Rightarrow> length series \<le> 10))"
proof -
  have c: "determineChartColumn sample_builtins ''A bar chart of age'' (columns ages_schema) = Inr ''age''"
    by (simp add: determineChartColumn_def chart_reply_eval ages_schema_def)
  have n: "str_includes (toLowerCase ''A bar chart of age'') ''chart''"
    by (simp add: chart_reply_eval)
  have "processDataForChart sample_builtins ages ''age'' = Inr (numeric_series sample_builtins ages ''age'')"
    by (simp add: ages_processDataForChart sample_builtins_def)
  moreover have "map cp_value (numeric_series sample_builtins ages ''age'') = [Count 3, Count 0, Count 0, Count 1]"
    by (rule ages_counts)
  ultimately have "map_option (map cp_value) (case fst (app_analyzeDataWithAI sample_builtins
       (Inr (Some \<lparr>ollama_response = Some ''A bar chart of age'', ollama_error = None\<rparr>))
       ''plot the ages'' (Some ages_schema) ages) of Inl e \<Rightarrow> None | Inr r \<Rightarrow> chartData r)
     = Some [Count 3, Count 0, Count 0, Count 1]"
    by (simp add: app_analyzeDataWithAI_def app_try_def chart_reply_eval greetings_def app_result_def c n)
  with chart_series_length[of sample_builtins ages "''age''"
       "Inr (Some \<lparr>ollama_response = Some ''A bar chart of age'', ollama_error = None\<rparr>)"
       "''plot the ages''" "Some ages_schema" "''age''"]
  show ?thesis by blast
qed


section \<open>Further properties\<close>

lemma sum_list_ranked:
  "sum_list (map (count_of \<circ> cp_value) (map count_point (take n (ranking ls))))
     = sum (count_list ls) (fst ` set (take n (ranking ls)))"
proof -
  let ?R = "take n (ranking ls)"
  have e: "snd e = count_list ls (fst e)" if "e \<in> set ?R" for e
  proof -
    from that have "e \<in> set (ranking ls)" by (rule in_set_takeD)
    then show ?thesis by (auto simp: set_ranking)
  qed
  have "map (count_of \<circ> cp_value) (map count_point ?R) = map snd ?R"
    by (simp add: count_point_def comp_def)
  also have "\<dots> = map (count_list ls) (map fst ?R)" using e by simp
  finally have "sum_list (map (count_of \<circ> cp_value) (map count_point ?R))
      = sum_list (map (count_list ls) (map fst ?R))" by (rule arg_cong)
  also have "\<dots> = sum (count_list ls) (set (map fst ?R))"
  proof (rule sum_list_distinct_conv_sum_set)
    have "distinct (take n (map fst (ranking ls)))" using distinct_ranking[of ls] by (rule distinct_take)
    then show "distinct (map fst ?R)" by (simp add: take_map)
  qed
  finally show ?thesis by simp
qed

text \<open>
  When no label is the name of a member of \<open>Object.prototype\<close>, the values of a categorical
  series add up to at most the number of rows, and to exactly that number when the column
  has at most ten labels.
\<close>

theorem categorical_series_sum:
  assumes "data \<noteq> []" and "column \<noteq> []" and "typeof (get_prop (data ! 0) column) \<noteq> ''number''"
    and plain: "\<forall>l\<in>set (labels E data column). Object_prototype l = None"
  shows "\<exists>series. processDataForChart E data column = Inr series
       \<and> sum_list (map (count_of \<circ> cp_value) series) \<le> length data
       \<and> (card (label E column ` set data) \<le> 10 \<longrightarrow>
            sum_list (map (count_of \<circ> cp_value) series) = length data)"
proof -
  let ?ls = "labels E data column"
  let ?R = "take 10 (ranking ?ls)"
  have P: "processDataForChart E data column = Inr (map count_point ?R)"
    unfolding categorical_series_ranking[OF plain, symmetric]
    using assms(1-3) by (rule categorical_branch)
  have sub: "fst ` set ?R \<subseteq> set ?ls"
  proof
    fix l assume "l \<in> fst ` set ?R"
    then obtain e where "e \<in> set ?R" "l = fst e" by blast
    then have "e \<in> set (ranking ?ls)" by (auto dest: in_set_takeD)
    with \<open>l = fst e\<close> show "l \<in> set ?ls" by (auto simp: set_ranking)
  qed
  have total: "sum (count_list ?ls) (set ?ls) = length ?ls"
    by (rule sum_count_set) simp_all
  have "sum (count_list ?ls) (fst ` set ?R) \<le> sum (count_list ?ls) (set ?ls)"
    using sub by (intro sum_mono2) simp_all
  then have le: "sum_list (map (count_of \<circ> cp_value) (map count_point ?R)) \<le> length data"
    unfolding sum_list_ranked total by (simp add: labels_def)
  have eq: "sum_list (map (count_of \<circ> cp_value) (map count_point ?R)) = length data"
    if "card (label E column ` set data) \<le> 10"
  proof -
    have "length (ranking ?ls) \<le> 10" using that by (simp add: length_ranking labels_def)
    then have "?R = ranking ?ls" by simp
    then have "fst ` set ?R = set ?ls" by (force simp: set_ranking)
    then show ?thesis unfolding sum_list_ranked by (simp add: total) (simp add: labels_def)
  qed
  from P le eq show ?thesis by blast
qed

theorem categorical_series_sum_witness:
  "one_column ''c'' [JStr ''a'', JStr ''a'', JStr ''b'', JStr ''c'', JStr ''c''] \<noteq> []
   \<and> typeof (get_prop (one_column ''c'' [JStr ''a'', JStr ''a'', JStr ''b'', JStr ''c'', JStr ''c''] ! 0) ''c'') \<noteq> ''number''
   \<and> labels sample_builtins (one_column ''c'' [JStr ''a'', JStr ''a'', JStr ''b'', JStr ''c'', JStr ''c'']) ''c''
       = [''a'', ''a'', ''b'', ''c'', ''c'']
   \<and> list_all (\<lambda>l. Object_prototype l = None) [''a'', ''a'', ''b'', ''c'', ''c'']
   \<and> card (label sample_builtins ''c'' ` set (one_column ''c'' [JStr ''a'', JStr ''a'', JStr ''b'', JStr ''c'', JStr ''c''])) \<le> 10
   \<and> (\<exists>series. processDataForChart sample_builtins
         (one_column ''c'' [JStr ''a'', JStr ''a'', JStr ''b'', JStr ''c'', JStr ''c'']) ''c'' = Inr series
        \<and> sum_list (map (count_of \<circ> cp_value) series) = 5)"
proof -
  let ?d = "one_column ''c'' [JStr ''a'', JStr ''a'', JStr ''b'', JStr ''c'', JStr ''c'']"
  have h1: "?d \<noteq> []" and h2: "''c'' \<noteq> []" and h3: "typeof (get_prop (?d ! 0) ''c'') \<noteq> ''number''"
    by (simp_all add: one_column_def get_prop_def)
  have l: "labels sample_builtins ?d ''c'' = [''a'', ''a'', ''b'', ''c'', ''c'']"
    by (simp add: labels_def label_def nullish_def one_column_def get_prop_def)
  have pl: "list_all (\<lambda>l. Object_prototype l = None) [''a'', ''a'', ''b'', ''c'', ''c'']"
    by (simp add: Object_prototype_def)
  then have h4: "\<forall>l\<in>set (labels sample_builtins ?d ''c''). Object_prototype l = None"
    unfolding l by (simp only: list_all_iff)
  have "label sample_builtins ''c'' ` set ?d = {''a'', ''b'', ''c''}"
    by (auto simp: one_column_def label_def nullish_def get_prop_def)
  then have h5: "card (label sample_builtins ''c'' ` set ?d) \<le> 10" by simp
  have n: "length ?d = 5" by (simp add: one_column_def)
  from categorical_series_sum[OF h1 h2 h3 h4] h5 n
  have "\<exists>series. processDataForChart sample_builtins ?d ''c'' = Inr series
        \<and> sum_list (map (count_of \<circ> cp_value) series) = 5"
    by auto
  with h1 h3 l pl h5 show ?thesis by blast
qed

text \<open>
  Every submission that the handler dispatches is resolved: whatever the service and the
  second analysis do, the handler ends with \<open>isAnalyzing\<close> cleared, a result set, and the
  question and exactly one answer of the assistant appended to the conversation. A
  submission without data, without a question or during an analysis changes nothing and
  sends nothing.
\<close>

theorem handler_resolves:
  "(data_st st = [] \<or> query_st st = [] \<or> isAnalyzing st \<longrightarrow> handleQuerySubmit E W st = (st, []))
   \<and> (data_st st \<noteq> [] \<and> query_st st \<noteq> [] \<and> \<not> isAnalyzing st \<longrightarrow>
        \<not> isAnalyzing (fst (handleQuerySubmit E W st))
        \<and> queryResult (fst (handleQuerySubmit E W st)) \<noteq> None
        \<and> (\<exists>m. conversation (fst (handleQuerySubmit E W st))
                 = conversation st @ [\<lparr>role = User, content = JsString (query_st st)\<rparr>, m]
               \<and> role m = Assistant)
        \<and> data_st (fst (handleQuerySubmit E W st)) = data_st st
        \<and> schema_st (fst (handleQuerySubmit E W st)) = schema_st st)"
  by (auto simp: handleQuerySubmit_def Let_def finally_block_def on_error_def merge_results_def
      analyzeQuery_def split: sum.splits prod.splits if_splits)

theorem handler_resolves_witness:
  "data_st asking_page \<noteq> [] \<and> query_st asking_page \<noteq> [] \<and> \<not> isAnalyzing asking_page
   \<and> \<not> isAnalyzing (fst (handleQuerySubmit sample_env prose_world asking_page))
   \<and> queryResult (fst (handleQuerySubmit sample_env prose_world asking_page)) \<noteq> None
   \<and> handleQuerySubmit sample_env prose_world (asking_page\<lparr>isAnalyzing := True\<rparr>)
       = (asking_page\<lparr>isAnalyzing := True\<rparr>, [])"
proof -
  have h: "data_st asking_page \<noteq> []" "query_st asking_page \<noteq> []" "\<not> isAnalyzing asking_page"
    by (simp_all add: asking_page_def ages_def one_column_def)
  from handler_resolves[of asking_page sample_env prose_world] h
  have a: "\<not> isAnalyzing (fst (handleQuerySubmit sample_env prose_world asking_page))"
    "queryResult (fst (handleQuerySubmit sample_env prose_world asking_page)) \<noteq> None"
    by blast+
  from handler_resolves[of "asking_page\<lparr>isAnalyzing := True\<rparr>" sample_env prose_world]
  have b: "handleQuerySubmit sample_env prose_world (asking_page\<lparr>isAnalyzing := True\<rparr>)
       = (asking_page\<lparr>isAnalyzing := True\<rparr>, [])"
    by simp
  from h a b show ?thesis by blast
qed

end
